(* ===== verification/Prelude.thy ===== *)
theory Prelude
  imports Main "HOL-Library.Word"
begin

text \<open>
  Shared vocabulary of the development: the machine integers and byte strings of the Rust
  sources, results in which an error return and a panic are different values, bounds-checked
  slice access, big-endian conversions, saturating and checked arithmetic, and durations.
  The lemmas are the ones several components use; they are declared \<open>[simp]\<close> or collected in
  \<open>no_panic_rules\<close> so that component proofs are short.

  Sizes and offsets (\<open>usize\<close>) are natural numbers: every one of them in the modelled code is
  the length of a slice that is in memory, or a sum of a few of them, so it fits 64 bits.
\<close>

unbundle bit_operations_syntax

named_theorems no_panic_rules \<open>introduction rules for panic freedom\<close>

subsection \<open>Machine integers and byte strings\<close>

type_synonym u8 = "8 word"
type_synonym u16 = "16 word"
type_synonym u32 = "32 word"
type_synonym u64 = "64 word"
type_synonym bytes = "u8 list"

lemma unat_lt: "unat (w :: 'a :: len word) < 2 ^ LENGTH('a)"
  by (rule unsigned_less)

lemma unat_ucast_up:
  "LENGTH('a) \<le> LENGTH('b) \<Longrightarrow> unat (ucast (w :: 'a :: len word) :: 'b :: len word) = unat w"
  using less_le_trans [OF unat_lt [of w] power_increasing [of "LENGTH('a)" "LENGTH('b)" "2 :: nat"]]
  by (simp add: unsigned_ucast_eq take_bit_nat_eq_self)

lemma unat_ucast_down:
  "unat (ucast (w :: 'a :: len word) :: 'b :: len word) = unat w mod 2 ^ LENGTH('b)"
  by (simp add: unsigned_ucast_eq take_bit_eq_mod)

definition saturating_add_u64 :: "u64 \<Rightarrow> u64 \<Rightarrow> u64" where
  "saturating_add_u64 a b = (if unat a + unat b < 2 ^ 64 then a + b else - 1)"

definition saturating_sub_u64 :: "u64 \<Rightarrow> u64 \<Rightarrow> u64" where
  "saturating_sub_u64 a b = (if b \<le> a then a - b else 0)"

definition checked_add_u16 :: "u16 \<Rightarrow> u16 \<Rightarrow> u16 option" where
  "checked_add_u16 a b = (if unat a + unat b < 2 ^ 16 then Some (a + b) else None)"

lemma unat_saturating_add_u64:
  "unat (saturating_add_u64 a b) = min (unat a + unat b) (2 ^ 64 - 1)"
  by (auto simp: saturating_add_u64_def unat_word_ariths unsigned_minus_1_eq_mask mask_eq_exp_minus_1)

lemma checked_add_u16_Some:
  "checked_add_u16 a b = Some c \<Longrightarrow> unat c = unat a + unat b"
  by (auto simp: checked_add_u16_def unat_word_ariths split: if_splits)

lemma checked_add_u16_None_iff:
  "checked_add_u16 a b = None \<longleftrightarrow> 2 ^ 16 \<le> unat a + unat b"
  by (auto simp: checked_add_u16_def)

subsection \<open>Results: success, error return, panic\<close>

text \<open>
  A Rust function that returns \<open>Result\<close> and indexes slices has three outcomes. \<open>Inr\<close> is the
  \<open>Ok\<close> value, \<open>Inl (Err e)\<close> an error it returns, and \<open>Inl Panic\<close> a panic of an index or
  slice expression or of an arithmetic operation.
\<close>

datatype 'e fault = Err 'e | Panic

type_synonym ('a, 'e) result = "'e fault + 'a"

definition bindR :: "('a, 'e) result \<Rightarrow> ('a \<Rightarrow> ('b, 'e) result) \<Rightarrow> ('b, 'e) result" where
  "bindR m f = (case m of Inl x \<Rightarrow> Inl x | Inr a \<Rightarrow> f a)"

definition no_panic :: "('a, 'e) result \<Rightarrow> bool" where
  "no_panic r \<longleftrightarrow> r \<noteq> Inl Panic"

lemma bindR_simps [simp]:
  "bindR (Inr a) f = f a" "bindR (Inl x) f = Inl x"
  by (simp_all add: bindR_def)

lemma bindR_cong [fundef_cong]:
  "m = m' \<Longrightarrow> (\<And>a. m' = Inr a \<Longrightarrow> f a = f' a) \<Longrightarrow> bindR m f = bindR m' f'"
  by (auto simp: bindR_def split: sum.splits)

lemma bindR_eq_Inr_iff: "bindR m f = Inr b \<longleftrightarrow> (\<exists>a. m = Inr a \<and> f a = Inr b)"
  by (auto simp: bindR_def split: sum.splits)

lemma no_panic_Inr [no_panic_rules, simp]: "no_panic (Inr a)"
  by (simp add: no_panic_def)

lemma no_panic_Err [no_panic_rules, simp]: "no_panic (Inl (Err e))"
  by (simp add: no_panic_def)

lemma no_panic_bindR [no_panic_rules]:
  "no_panic m \<Longrightarrow> (\<And>a. m = Inr a \<Longrightarrow> no_panic (f a)) \<Longrightarrow> no_panic (bindR m f)"
  by (auto simp: no_panic_def bindR_def split: sum.splits)

lemma no_panic_if [no_panic_rules]:
  "(b \<Longrightarrow> no_panic x) \<Longrightarrow> (\<not> b \<Longrightarrow> no_panic y) \<Longrightarrow> no_panic (if b then x else y)"
  by simp

text \<open>The \<open>?\<close> operator where no panic is possible.\<close>

definition bindE :: "'e + 'a \<Rightarrow> ('a \<Rightarrow> 'e + 'b) \<Rightarrow> 'e + 'b" where
  "bindE m f = (case m of Inl e \<Rightarrow> Inl e | Inr a \<Rightarrow> f a)"

lemma bindE_simps [simp]: "bindE (Inr a) f = f a" "bindE (Inl e) f = Inl e"
  by (simp_all add: bindE_def)

lemma bindE_cong [fundef_cong]:
  "m = m' \<Longrightarrow> (\<And>a. m' = Inr a \<Longrightarrow> f a = f' a) \<Longrightarrow> bindE m f = bindE m' f'"
  by (auto simp: bindE_def split: sum.splits)

lemma bindE_eq_Inr_iff: "bindE m f = Inr b \<longleftrightarrow> (\<exists>a. m = Inr a \<and> f a = Inr b)"
  by (auto simp: bindE_def split: sum.splits)

text \<open>\<open>Option::ok_or\<close> and a check that returns an error early.\<close>

definition ok_or :: "'a option \<Rightarrow> 'e \<Rightarrow> 'e + 'a" where
  "ok_or x e = (case x of None \<Rightarrow> Inl e | Some a \<Rightarrow> Inr a)"

definition ensure :: "bool \<Rightarrow> 'e \<Rightarrow> 'e + unit" where
  "ensure b e = (if b then Inr () else Inl e)"

lemma ok_or_eq_Inr [simp]: "ok_or x e = Inr a \<longleftrightarrow> x = Some a" "ok_or (Some a) e = Inr a"
  by (auto simp: ok_or_def split: option.splits)

lemma ensure_eq_Inr [simp]: "ensure b e = Inr u \<longleftrightarrow> b" "b \<Longrightarrow> ensure b e = Inr ()"
  by (auto simp: ensure_def)

subsection \<open>Slices\<close>

definition indexR :: "'a list \<Rightarrow> nat \<Rightarrow> ('a, 'e) result" where
  "indexR xs i = (if i < length xs then Inr (xs ! i) else Inl Panic)"

definition sliceR :: "'a list \<Rightarrow> nat \<Rightarrow> nat \<Rightarrow> ('a list, 'e) result" where
  "sliceR xs a b = (if a \<le> b \<and> b \<le> length xs then Inr (take (b - a) (drop a xs)) else Inl Panic)"

definition get_range :: "'a list \<Rightarrow> nat \<Rightarrow> nat \<Rightarrow> 'a list option" where
  "get_range xs a b = (if a \<le> b \<and> b \<le> length xs then Some (take (b - a) (drop a xs)) else None)"

lemma indexR_ok [simp]: "i < length xs \<Longrightarrow> indexR xs i = Inr (xs ! i)"
  by (simp add: indexR_def)

lemma sliceR_ok [simp]:
  "a \<le> b \<Longrightarrow> b \<le> length xs \<Longrightarrow> sliceR xs a b = Inr (take (b - a) (drop a xs))"
  by (simp add: sliceR_def)

lemma no_panic_indexR [no_panic_rules]: "i < length xs \<Longrightarrow> no_panic (indexR xs i)"
  by simp

lemma no_panic_sliceR [no_panic_rules]: "a \<le> b \<Longrightarrow> b \<le> length xs \<Longrightarrow> no_panic (sliceR xs a b)"
  by simp

lemma sliceR_length: "sliceR xs a b = Inr ys \<Longrightarrow> length ys = b - a"
  by (auto simp: sliceR_def split: if_splits)

lemma those_map_Some: "(\<And>x. x \<in> set xs \<Longrightarrow> f x = Some (g x)) \<Longrightarrow> those (map f xs) = Some (map g xs)"
  by (induction xs) auto

subsection \<open>Big-endian conversions\<close>

definition u16_to_be_bytes :: "u16 \<Rightarrow> bytes" where
  "u16_to_be_bytes w = [ucast (drop_bit 8 w), ucast w]"

definition u32_to_be_bytes :: "u32 \<Rightarrow> bytes" where
  "u32_to_be_bytes w =
     [ucast (drop_bit 24 w), ucast (drop_bit 16 w), ucast (drop_bit 8 w), ucast w]"

definition u16_from_be_bytes :: "u8 \<Rightarrow> u8 \<Rightarrow> u16" where
  "u16_from_be_bytes a b = push_bit 8 (ucast a) OR ucast b"

definition u32_from_be_bytes :: "u8 \<Rightarrow> u8 \<Rightarrow> u8 \<Rightarrow> u8 \<Rightarrow> u32" where
  "u32_from_be_bytes a b c d =
     push_bit 24 (ucast a) OR push_bit 16 (ucast b) OR push_bit 8 (ucast c) OR ucast d"

lemma length_to_be_bytes [simp]:
  "length (u16_to_be_bytes w) = 2" "length (u32_to_be_bytes v) = 4"
  by (simp_all add: u16_to_be_bytes_def u32_to_be_bytes_def)

lemma u16_be_roundtrip [simp]:
  "u16_from_be_bytes (ucast (drop_bit 8 w)) (ucast w) = w"
  unfolding u16_from_be_bytes_def
  by (rule bit_word_eqI) (auto simp: bit_simps)

lemma u32_be_roundtrip [simp]:
  "u32_from_be_bytes (ucast (drop_bit 24 w)) (ucast (drop_bit 16 w)) (ucast (drop_bit 8 w)) (ucast w) = w"
proof (rule bit_word_eqI)
  fix n assume "n < LENGTH(32)"
  then consider "n < 8" | "8 \<le> n" "n < 16" | "16 \<le> n" "n < 24" | "24 \<le> n" "n < 32"
    by fastforce
  then show "bit (u32_from_be_bytes (ucast (drop_bit 24 w)) (ucast (drop_bit 16 w))
      (ucast (drop_bit 8 w)) (ucast w)) n = bit w n"
    by cases (auto simp: u32_from_be_bytes_def bit_simps)
qed

lemma nth_to_be_bytes [simp]:
  "u16_to_be_bytes w ! 0 = ucast (drop_bit 8 w)" "u16_to_be_bytes w ! 1 = ucast w"
  "u32_to_be_bytes v ! 0 = ucast (drop_bit 24 v)" "u32_to_be_bytes v ! 1 = ucast (drop_bit 16 v)"
  "u32_to_be_bytes v ! 2 = ucast (drop_bit 8 v)" "u32_to_be_bytes v ! 3 = ucast v"
  by (simp_all add: u16_to_be_bytes_def u32_to_be_bytes_def)

subsection \<open>Time\<close>

text \<open>
  A \<open>std::time::Duration\<close> is its number of nanoseconds; the largest one is
  \<open>u64::MAX\<close> seconds and 999999999 nanoseconds. An \<open>Instant\<close> is a number of nanoseconds on
  a monotonic clock, a \<open>SystemTime\<close> the signed number of nanoseconds since the Unix epoch.
\<close>

type_synonym duration = nat
type_synonym instant = nat
type_synonym system_time = int

definition DURATION_MAX :: duration where
  "DURATION_MAX = (2 ^ 64 - 1) * 1000000000 + 999999999"

definition as_secs :: "duration \<Rightarrow> nat" where
  "as_secs d = d div 1000000000"

definition subsec_nanos :: "duration \<Rightarrow> nat" where
  "subsec_nanos d = d mod 1000000000"

definition as_millis :: "duration \<Rightarrow> nat" where
  "as_millis d = d div 1000000"

definition from_secs :: "nat \<Rightarrow> duration" where
  "from_secs n = n * 1000000000"

definition from_millis :: "nat \<Rightarrow> duration" where
  "from_millis n = n * 1000000"

definition checked_add_duration :: "duration \<Rightarrow> duration \<Rightarrow> duration option" where
  "checked_add_duration a b = (if a + b \<le> DURATION_MAX then Some (a + b) else None)"

definition checked_sub_duration :: "duration \<Rightarrow> duration \<Rightarrow> duration option" where
  "checked_sub_duration a b = (if b \<le> a then Some (a - b) else None)"

definition saturating_mul_duration :: "duration \<Rightarrow> nat \<Rightarrow> duration" where
  "saturating_mul_duration d n = min (d * n) DURATION_MAX"

lemma as_millis_from_millis [simp]: "as_millis (from_millis n) = n"
  by (simp add: as_millis_def from_millis_def)

lemma secs_nanos_split: "as_secs d * 1000000000 + subsec_nanos d = d"
  by (simp add: as_secs_def subsec_nanos_def)

lemma subsec_nanos_less [simp]: "subsec_nanos d < 1000000000"
  by (simp add: subsec_nanos_def)

end
