(* ===== verification/Ntp.thy ===== *)
theory Ntp
  imports Prelude
begin

text \<open>
  NTP timestamps (\<open>src/ntp.rs\<close>): a 64-bit word whose upper half counts seconds since 1900 and
  whose lower half is a fraction of a second. Sender Reports carry both halves, Receiver
  Reports echo the middle 32 bits, and reference-time reports are converted back to system
  time.
\<close>

definition NTP_EPOCH_OFFSET_SECS :: u64 where
  "NTP_EPOCH_OFFSET_SECS = 2208988800"

type_synonym ntp_timestamp = u64

definition ntp_from_system_time :: "system_time \<Rightarrow> ntp_timestamp" where
  "ntp_from_system_time time =
     (let duration = nat time;
          ntp_secs = of_nat (as_secs duration) + NTP_EPOCH_OFFSET_SECS;
          fraction = push_bit 32 (of_nat (subsec_nanos duration) :: u64) div 1000000000
      in push_bit 32 ntp_secs OR fraction)"

definition ntp_seconds :: "ntp_timestamp \<Rightarrow> u64" where
  "ntp_seconds n = drop_bit 32 n"

definition ntp_fraction :: "ntp_timestamp \<Rightarrow> u32" where
  "ntp_fraction n = ucast n"

definition ntp_to_system_time :: "ntp_timestamp \<Rightarrow> system_time" where
  "ntp_to_system_time n =
     (let secs = saturating_sub_u64 (ntp_seconds n) NTP_EPOCH_OFFSET_SECS;
          nanos = drop_bit 32 (ucast (ntp_fraction n) * 1000000000 :: u64)
      in int (unat secs * 1000000000 + unat (ucast nanos :: u32)))"

definition ntp_upper_32 :: "ntp_timestamp \<Rightarrow> u32" where
  "ntp_upper_32 n = ucast (drop_bit 32 n)"

definition ntp_middle_32 :: "ntp_timestamp \<Rightarrow> u32" where
  "ntp_middle_32 n = ucast (drop_bit 16 n)"

definition ntp_join :: "u32 \<Rightarrow> u32 \<Rightarrow> ntp_timestamp" where
  "ntp_join seconds fraction = push_bit 32 (ucast seconds) OR ucast fraction"

lemma ntp_halves:
  fixes hi :: u64 and lo :: u32
  shows "ntp_seconds (push_bit 32 hi OR ucast lo) = take_bit 32 hi"
    and "ntp_fraction (push_bit 32 hi OR ucast lo) = lo"
  by (rule bit_word_eqI; auto simp: ntp_seconds_def ntp_fraction_def bit_simps dest: bit_imp_le_length)
     (rule bit_word_eqI; auto simp: ntp_seconds_def ntp_fraction_def bit_simps)

lemma ntp_join_halves [simp]:
  "ntp_upper_32 (ntp_join s f) = s" "ntp_fraction (ntp_join s f) = f"
  by (rule bit_word_eqI; auto simp: ntp_join_def ntp_upper_32_def bit_simps dest: bit_imp_le_length)
     (rule bit_word_eqI; auto simp: ntp_join_def ntp_fraction_def bit_simps)

lemma ntp_join_self: "ntp_join (ntp_upper_32 n) (ntp_fraction n) = n"
proof (rule bit_word_eqI)
  fix k assume "k < LENGTH(64)"
  then show "bit (ntp_join (ntp_upper_32 n) (ntp_fraction n)) k = bit n k"
    by (cases "k < 32") (auto simp: ntp_join_def ntp_upper_32_def ntp_fraction_def bit_simps)
qed

text \<open>The fraction of a nanosecond count below one second fits 32 bits, and reading it back
  loses less than a nanosecond.\<close>

lemma unat_ntp_fraction:
  assumes "n < 1000000000"
  shows "unat (push_bit 32 (of_nat n :: u64) div 1000000000) = n * 2 ^ 32 div 1000000000"
proof -
  have "unat (push_bit 32 (of_nat n :: u64)) = n * 2 ^ 32"
    using assms by (simp add: push_bit_eq_mult unat_word_ariths unat_of_nat)
  then show ?thesis by (simp add: unat_div)
qed

lemma fraction_truncation:
  fixes n :: nat
  assumes "n < 1000000000"
  defines "f \<equiv> n * 2 ^ 32 div 1000000000"
  shows "f < 2 ^ 32" "f * 1000000000 div 2 ^ 32 \<le> n" "n \<le> f * 1000000000 div 2 ^ 32 + 1"
  using assms by auto

lemma unat_ntp_nanos:
  "unat (drop_bit 32 (ucast (f :: u32) * 1000000000 :: u64)) = unat f * 1000000000 div 2 ^ 32"
proof -
  have "unat f < 2 ^ 32" using unat_lt [of f] by simp
  then have "unat (ucast f * 1000000000 :: u64) = unat f * 1000000000"
    by (simp add: unat_word_ariths unat_ucast_up)
  then show ?thesis by (simp add: drop_bit_eq_div unat_div)
qed

lemma unat_ntp_secs:
  assumes "s + 2208988800 < 2 ^ 32"
  shows "unat (of_nat s + NTP_EPOCH_OFFSET_SECS) = s + 2208988800"
  using assms by (simp add: NTP_EPOCH_OFFSET_SECS_def unat_word_ariths unat_of_nat)

lemma ntp_from_system_time_halves:
  "ntp_seconds (ntp_from_system_time t) =
     take_bit 32 (of_nat (as_secs (nat t)) + NTP_EPOCH_OFFSET_SECS)"
  "unat (ntp_fraction (ntp_from_system_time t)) = subsec_nanos (nat t) * 2 ^ 32 div 1000000000"
proof -
  let ?n = "subsec_nanos (nat t)"
  let ?f = "push_bit 32 (of_nat ?n :: u64) div 1000000000"
  let ?w = "of_nat (?n * 2 ^ 32 div 1000000000) :: u32"
  have w: "unat ?w = ?n * 2 ^ 32 div 1000000000"
    using fraction_truncation(1) [of ?n] by (simp add: unat_of_nat)
  then have lo: "?f = ucast ?w"
    by (intro word_unat_eq_iff [THEN iffD2]) (simp add: unat_ntp_fraction unat_ucast_up)
  show "ntp_seconds (ntp_from_system_time t) =
      take_bit 32 (of_nat (as_secs (nat t)) + NTP_EPOCH_OFFSET_SECS)"
    by (simp only: ntp_from_system_time_def Let_def lo ntp_halves)
  show "unat (ntp_fraction (ntp_from_system_time t)) = ?n * 2 ^ 32 div 1000000000"
    by (simp only: ntp_from_system_time_def Let_def lo ntp_halves w)
qed

lemma ntp_seconds_in_era:
  assumes "as_secs (nat t) + 2208988800 < 2 ^ 32"
  shows "unat (saturating_sub_u64 (ntp_seconds (ntp_from_system_time t)) NTP_EPOCH_OFFSET_SECS) =
    as_secs (nat t)"
proof -
  have "unat (ntp_seconds (ntp_from_system_time t)) = as_secs (nat t) + 2208988800"
    using assms unat_ntp_secs [OF assms]
    by (simp add: ntp_from_system_time_halves unsigned_take_bit_eq take_bit_nat_eq_self)
  then show ?thesis
    by (simp add: saturating_sub_u64_def NTP_EPOCH_OFFSET_SECS_def word_le_nat_alt unat_sub)
qed

lemma ntp_to_system_time_unfold:
  "ntp_to_system_time n =
     int (unat (saturating_sub_u64 (ntp_seconds n) NTP_EPOCH_OFFSET_SECS) * 1000000000 +
          unat (ntp_fraction n) * 1000000000 div 2 ^ 32)"
proof -
  let ?x = "drop_bit 32 (ucast (ntp_fraction n) * 1000000000 :: u64)"
  have "unat ?x < 2 ^ 32"
    using unat_lt [of "ntp_fraction n"] by (simp add: unat_ntp_nanos)
  then have "unat (ucast ?x :: u32) = unat ?x"
    by (simp add: unsigned_ucast_eq take_bit_nat_eq_self)
  then show ?thesis
    by (simp only: ntp_to_system_time_def Let_def unat_ntp_nanos)
qed

text \<open>
  A system time between 1970 and the end of the current NTP era (February 2036) survives
  the conversion to a 64-bit NTP timestamp and back up to one nanosecond, and never moves
  forward.
\<close>

theorem ntp_roundtrip:
  assumes "0 \<le> t" and "as_secs (nat t) + 2208988800 < 2 ^ 32"
  shows "ntp_to_system_time (ntp_from_system_time t) \<in> {t - 1, t}"
proof -
  let ?n = "subsec_nanos (nat t)"
  let ?m = "?n * 2 ^ 32 div 1000000000 * 1000000000 div 2 ^ 32"
  have "ntp_to_system_time (ntp_from_system_time t) = int (as_secs (nat t) * 1000000000 + ?m)"
    by (simp only: ntp_to_system_time_unfold ntp_seconds_in_era [OF assms(2)]
        ntp_from_system_time_halves(2))
  moreover have "t = int (as_secs (nat t) * 1000000000 + ?n)"
    using assms(1) secs_nanos_split [of "nat t"] by linarith
  ultimately show ?thesis
    using fraction_truncation(2, 3) [of ?n] by auto
qed

theorem ntp_roundtrip_witness:
  "ntp_to_system_time (ntp_from_system_time 1700000000123456789)
     \<in> {1700000000123456788, 1700000000123456789}"
  using ntp_roundtrip [of 1700000000123456789] by (simp add: as_secs_def)

end
