(* ===== verification/Codec.thy ===== *)
theory Codec
  imports Text
begin

text \<open>
  Codecs, resolutions, frame rates and synchronisation sources (\<open>src/codec.rs\<close>,
  \<open>src/sync_source.rs\<close>). A \<open>Resolution\<close> and a \<open>Framerate\<close> are validated by their constructors
  and by their deserialisers; a frame rate travels as \<open>n/d\<close> text. Synchronisation sources are
  drawn by the operating system's random generator, so a generator is a choice from a range.
\<close>

subsection \<open>Codecs\<close>

datatype audio_codec = Opus | Aac

datatype video_codec = H264 | Vp8 | Hevc | Vp9 | Av1

datatype cast_mode = Mirroring | Remoting

datatype stream_type = Audio | Video

fun audio_rtp_payload_type :: "audio_codec \<Rightarrow> u8" where
  "audio_rtp_payload_type Opus = 96"
| "audio_rtp_payload_type Aac = 97"

fun audio_codec_name :: "audio_codec \<Rightarrow> string" where
  "audio_codec_name Opus = ''opus''"
| "audio_codec_name Aac = ''aac''"

fun video_rtp_payload_type :: "video_codec \<Rightarrow> u8" where
  "video_rtp_payload_type H264 = 101"
| "video_rtp_payload_type Vp8 = 100"
| "video_rtp_payload_type Hevc = 102"
| "video_rtp_payload_type Vp9 = 103"
| "video_rtp_payload_type Av1 = 104"

fun video_codec_name :: "video_codec \<Rightarrow> string" where
  "video_codec_name H264 = ''h264''"
| "video_codec_name Vp8 = ''vp8''"
| "video_codec_name Hevc = ''hevc''"
| "video_codec_name Vp9 = ''vp9''"
| "video_codec_name Av1 = ''av1''"

lemma audio_payload_type_range: "96 \<le> audio_rtp_payload_type c" "audio_rtp_payload_type c \<le> 127"
  by (cases c; simp)+

lemma video_payload_type_range: "96 \<le> video_rtp_payload_type c" "video_rtp_payload_type c \<le> 127"
  by (cases c; simp)+

subsection \<open>Resolutions and frame rates\<close>

record resolution =
  width :: u32
  height :: u32

datatype dimension_error = InvalidResolution | InvalidFramerate | InvalidNumber

definition resolution_new :: "u32 \<Rightarrow> u32 \<Rightarrow> dimension_error + resolution" where
  "resolution_new w h =
     (if w = 0 \<or> h = 0 then Inl InvalidResolution else Inr \<lparr>width = w, height = h\<rparr>)"

record framerate =
  numerator :: u32
  denominator :: u32

definition framerate_new :: "u32 \<Rightarrow> u32 \<Rightarrow> dimension_error + framerate" where
  "framerate_new n d =
     (if n = 0 \<or> d = 0 then Inl InvalidFramerate else Inr \<lparr>numerator = n, denominator = d\<rparr>)"

definition framerate_serialize :: "framerate \<Rightarrow> string" where
  "framerate_serialize f = show_nat (unat (numerator f)) @ ''/'' @ show_nat (unat (denominator f))"

definition parse_u32_or :: "string \<Rightarrow> dimension_error + u32" where
  "parse_u32_or s = (case parse_u32 s of None \<Rightarrow> Inl InvalidNumber | Some w \<Rightarrow> Inr w)"

definition framerate_deserialize :: "string \<Rightarrow> dimension_error + framerate" where
  "framerate_deserialize s =
     (case (case split_once (CHR ''/'') s of
              Some (n, d) \<Rightarrow>
                (case parse_u32_or n of
                   Inl e \<Rightarrow> Inl e
                 | Inr n' \<Rightarrow> (case parse_u32_or d of Inl e \<Rightarrow> Inl e | Inr d' \<Rightarrow> Inr (n', d')))
            | None \<Rightarrow> (case parse_u32_or s of Inl e \<Rightarrow> Inl e | Inr n' \<Rightarrow> Inr (n', 1))) of
        Inl e \<Rightarrow> Inl e
      | Inr (n, d) \<Rightarrow>
          if n = 0 \<or> d = 0 then Inl InvalidFramerate else framerate_new n d)"

definition valid_resolution :: "resolution \<Rightarrow> bool" where
  "valid_resolution r \<longleftrightarrow> width r \<noteq> 0 \<and> height r \<noteq> 0"

definition valid_framerate :: "framerate \<Rightarrow> bool" where
  "valid_framerate f \<longleftrightarrow> numerator f \<noteq> 0 \<and> denominator f \<noteq> 0"

lemma resolution_new_iff:
  "resolution_new w h = Inr r \<longleftrightarrow> valid_resolution r \<and> width r = w \<and> height r = h"
  by (auto simp: resolution_new_def valid_resolution_def)

lemma framerate_new_iff:
  "framerate_new n d = Inr f \<longleftrightarrow> valid_framerate f \<and> numerator f = n \<and> denominator f = d"
  by (auto simp: framerate_new_def valid_framerate_def)

lemma parse_u32_or_show [simp]: "parse_u32_or (show_nat (unat w)) = Inr w"
  by (simp add: parse_u32_or_def)

lemma slash_notin_show_nat [simp]: "CHR ''/'' \<notin> set (show_nat n)"
  by (rule notin_show_nat) simp

lemma framerate_deserialize_valid: "framerate_deserialize s = Inr f \<Longrightarrow> valid_framerate f"
  by (auto simp: framerate_deserialize_def framerate_new_iff split: sum.splits prod.splits if_splits)

lemma framerate_deserialize_integer:
  "framerate_deserialize (show_nat (unat n)) = framerate_new n 1"
  using split_once_None [of "CHR ''/''" "show_nat (unat n)"]
  by (simp add: framerate_deserialize_def framerate_new_def del: split_once_None)

lemma framerate_deserialize_serialize:
  "framerate_deserialize (framerate_serialize f) = framerate_new (numerator f) (denominator f)"
  by (simp add: framerate_deserialize_def framerate_serialize_def framerate_new_def split_once_append)

text \<open>
  Every text the frame-rate deserialiser accepts gives a rate with a nonzero numerator and
  denominator, and printing a valid rate as \<open>n/d\<close> and reading it back gives the same rate; the
  bare integer form \<open>n\<close> is read as \<open>n/1\<close>.
\<close>

theorem framerate_roundtrip:
  "(framerate_deserialize (framerate_serialize f) = Inr f \<longleftrightarrow> valid_framerate f) \<and>
   framerate_deserialize (show_nat (unat n)) = framerate_new n 1 \<and>
   (framerate_deserialize s = Inr g \<longrightarrow> valid_framerate g)"
  using framerate_deserialize_valid
  by (auto simp: framerate_deserialize_serialize framerate_deserialize_integer framerate_new_iff)

theorem framerate_roundtrip_witness:
  "framerate_deserialize ''60/1'' = Inr \<lparr>numerator = 60, denominator = 1\<rparr> \<and>
   valid_framerate \<lparr>numerator = 60, denominator = 1\<rparr>"
  using framerate_roundtrip [where s = "''60/1''" and g = "\<lparr>numerator = 60, denominator = 1\<rparr>"]
  by (simp add: framerate_deserialize_def split_once_def parse_u32_or_def parse_u32_def
      parse_unsigned_def digit_value_def framerate_new_def)

subsection \<open>Synchronisation sources\<close>

type_synonym sync_source = u32

definition MINIMUM_AUDIO_SYNC_SOURCE :: u32 where "MINIMUM_AUDIO_SYNC_SOURCE = 1"
definition MAXIMUM_AUDIO_SYNC_SOURCE :: u32 where "MAXIMUM_AUDIO_SYNC_SOURCE = 50000"
definition MINIMUM_VIDEO_SYNC_SOURCE :: u32 where "MINIMUM_VIDEO_SYNC_SOURCE = 50001"
definition MAXIMUM_VIDEO_SYNC_SOURCE :: u32 where "MAXIMUM_VIDEO_SYNC_SOURCE = 100000"

text \<open>\<open>gen_range lo hi\<close> is the random generator: it returns a value of the closed range.\<close>

definition generate_audio :: "(u32 \<Rightarrow> u32 \<Rightarrow> u32) \<Rightarrow> sync_source" where
  "generate_audio gen_range = gen_range MINIMUM_AUDIO_SYNC_SOURCE MAXIMUM_AUDIO_SYNC_SOURCE"

definition generate_video :: "(u32 \<Rightarrow> u32 \<Rightarrow> u32) \<Rightarrow> sync_source" where
  "generate_video gen_range = gen_range MINIMUM_VIDEO_SYNC_SOURCE MAXIMUM_VIDEO_SYNC_SOURCE"

definition is_audio :: "sync_source \<Rightarrow> bool" where
  "is_audio s \<longleftrightarrow> MINIMUM_AUDIO_SYNC_SOURCE \<le> s \<and> s \<le> MAXIMUM_AUDIO_SYNC_SOURCE"

definition range_generator :: "(u32 \<Rightarrow> u32 \<Rightarrow> u32) \<Rightarrow> bool" where
  "range_generator g \<longleftrightarrow> (\<forall>lo hi. lo \<le> hi \<longrightarrow> lo \<le> g lo hi \<and> g lo hi \<le> hi)"

lemma generated_sync_sources:
  assumes "range_generator g"
  shows "is_audio (generate_audio g)" "\<not> is_audio (generate_video g)"
proof -
  show "is_audio (generate_audio g)"
    using assms by (simp add: range_generator_def generate_audio_def is_audio_def
        MINIMUM_AUDIO_SYNC_SOURCE_def MAXIMUM_AUDIO_SYNC_SOURCE_def)
  have "50001 \<le> generate_video g"
    using assms by (simp add: range_generator_def generate_video_def
        MINIMUM_VIDEO_SYNC_SOURCE_def MAXIMUM_VIDEO_SYNC_SOURCE_def)
  then show "\<not> is_audio (generate_video g)"
    by (simp add: is_audio_def MAXIMUM_AUDIO_SYNC_SOURCE_def word_le_nat_alt)
qed

end
