(* ===== verification/Frame.thy ===== *)
theory Frame
  imports Prelude
begin

text \<open>
  Frame identifiers and encoded frames (\<open>src/frame.rs\<close>). A \<open>FrameId\<close> wraps an \<open>i64\<close> that
  starts at 0 and grows by one per accepted frame; it is an \<open>int\<close> here, and \<open>frame_id_next\<close>
  panics where the addition would leave the \<open>i64\<close> range. The wire carries only its low 8 bits, and the two \<open>expand\<close> functions
  recover the full value relative to a reference. What a client of a truncated identifier
  relies on is the locale \<open>wire_id\<close>; both expansions are interpretations of it.
\<close>

subsection \<open>Frame identifiers\<close>

type_synonym frame_id = int

definition frame_id_first :: frame_id where
  "frame_id_first = 0"

definition frame_id_next :: "frame_id \<Rightarrow> (frame_id, 'e) result" where
  "frame_id_next i = (if i < 2 ^ 63 - 1 then Inr (i + 1) else Inl Panic)"

definition frame_id_truncate :: "frame_id \<Rightarrow> u8" where
  "frame_id_truncate i = word_of_int i"

definition frame_id_expand :: "u8 \<Rightarrow> frame_id \<Rightarrow> frame_id" where
  "frame_id_expand truncated reference =
     (let delta = sint (truncated - frame_id_truncate reference) in reference + delta)"

definition frame_id_expand_lte :: "u8 \<Rightarrow> frame_id \<Rightarrow> frame_id" where
  "frame_id_expand_lte truncated reference =
     (let expanded = frame_id_expand truncated reference
      in if expanded > reference then expanded - 256 else expanded)"

definition frame_id_lower_32 :: "frame_id \<Rightarrow> u32" where
  "frame_id_lower_32 i = word_of_int i"

definition frame_id_as_usize :: "frame_id \<Rightarrow> nat" where
  "frame_id_as_usize i = unat (word_of_int i :: u64)"

lemma frame_id_as_usize_nonneg: "0 \<le> i \<Longrightarrow> i < 2 ^ 63 \<Longrightarrow> frame_id_as_usize i = nat i"
  by (simp add: frame_id_as_usize_def unsigned_of_int take_bit_int_eq_self)

subsection \<open>Identifiers recovered from their low bits\<close>

text \<open>
  \<open>truncate\<close> puts an identifier on the wire, \<open>expand w r\<close> reads it back relative to a
  reference \<open>r\<close>. The provider promises that the result has the bits that were received, that
  it lies in a window around the reference, and that the window is narrow enough to hold each
  bit pattern once.
\<close>

locale wire_id =
  fixes truncate :: "int \<Rightarrow> 'w"
    and expand :: "'w \<Rightarrow> int \<Rightarrow> int"
    and lo hi :: int
  assumes truncate_expand: "truncate (expand w r) = w"
    and expand_ge: "r + lo \<le> expand w r"
    and expand_le: "expand w r \<le> r + hi"
    and truncate_inj: "truncate i = truncate j \<Longrightarrow> \<bar>i - j\<bar> \<le> hi - lo \<Longrightarrow> i = j"
begin

lemma expand_truncate: "r + lo \<le> i \<Longrightarrow> i \<le> r + hi \<Longrightarrow> expand (truncate i) r = i"
  using truncate_expand [of "truncate i" r] expand_ge [of r "truncate i"]
    expand_le [of "truncate i" r] by (intro truncate_inj) auto

lemma expand_truncate_iff: "expand (truncate i) r = i \<longleftrightarrow> r + lo \<le> i \<and> i \<le> r + hi"
  using expand_truncate expand_ge expand_le by metis

lemma expand_unique: "truncate i = w \<Longrightarrow> r + lo \<le> i \<Longrightarrow> i \<le> r + hi \<Longrightarrow> expand w r = i"
  using expand_truncate by blast

end

lemma frame_id_truncate_eq_iff: "frame_id_truncate i = frame_id_truncate j \<longleftrightarrow> 256 dvd i - j"
  by (simp add: frame_id_truncate_def word_of_int_eq_iff take_bit_eq_mod mod_eq_dvd_iff)

lemma frame_id_truncate_inj:
  "frame_id_truncate i = frame_id_truncate j \<Longrightarrow> \<bar>i - j\<bar> \<le> 255 \<Longrightarrow> i = j"
  using zdvd_not_zless [of "\<bar>i - j\<bar>" 256] by (auto simp: frame_id_truncate_eq_iff)

lemma frame_id_truncate_expand [simp]: "frame_id_truncate (frame_id_expand w r) = w"
  by (simp add: frame_id_truncate_def frame_id_expand_def)

lemma frame_id_truncate_expand_lte [simp]: "frame_id_truncate (frame_id_expand_lte w r) = w"
proof -
  have "frame_id_truncate (e - 256) = frame_id_truncate e" for e
    by (simp add: frame_id_truncate_eq_iff)
  then show ?thesis by (simp add: frame_id_expand_lte_def Let_def)
qed

lemma frame_id_expand_bounds:
  "r - 128 \<le> frame_id_expand w r" "frame_id_expand w r \<le> r + 127"
  using sint_ge [of "w - frame_id_truncate r"] sint_lt [of "w - frame_id_truncate r"]
  by (simp_all add: frame_id_expand_def)

interpretation nearest: wire_id frame_id_truncate frame_id_expand "-128" 127
  using frame_id_expand_bounds
  by unfold_locales (auto intro: frame_id_truncate_inj)

interpretation below: wire_id frame_id_truncate frame_id_expand_lte "-255" 0
proof unfold_locales
  fix w r
  show "r + - 255 \<le> frame_id_expand_lte w r" "frame_id_expand_lte w r \<le> r + 0"
    using frame_id_expand_bounds [where r = r and w = w] by (auto simp: frame_id_expand_lte_def Let_def)
qed (auto intro: frame_id_truncate_inj)

text \<open>
  A frame identifier survives its 8-bit wire form exactly when it is within half the
  wire range of the reference: \<open>FrameId::expand\<close> of the truncated value is the identifier if
  and only if it lies between 128 below and 127 above the reference.
\<close>

theorem frame_id_expand_exact:
  "frame_id_expand (frame_id_truncate i) r = i \<longleftrightarrow> r - 128 \<le> i \<and> i \<le> r + 127"
  using nearest.expand_truncate_iff [of i r] by simp

text \<open>
  \<open>FrameId::expand_lte\<close> never returns an identifier above the reference, and it returns
  the identifier that was truncated if and only if that is at most 255 below the reference.
\<close>

theorem frame_id_expand_lte_exact:
  "frame_id_expand_lte w r \<le> r \<and>
   (frame_id_expand_lte (frame_id_truncate i) r = i \<longleftrightarrow> r - 255 \<le> i \<and> i \<le> r)"
  using below.expand_le [of w r] below.expand_truncate_iff [of i r] by simp

subsection \<open>Encoded frames\<close>

datatype frame_dependency = KeyFrame | Delta

record encoded_frame =
  dependency :: frame_dependency
  frame_data :: bytes
  media_timestamp :: duration
  reference_time :: instant
  frame_duration :: "duration option"

definition encoded_frame_new ::
  "frame_dependency \<Rightarrow> bytes \<Rightarrow> duration \<Rightarrow> instant \<Rightarrow> encoded_frame" where
  "encoded_frame_new dep d ts rt =
     \<lparr>dependency = dep, frame_data = d, media_timestamp = ts, reference_time = rt,
      frame_duration = None\<rparr>"

definition with_duration :: "encoded_frame \<Rightarrow> duration \<Rightarrow> encoded_frame" where
  "with_duration f d = f\<lparr>frame_duration := Some d\<rparr>"

end
