(* ===== verification/Crypto.thy ===== *)
theory Crypto
  imports Frame
begin

text \<open>
  Frame encryption (\<open>src/crypto.rs\<close>): every frame is encrypted under the stream's AES key in
  counter mode, with a nonce built from the frame identifier and the stream's IV mask. The
  cipher itself is the crates \<open>aes\<close> and \<open>ctr\<close>; it is the parameter \<open>apply_keystream\<close>, and the
  hypothesis \<open>stream_cipher\<close> states what the \<open>StreamCipher\<close> trait documents: the data is
  combined by exclusive or with a keystream that the key and the nonce determine.
\<close>

subsection \<open>Operations\<close>

record frame_crypto =
  key :: bytes
  iv_mask :: bytes

definition frame_crypto_new :: "bytes \<Rightarrow> bytes \<Rightarrow> frame_crypto" where
  "frame_crypto_new k m = \<lparr>key = k, iv_mask = m\<rparr>"

definition copy_from_slice :: "bytes \<Rightarrow> nat \<Rightarrow> bytes \<Rightarrow> bytes" where
  "copy_from_slice dst a src = take a dst @ src @ drop (a + length src) dst"

definition build_nonce :: "frame_crypto \<Rightarrow> frame_id \<Rightarrow> bytes" where
  "build_nonce c frame_id =
     (let nonce = copy_from_slice (replicate 16 0) 8 (u32_to_be_bytes (frame_id_lower_32 frame_id))
      in map2 (XOR) nonce (iv_mask c))"

type_synonym cipher = "bytes \<Rightarrow> bytes \<Rightarrow> bytes \<Rightarrow> bytes"

definition encrypt :: "cipher \<Rightarrow> frame_crypto \<Rightarrow> frame_id \<Rightarrow> bytes \<Rightarrow> bytes" where
  "encrypt apply_keystream c frame_id data = apply_keystream (key c) (build_nonce c frame_id) data"

definition decrypt :: "cipher \<Rightarrow> frame_crypto \<Rightarrow> frame_id \<Rightarrow> bytes \<Rightarrow> bytes" where
  "decrypt apply_keystream c frame_id data = encrypt apply_keystream c frame_id data"

definition generate_key :: "(bytes \<Rightarrow> bytes) \<Rightarrow> bytes" where
  "generate_key fill_bytes = fill_bytes (replicate 16 0)"

definition generate_iv_mask :: "(bytes \<Rightarrow> bytes) \<Rightarrow> bytes" where
  "generate_iv_mask fill_bytes = fill_bytes (replicate 16 0)"

definition stream_cipher :: "cipher \<Rightarrow> bool" where
  "stream_cipher ap \<longleftrightarrow>
     (\<exists>keystream. \<forall>k nonce data.
        ap k nonce data = map2 (XOR) data (map (keystream k nonce) [0..<length data]))"

definition xor_cipher :: cipher where
  "xor_cipher k nonce data =
     map2 (XOR) data (map (\<lambda>i. k ! (i mod 16) + nonce ! (i mod 16)) [0..<length data])"

lemma stream_cipher_xor_cipher: "stream_cipher xor_cipher"
  unfolding stream_cipher_def xor_cipher_def by (rule exI, intro allI, rule refl)

lemma stream_cipher_length: "stream_cipher ap \<Longrightarrow> length (ap k n d) = length d"
  by (auto simp: stream_cipher_def)

lemma stream_cipher_involution: "stream_cipher ap \<Longrightarrow> ap k n (ap k n d) = d"
  unfolding stream_cipher_def
  by (elim exE) (simp, rule nth_equalityI; simp add: xor.assoc)

lemma length_encrypt: "stream_cipher ap \<Longrightarrow> length (encrypt ap c i d) = length d"
  by (simp add: encrypt_def stream_cipher_length)

text \<open>
  Decryption undoes encryption: for every cipher that combines the data with a keystream,
  decrypting an encrypted frame under the same key, mask and identifier gives the frame back,
  and encryption keeps the length.
\<close>

theorem decrypt_encrypt:
  assumes "stream_cipher ap"
  shows "decrypt ap c i (encrypt ap c i data) = data \<and> length (encrypt ap c i data) = length data"
  using assms by (simp add: decrypt_def encrypt_def stream_cipher_involution stream_cipher_length)

theorem decrypt_encrypt_witness:
  "decrypt xor_cipher \<lparr>key = replicate 16 66, iv_mask = replicate 16 55\<rparr> 0
     (encrypt xor_cipher \<lparr>key = replicate 16 66, iv_mask = replicate 16 55\<rparr> 0 [1, 2, 3]) = [1, 2, 3]"
  using decrypt_encrypt [OF stream_cipher_xor_cipher] by blast

subsection \<open>Nonces\<close>

text \<open>The counter block that counter mode starts from, as a number: the nonce read big-endian.
  Block \<open>k\<close> of a frame's keystream is the cipher applied to the nonce plus \<open>k\<close>, modulo
  \<open>2 ^ 128\<close>.\<close>

definition be_nat :: "bytes \<Rightarrow> nat" where
  "be_nat bs = foldl (\<lambda>n b. n * 256 + unat b) 0 bs"

definition counter_block :: "frame_crypto \<Rightarrow> frame_id \<Rightarrow> nat \<Rightarrow> nat" where
  "counter_block c i k = (be_nat (build_nonce c i) + k) mod 2 ^ 128"

lemma be_nat_snoc [simp]: "be_nat (bs @ [b]) = be_nat bs * 256 + unat b"
  by (simp add: be_nat_def)

lemma be_nat_Nil [simp]: "be_nat [] = 0"
  by (simp add: be_nat_def)

lemma be_nat_append: "be_nat (xs @ ys) = be_nat xs * 256 ^ length ys + be_nat ys"
  by (induction ys rule: rev_induct) (simp_all add: append_assoc [symmetric] algebra_simps del: append_assoc)

lemma be_nat_less: "be_nat bs < 256 ^ length bs"
proof (induction bs rule: rev_induct)
  case (snoc b bs)
  then show ?case using unat_lt [of b] by simp
qed simp

lemma be_nat_inj: "length xs = length ys \<Longrightarrow> be_nat xs = be_nat ys \<Longrightarrow> xs = ys"
proof (induction xs arbitrary: ys rule: rev_induct)
  case (snoc x xs)
  then obtain y ys' where ys: "ys = ys' @ [y]" by (cases ys rule: rev_cases) auto
  have x: "unat x < 256" and y: "unat y < 256" using unat_lt [of x] unat_lt [of y] by simp_all
  have eq: "be_nat xs * 256 + unat x = be_nat ys' * 256 + unat y" using snoc.prems(2) ys by simp
  have "be_nat xs = be_nat ys'" using arg_cong [OF eq, of "\<lambda>n. n div 256"] x y by simp
  moreover from this have "unat x = unat y" using eq by simp
  ultimately show ?case using snoc ys by (simp add: word_unat_eq_iff)
qed simp

lemma length_build_nonce [simp]: "length (iv_mask c) = 16 \<Longrightarrow> length (build_nonce c i) = 16"
  by (simp add: build_nonce_def copy_from_slice_def)

lemma map2_xor_zero: "length xs = n \<Longrightarrow> map2 (XOR) (replicate n (0 :: u8)) xs = xs"
  by (rule nth_equalityI) simp_all

lemma map2_xor_inj:
  fixes xs ys ms :: bytes
  assumes "length xs = length ms" "length ys = length ms" "map2 (XOR) xs ms = map2 (XOR) ys ms"
  shows "xs = ys"
proof (rule nth_equalityI)
  fix k assume k: "k < length xs"
  have "map2 (XOR) xs ms ! k = map2 (XOR) ys ms ! k"
    by (simp only: assms(3))
  then have "xs ! k XOR ms ! k = ys ! k XOR ms ! k"
    using k assms(1, 2) by simp
  then have "xs ! k XOR (ms ! k XOR ms ! k) = ys ! k XOR (ms ! k XOR ms ! k)"
    by (simp only: xor.assoc [symmetric])
  then show "xs ! k = ys ! k" by simp
qed (use assms in simp)

lemma u32_to_be_bytes_inj: "u32_to_be_bytes v = u32_to_be_bytes w \<Longrightarrow> v = w"
  by (simp add: u32_to_be_bytes_def) (metis u32_be_roundtrip)

lemma frame_id_lower_32_eq_iff:
  "frame_id_lower_32 i = frame_id_lower_32 j \<longleftrightarrow> i mod 2 ^ 32 = j mod 2 ^ 32"
  by (simp add: frame_id_lower_32_def word_of_int_eq_iff take_bit_eq_mod)

text \<open>The nonce keeps the mask except in the four bytes that hold the frame identifier.\<close>

lemma build_nonce_split:
  assumes "length (iv_mask c) = 16"
  shows "build_nonce c i =
    take 8 (iv_mask c) @
    map2 (XOR) (u32_to_be_bytes (frame_id_lower_32 i)) (take 4 (drop 8 (iv_mask c))) @
    drop 12 (iv_mask c)"
proof -
  let ?m = "iv_mask c" and ?w = "u32_to_be_bytes (frame_id_lower_32 i)"
  have "take 4 (drop 8 ?m) @ drop 12 ?m = drop 8 ?m"
    using append_take_drop_id [of 4 "drop 8 ?m"] by simp
  then have m: "?m = take 8 ?m @ take 4 (drop 8 ?m) @ drop 12 ?m" by simp
  have "build_nonce c i = map2 (XOR) (replicate 8 0 @ ?w @ replicate 4 0)
      (take 8 ?m @ take 4 (drop 8 ?m) @ drop 12 ?m)"
    unfolding m [symmetric] by (simp add: build_nonce_def copy_from_slice_def)
  then show ?thesis
    using assms by (simp add: map2_xor_zero)
qed

lemma build_nonce_eq_iff:
  assumes "length (iv_mask c) = 16"
  shows "build_nonce c i = build_nonce c j \<longleftrightarrow> i mod 2 ^ 32 = j mod 2 ^ 32"
proof -
  have "build_nonce c i = build_nonce c j \<longleftrightarrow> frame_id_lower_32 i = frame_id_lower_32 j"
    using assms map2_xor_inj [of "u32_to_be_bytes (frame_id_lower_32 i)"
        "take 4 (drop 8 (iv_mask c))" "u32_to_be_bytes (frame_id_lower_32 j)"] u32_to_be_bytes_inj
    by (auto simp: build_nonce_split)
  then show ?thesis by (simp only: frame_id_lower_32_eq_iff)
qed

lemma be_nat_nonce:
  assumes "length (iv_mask c) = 16"
  shows "be_nat (build_nonce c i) < 2 ^ 128"
    and "be_nat (build_nonce c i) mod 2 ^ 32 = be_nat (drop 12 (iv_mask c)) mod 2 ^ 32"
proof -
  show "be_nat (build_nonce c i) < 2 ^ 128"
    using assms be_nat_less [of "build_nonce c i"] by simp
  have "be_nat ((xs @ ys) @ drop 12 (iv_mask c)) mod 2 ^ 32 = be_nat (drop 12 (iv_mask c)) mod 2 ^ 32"
    for xs ys unfolding be_nat_append [of "xs @ ys"] using assms by simp
  then show "be_nat (build_nonce c i) mod 2 ^ 32 = be_nat (drop 12 (iv_mask c)) mod 2 ^ 32"
    by (simp add: build_nonce_split [OF assms])
qed

lemma nat_mod_add_cancel:
  fixes a b k l m :: nat
  assumes "(a + k) mod m = (b + l) mod m" and "a mod m = b mod m"
  shows "k mod m = l mod m"
proof -
  have "int m dvd (int a + int k) - (int b + int l)" "int m dvd int a - int b"
    using assms by (simp_all flip: mod_eq_dvd_iff of_nat_add add: zmod_int [symmetric])
  then have "int m dvd ((int a + int k) - (int b + int l)) - (int a - int b)"
    by (rule dvd_diff)
  then have "int k mod int m = int l mod int m"
    by (simp add: mod_eq_dvd_iff)
  then show ?thesis by (simp flip: zmod_int)
qed

text \<open>
  C9. Under one key, counter blocks are never reused: two frames of a stream whose identifiers
  differ modulo \<open>2 ^ 32\<close> have no counter block in common among their first \<open>2 ^ 32\<close> blocks
  (64 GiB of data each), so no two of them are encrypted with the same keystream bytes.
\<close>

theorem counter_blocks_disjoint:
  assumes "length (iv_mask c) = 16" and "i mod 2 ^ 32 \<noteq> j mod 2 ^ 32"
    and "k < 2 ^ 32" and "l < 2 ^ 32"
  shows "counter_block c i k \<noteq> counter_block c j l"
proof
  let ?a = "be_nat (build_nonce c i)" and ?b = "be_nat (build_nonce c j)"
  assume "counter_block c i k = counter_block c j l"
  then have eq: "(?a + k) mod 2 ^ 128 = (?b + l) mod 2 ^ 128"
    by (simp add: counter_block_def)
  have "(?a + k) mod 2 ^ 32 = (?b + l) mod 2 ^ 32"
    using arg_cong [OF eq, of "\<lambda>n. n mod 2 ^ 32"] by (simp add: mod_mod_cancel)
  then have "k mod 2 ^ 32 = l mod 2 ^ 32"
    by (rule nat_mod_add_cancel) (simp only: be_nat_nonce(2) [OF assms(1)])
  then have "k = l" using assms by simp
  with eq have "?a mod 2 ^ 128 = ?b mod 2 ^ 128"
    by (intro nat_mod_add_cancel [of k ?a _ l ?b]) (simp_all add: add.commute)
  then have "?a = ?b" using be_nat_nonce(1) [OF assms(1)] by simp
  then have "build_nonce c i = build_nonce c j" using assms(1) by (intro be_nat_inj) simp_all
  then show False using assms build_nonce_eq_iff by blast
qed

theorem counter_blocks_disjoint_witness:
  "counter_block \<lparr>key = [], iv_mask = replicate 16 255\<rparr> 0 5 \<noteq>
   counter_block \<lparr>key = [], iv_mask = replicate 16 255\<rparr> 1 (2 ^ 32 - 1)"
  by (rule counter_blocks_disjoint) simp_all

end
