(* ===== verification/Rtp.thy ===== *)
theory Rtp
  imports Codec Crypto
begin

text \<open>
  RTP packetisation (\<open>src/rtp.rs\<close>): an encrypted frame is cut into packets with the standard
  12-byte RTP header, the 7-byte Cast header and, on the first packet of a frame, an optional
  adaptive-latency extension. \<open>read_rtp\<close> is the receiver's reading of such a packet, written
  from the header layout and independent of the sender's code; the sender is correct when a
  receiver reads back every field and the payload.
\<close>

subsection \<open>Operations\<close>

definition RTP_REQUIRED_FIRST_BYTE :: u8 where "RTP_REQUIRED_FIRST_BYTE = 128"
definition RTP_STANDARD_HEADER_SIZE :: nat where "RTP_STANDARD_HEADER_SIZE = 12"
definition CAST_HEADER_WITH_REF_SIZE :: nat where "CAST_HEADER_WITH_REF_SIZE = 7"
definition RTP_BASE_HEADER_SIZE :: nat where
  "RTP_BASE_HEADER_SIZE = RTP_STANDARD_HEADER_SIZE + CAST_HEADER_WITH_REF_SIZE"
definition ADAPTIVE_LATENCY_EXT_SIZE :: nat where "ADAPTIVE_LATENCY_EXT_SIZE = 4"
definition RTP_MAX_HEADER_SIZE :: nat where
  "RTP_MAX_HEADER_SIZE = RTP_BASE_HEADER_SIZE + ADAPTIVE_LATENCY_EXT_SIZE"
definition MAX_RTP_PACKET_SIZE_IPV4 :: nat where "MAX_RTP_PACKET_SIZE_IPV4 = 1472"
definition MAX_RTP_PACKET_SIZE_IPV6 :: nat where "MAX_RTP_PACKET_SIZE_IPV6 = 1452"

lemmas rtp_sizes = RTP_STANDARD_HEADER_SIZE_def CAST_HEADER_WITH_REF_SIZE_def
  RTP_BASE_HEADER_SIZE_def ADAPTIVE_LATENCY_EXT_SIZE_def RTP_MAX_HEADER_SIZE_def

record rtp_packetizer =
  rp_sync_source :: sync_source
  rp_payload_type :: u8
  sequence_number :: u16
  max_payload_size :: nat

text \<open>The initial sequence number is random: it is the first argument.\<close>

definition rtp_packetizer_new :: "u16 \<Rightarrow> sync_source \<Rightarrow> u8 \<Rightarrow> nat \<Rightarrow> rtp_packetizer" where
  "rtp_packetizer_new seq source pt max_packet_size =
     \<lparr>rp_sync_source = source, rp_payload_type = pt, sequence_number = seq,
      max_payload_size = max_packet_size - RTP_MAX_HEADER_SIZE\<rparr>"

definition div_ceil :: "nat \<Rightarrow> nat \<Rightarrow> nat" where
  "div_ceil a b = (a + b - 1) div b"

text \<open>What \<open>packetize\<close> is told about the frame, beside its payload.\<close>

record rtp_frame =
  rf_frame_id :: frame_id
  rf_is_key :: bool
  rf_referenced :: frame_id
  rf_timestamp :: u32
  rf_delay :: "duration option"

definition rtp_header :: "rtp_packetizer \<Rightarrow> rtp_frame \<Rightarrow> nat \<Rightarrow> nat \<Rightarrow> bytes" where
  "rtp_header p f num_packets packet_id =
     (let is_last = (packet_id = num_packets - 1);
          include_ext = (packet_id = 0 \<and> rf_delay f \<noteq> None);
          ext_count = (if include_ext then 1 else 0 :: u8);
          marker_and_payload_type = (if is_last then 0x80 else 0x00) OR (rp_payload_type p AND 0x7F);
          cast_byte = ((ext_count AND 0x3F) OR (if rf_is_key f then 0x80 else 0)) OR 0x40;
          extension =
            (if include_ext
             then u16_to_be_bytes (push_bit 10 1 OR 2) @
                  u16_to_be_bytes (of_nat (as_millis (the (rf_delay f))))
             else [])
      in [RTP_REQUIRED_FIRST_BYTE, marker_and_payload_type]
         @ u16_to_be_bytes (sequence_number p)
         @ u32_to_be_bytes (rf_timestamp f)
         @ u32_to_be_bytes (rp_sync_source p)
         @ [cast_byte, frame_id_truncate (rf_frame_id f)]
         @ u16_to_be_bytes (of_nat packet_id)
         @ u16_to_be_bytes (of_nat (num_packets - 1))
         @ [frame_id_truncate (rf_referenced f)]
         @ extension)"

fun packetize_loop ::
  "rtp_frame \<Rightarrow> bytes \<Rightarrow> nat \<Rightarrow> nat list \<Rightarrow> rtp_packetizer \<Rightarrow> bytes list
     \<Rightarrow> (rtp_packetizer \<times> bytes list, 'e) result" where
  "packetize_loop f payload num_packets [] p packets = Inr (p, packets)"
| "packetize_loop f payload num_packets (packet_id # ids) p packets =
     (let offset = packet_id * max_payload_size p;
          end = min (offset + max_payload_size p) (length payload)
      in bindR (sliceR payload offset end) (\<lambda>chunk.
           packetize_loop f payload num_packets ids
             (p\<lparr>sequence_number := sequence_number p + 1\<rparr>)
             (packets @ [rtp_header p f num_packets packet_id @ chunk])))"

definition packetize ::
  "rtp_packetizer \<Rightarrow> rtp_frame \<Rightarrow> bytes \<Rightarrow> (rtp_packetizer \<times> bytes list, 'e) result" where
  "packetize p f payload =
     (if payload \<noteq> [] \<and> max_payload_size p = 0 then Inl Panic
      else let num_packets = (if payload = [] then 1
                              else div_ceil (length payload) (max_payload_size p))
           in packetize_loop f payload num_packets [0..<num_packets] p [])"

datatype packet_type = Rtp sync_source | Rtcp sync_source | Unknown

definition classify_packet :: "bytes \<Rightarrow> packet_type" where
  "classify_packet data =
     (if length data < 8 then Unknown
      else let first_byte = data ! 0; second_byte = data ! 1; pt = second_byte AND 0x7F
           in if first_byte = RTP_REQUIRED_FIRST_BYTE \<and> 96 \<le> pt \<and> pt \<le> 127 \<and> 12 \<le> length data
              then Rtp (u32_from_be_bytes (data ! 8) (data ! 9) (data ! 10) (data ! 11))
              else if first_byte AND 0xC0 = 0x80 \<and> 200 \<le> second_byte \<and> second_byte \<le> 207 \<and>
                      8 \<le> length data
              then Rtcp (u32_from_be_bytes (data ! 4) (data ! 5) (data ! 6) (data ! 7))
              else Unknown)"

subsection \<open>The receiver's reading of a packet\<close>

record rtp_view =
  rv_marker :: bool
  rv_payload_type :: u8
  rv_sequence :: u16
  rv_timestamp :: u32
  rv_sync_source :: sync_source
  rv_key_frame :: bool
  rv_frame_id :: u8
  rv_packet_id :: u16
  rv_max_packet_id :: u16
  rv_referenced :: u8
  rv_delay_ms :: "u16 option"
  rv_payload :: bytes

definition read_rtp :: "bytes \<Rightarrow> rtp_view" where
  "read_rtp d =
     (let extended = (d ! 12 AND 0x3F = 1)
      in \<lparr>rv_marker = bit (d ! 1) 7,
          rv_payload_type = d ! 1 AND 0x7F,
          rv_sequence = u16_from_be_bytes (d ! 2) (d ! 3),
          rv_timestamp = u32_from_be_bytes (d ! 4) (d ! 5) (d ! 6) (d ! 7),
          rv_sync_source = u32_from_be_bytes (d ! 8) (d ! 9) (d ! 10) (d ! 11),
          rv_key_frame = bit (d ! 12) 7,
          rv_frame_id = d ! 13,
          rv_packet_id = u16_from_be_bytes (d ! 14) (d ! 15),
          rv_max_packet_id = u16_from_be_bytes (d ! 16) (d ! 17),
          rv_referenced = d ! 18,
          rv_delay_ms =
            (if extended then Some (u16_from_be_bytes (d ! 21) (d ! 22)) else None),
          rv_payload = drop (if extended then 23 else 19) d\<rparr>)"

subsection \<open>Closed form of the packet loop\<close>

definition packet_count :: "rtp_packetizer \<Rightarrow> bytes \<Rightarrow> nat" where
  "packet_count p payload =
     (if payload = [] then 1 else div_ceil (length payload) (max_payload_size p))"

definition chunk_at :: "nat \<Rightarrow> bytes \<Rightarrow> nat \<Rightarrow> bytes" where
  "chunk_at m payload i = take m (drop (i * m) payload)"

definition packet_at :: "rtp_packetizer \<Rightarrow> rtp_frame \<Rightarrow> bytes \<Rightarrow> nat \<Rightarrow> bytes" where
  "packet_at p f payload i =
     rtp_header (p\<lparr>sequence_number := sequence_number p + of_nat i\<rparr>) f (packet_count p payload) i
     @ chunk_at (max_payload_size p) payload i"

lemma div_ceil_less: "0 < m \<Longrightarrow> 0 < n \<Longrightarrow> i < div_ceil n m \<Longrightarrow> i * m < n"
proof -
  assume m: "0 < m" and n: "0 < n" and "i < div_ceil n m"
  then have "i + 1 \<le> (n + m - 1) div m" by (simp add: div_ceil_def)
  then have "(i + 1) * m \<le> (n + m - 1) div m * m" by (rule mult_le_mono1)
  also have "\<dots> \<le> n + m - 1" by simp
  finally show "i * m < n" using m n by simp
qed

lemma div_ceil_covers: "0 < m \<Longrightarrow> n \<le> div_ceil n m * m"
proof -
  assume m: "0 < m"
  have "n + m - 1 < (n + m - 1) div m * m + m"
    using m by (metis add.commute dividend_less_div_times mult.commute)
  then show ?thesis using m by (simp add: div_ceil_def)
qed

lemma packet_count_pos: "0 < max_payload_size p \<Longrightarrow> 0 < packet_count p payload"
  by (cases payload) (simp_all add: packet_count_def div_ceil_def div_greater_zero_iff)

lemma chunk_slice:
  assumes "0 < max_payload_size p" and "i < packet_count p payload"
  shows "sliceR payload (i * max_payload_size p)
      (min (i * max_payload_size p + max_payload_size p) (length payload)) =
    Inr (chunk_at (max_payload_size p) payload i)"
proof -
  have "i * max_payload_size p \<le> length payload"
    using assms div_ceil_less [of "max_payload_size p" "length payload" i]
    by (cases "payload = []") (auto simp: packet_count_def)
  then show ?thesis by (simp add: chunk_at_def min_def)
qed

lemma packetize_loop_eq:
  assumes "0 < max_payload_size p" and "a \<le> n" and "n = packet_count p payload"
  shows "packetize_loop f payload n [a..<n] (p\<lparr>sequence_number := sequence_number p + of_nat a\<rparr>) acc =
    Inr (p\<lparr>sequence_number := sequence_number p + of_nat n\<rparr>,
         acc @ map (packet_at p f payload) [a..<n])"
  using assms(2)
proof (induction "n - a" arbitrary: a acc)
  case (Suc d)
  then have a: "a < n" by simp
  have seq: "sequence_number p + of_nat a + 1 = sequence_number p + of_nat (Suc a)" by simp
  show ?case
    using Suc.hyps(1) [of "Suc a"] Suc.hyps(2) a assms(3)
    by (simp add: upt_conv_Cons seq packet_at_def chunk_slice [OF assms(1)] del: of_nat_Suc)
qed simp

lemma packetize_eq:
  assumes "0 < max_payload_size p"
  shows "packetize p f payload =
    Inr (p\<lparr>sequence_number := sequence_number p + of_nat (packet_count p payload)\<rparr>,
         map (packet_at p f payload) [0..<packet_count p payload])"
  using assms packetize_loop_eq [OF assms le0 refl, where f = f and acc = "[]"]
  by (simp add: packetize_def packet_count_def [symmetric] Let_def)

lemma concat_chunks: "concat (map (chunk_at m xs) [0..<n]) = take (n * m) xs"
  by (induction n) (simp_all add: chunk_at_def take_add [symmetric] add.commute)

lemma concat_all_chunks:
  assumes "0 < max_payload_size p"
  shows "concat (map (chunk_at (max_payload_size p) payload) [0..<packet_count p payload]) = payload"
  using div_ceil_covers [OF assms, of "length payload"]
  by (auto simp: concat_chunks packet_count_def)

subsection \<open>What the receiver reads\<close>

lemma marker_byte_payload_type:
  "((if b then 0x80 else 0x00) OR (x AND 0x7F)) AND 0x7F = (x AND 0x7F :: u8)"
  by (simp add: bit.conj_disj_distrib2 and.assoc)

lemma marker_byte_marker: "bit ((if b then 0x80 else 0x00) OR (x AND 0x7F) :: u8) 7 \<longleftrightarrow> b"
  by (simp add: bit_or_iff bit_and_iff)

lemma u16_from_be_bytes_zero [simp]: "u16_from_be_bytes 0 0 = 0"
  by (simp add: u16_from_be_bytes_def)

lemma length_rtp_header:
  "length (rtp_header p f n i) =
     (if i = 0 \<and> rf_delay f \<noteq> None then RTP_MAX_HEADER_SIZE else RTP_BASE_HEADER_SIZE)"
  by (simp add: rtp_header_def Let_def rtp_sizes)

text \<open>The reading of packet \<open>i\<close> of a frame that was cut into \<open>n\<close> packets.\<close>

definition packet_view :: "rtp_packetizer \<Rightarrow> rtp_frame \<Rightarrow> bytes \<Rightarrow> nat \<Rightarrow> rtp_view" where
  "packet_view p f payload i =
     \<lparr>rv_marker = (Suc i = packet_count p payload),
      rv_payload_type = rp_payload_type p AND 0x7F,
      rv_sequence = sequence_number p + of_nat i,
      rv_timestamp = rf_timestamp f,
      rv_sync_source = rp_sync_source p,
      rv_key_frame = rf_is_key f,
      rv_frame_id = frame_id_truncate (rf_frame_id f),
      rv_packet_id = of_nat i,
      rv_max_packet_id = of_nat (packet_count p payload - 1),
      rv_referenced = frame_id_truncate (rf_referenced f),
      rv_delay_ms = (if i = 0 then map_option (\<lambda>d. of_nat (as_millis d)) (rf_delay f) else None),
      rv_payload = chunk_at (max_payload_size p) payload i\<rparr>"

lemma read_rtp_header:
  "read_rtp (rtp_header p f n i @ chunk) =
     \<lparr>rv_marker = (i = n - 1),
      rv_payload_type = rp_payload_type p AND 0x7F,
      rv_sequence = sequence_number p,
      rv_timestamp = rf_timestamp f,
      rv_sync_source = rp_sync_source p,
      rv_key_frame = rf_is_key f,
      rv_frame_id = frame_id_truncate (rf_frame_id f),
      rv_packet_id = of_nat i,
      rv_max_packet_id = of_nat (n - 1),
      rv_referenced = frame_id_truncate (rf_referenced f),
      rv_delay_ms = (if i = 0 then map_option (\<lambda>d. of_nat (as_millis d)) (rf_delay f) else None),
      rv_payload = chunk\<rparr>"
  unfolding read_rtp_def rtp_header_def Let_def
  by (cases "rf_delay f"; cases "rf_is_key f"; cases "i = 0")
     (simp_all add: marker_byte_payload_type marker_byte_marker u16_to_be_bytes_def u32_to_be_bytes_def)

lemma read_packet_at:
  "i < packet_count p payload \<Longrightarrow> read_rtp (packet_at p f payload i) = packet_view p f payload i"
  by (auto simp: packet_at_def read_rtp_header packet_view_def)

lemma length_packet_at:
  "0 < max_payload_size p \<Longrightarrow>
    length (packet_at p f payload i) \<le> RTP_MAX_HEADER_SIZE + max_payload_size p"
  by (auto simp: packet_at_def length_rtp_header chunk_at_def rtp_sizes)

lemma classify_rtp_header:
  assumes "96 \<le> rp_payload_type p AND 0x7F"
  shows "classify_packet (rtp_header p f n i @ chunk) = Rtp (rp_sync_source p)"
proof -
  have "rp_payload_type p AND 0x7F \<le> 0x7F" by (simp add: word_and_le1)
  then show ?thesis
    using assms unfolding classify_packet_def rtp_header_def Let_def
    by (simp add: marker_byte_payload_type u16_to_be_bytes_def u32_to_be_bytes_def)
qed

lemma classify_packet_at:
  "96 \<le> rp_payload_type p AND 0x7F \<Longrightarrow>
    classify_packet (packet_at p f payload i) = Rtp (rp_sync_source p)"
  by (simp add: packet_at_def classify_rtp_header)

subsection \<open>Reassembly\<close>

text \<open>
  A receiver collects packets of one frame in any order, possibly with repetitions, and joins
  the payloads by packet identifier once every identifier up to the maximum is there.
\<close>

definition reassemble :: "rtp_view list \<Rightarrow> bytes option" where
  "reassemble vs =
     (case vs of
        [] \<Rightarrow> None
      | v # _ \<Rightarrow>
          map_option concat
            (those (map (\<lambda>i. map_option rv_payload (find (\<lambda>w. unat (rv_packet_id w) = i) vs))
                        [0..<Suc (unat (rv_max_packet_id v))])))"

lemma find_packet_view:
  assumes "set vs = packet_view p f payload ` {0..<n}" and "i < n" and "n \<le> 65536"
  shows "map_option rv_payload (find (\<lambda>w. unat (rv_packet_id w) = i) vs) =
    Some (chunk_at (max_payload_size p) payload i)"
proof -
  have id: "unat (rv_packet_id (packet_view p f payload j)) = j" if "j < n" for j
    using that assms(3) by (simp add: packet_view_def unat_of_nat)
  have "find (\<lambda>w. unat (rv_packet_id w) = i) vs \<noteq> None"
    using assms id by (auto simp: find_None_iff)
  then obtain v where v: "find (\<lambda>w. unat (rv_packet_id w) = i) vs = Some v" by blast
  then have "v \<in> set vs" "unat (rv_packet_id v) = i"
    by (auto simp: find_Some_iff)
  with assms(1) id have "v = packet_view p f payload i" by auto
  then show ?thesis by (simp add: v packet_view_def)
qed

lemma reassemble_views:
  assumes "set vs = packet_view p f payload ` {0..<packet_count p payload}"
    and "packet_count p payload \<le> 65536" and "0 < max_payload_size p"
  shows "reassemble vs = Some payload"
proof -
  let ?n = "packet_count p payload"
  have n: "0 < ?n" using packet_count_pos [OF assms(3)] .
  then have "vs \<noteq> []" using assms(1) by auto
  then obtain v ws where vs: "vs = v # ws" by (cases vs) auto
  then have "v \<in> packet_view p f payload ` {0..<?n}"
    using assms(1) by (metis list.set_intros(1))
  then have "rv_max_packet_id v = of_nat (?n - 1)"
    by (auto simp: packet_view_def simp del: of_nat_diff)
  then have "Suc (unat (rv_max_packet_id v)) = ?n"
    using n assms(2) by (simp add: unat_of_nat del: of_nat_diff)
  moreover have "those (map (\<lambda>i. map_option rv_payload (find (\<lambda>w. unat (rv_packet_id w) = i) vs)) [0..<?n]) =
    Some (map (chunk_at (max_payload_size p) payload) [0..<?n])"
    using find_packet_view [OF assms(1) _ assms(2)] by (intro those_map_Some) simp
  ultimately show ?thesis
    using concat_all_chunks [OF assms(3), of payload] vs by (simp add: reassemble_def del: upt_Suc)
qed

text \<open>
  C20. A frame of at most 65536 packets reaches a receiver whole: \<open>packetize\<close> succeeds, every
  packet fits the packet size the packetizer was made for, and a receiver that has got each of
  the packets at least once, in any order, reassembles exactly the payload.
\<close>

theorem packetize_reassembles:
  assumes "0 < max_payload_size p" and "packet_count p payload \<le> 65536"
  shows "\<exists>p' packets. packetize p f payload = Inr (p', packets) \<and>
    length packets = packet_count p payload \<and>
    (\<forall>d \<in> set packets. length d \<le> RTP_MAX_HEADER_SIZE + max_payload_size p) \<and>
    (\<forall>received. set received = set packets \<longrightarrow> reassemble (map read_rtp received) = Some payload)"
proof (intro exI conjI)
  let ?packets = "map (packet_at p f payload) [0..<packet_count p payload]"
  show "packetize p f payload =
      Inr (p\<lparr>sequence_number := sequence_number p + of_nat (packet_count p payload)\<rparr>, ?packets)"
    using assms(1) by (rule packetize_eq)
  show "length ?packets = packet_count p payload" by simp
  show "\<forall>d \<in> set ?packets. length d \<le> RTP_MAX_HEADER_SIZE + max_payload_size p"
    using length_packet_at [OF assms(1)] by auto
  show "\<forall>received. set received = set ?packets \<longrightarrow> reassemble (map read_rtp received) = Some payload"
    using assms by (intro allI impI reassemble_views) (auto simp: read_packet_at image_image)
qed

theorem packetize_reassembles_witness:
  "\<exists>p' packets. packetize (rtp_packetizer_new 7 12345 101 25)
       \<lparr>rf_frame_id = 5, rf_is_key = True, rf_referenced = 5, rf_timestamp = 90000, rf_delay = None\<rparr>
       [1, 2, 3] = Inr (p', packets) \<and>
     length packets = 2 \<and> reassemble (map read_rtp (rev packets)) = Some [1, 2, 3]"
proof -
  let ?p = "rtp_packetizer_new 7 12345 101 25"
  have "0 < max_payload_size ?p" "packet_count ?p [1, 2, 3] = 2"
    by (simp_all add: rtp_packetizer_new_def packet_count_def div_ceil_def rtp_sizes)
  then show ?thesis
    using packetize_reassembles [of ?p "[1, 2, 3]"
        "\<lparr>rf_frame_id = 5, rf_is_key = True, rf_referenced = 5, rf_timestamp = 90000, rf_delay = None\<rparr>"]
    by fastforce
qed

text \<open>
  The header of every packet is what the receiver expects: the packets of a frame carry
  consecutive sequence numbers, the marker on the last packet only, the frame's identifiers,
  timestamp and source, and the playout-delay extension on the first packet only; and
  \<open>classify_packet\<close> recognises each of them as RTP of the stream's source.
\<close>

theorem packetize_headers:
  assumes "0 < max_payload_size p" and "96 \<le> rp_payload_type p AND 0x7F"
  shows "\<exists>p' packets. packetize p f payload = Inr (p', packets) \<and>
    map read_rtp packets = map (packet_view p f payload) [0..<packet_count p payload] \<and>
    sequence_number p' = sequence_number p + of_nat (length packets) \<and>
    (\<forall>d \<in> set packets. classify_packet d = Rtp (rp_sync_source p))"
  unfolding packetize_eq [OF assms(1)]
  by (intro exI conjI, rule refl) (use assms(2) in \<open>auto simp: read_packet_at classify_packet_at\<close>)

theorem packetize_headers_witness:
  "\<exists>p' packets. packetize (rtp_packetizer_new 65535 12345 101 25)
       \<lparr>rf_frame_id = 5, rf_is_key = True, rf_referenced = 5, rf_timestamp = 90000,
        rf_delay = Some 400000000\<rparr> [1, 2, 3] = Inr (p', packets) \<and>
     sequence_number p' = 65535 + of_nat (length packets)"
  using packetize_headers [of "rtp_packetizer_new 65535 12345 101 25"
      "\<lparr>rf_frame_id = 5, rf_is_key = True, rf_referenced = 5, rf_timestamp = 90000,
        rf_delay = Some 400000000\<rparr>" "[1, 2, 3]"]
  by (auto simp: rtp_packetizer_new_def rtp_sizes)

end
