(* ===== verification/Rtcp.thy ===== *)
theory Rtcp
  imports Ntp Rtp
begin

text \<open>
  RTCP (\<open>src/rtcp.rs\<close>): the parser of compound packets from the receiver and the builder of
  Sender Reports. The parser reads bytes from the network by index, so its model returns
  \<open>Panic\<close> wherever Rust would; that it never does is a theorem.
\<close>

subsection \<open>Data\<close>

definition RTCP_SENDER_REPORT :: u8 where "RTCP_SENDER_REPORT = 200"
definition RTCP_RECEIVER_REPORT :: u8 where "RTCP_RECEIVER_REPORT = 201"
definition RTCP_PAYLOAD_SPECIFIC :: u8 where "RTCP_PAYLOAD_SPECIFIC = 206"
definition RTCP_EXTENDED_REPORTS :: u8 where "RTCP_EXTENDED_REPORTS = 207"
definition RTCP_SUBTYPE_PICTURE_LOSS :: u8 where "RTCP_SUBTYPE_PICTURE_LOSS = 1"
definition RTCP_SUBTYPE_FEEDBACK :: u8 where "RTCP_SUBTYPE_FEEDBACK = 15"
definition CAST_FEEDBACK_MAGIC :: u32 where "CAST_FEEDBACK_MAGIC = 0x43415354"
definition CAST_ACK_MAGIC :: u32 where "CAST_ACK_MAGIC = 0x43535432"
definition ALL_PACKETS_LOST :: u16 where "ALL_PACKETS_LOST = 0xFFFF"

lemmas rtcp_constants = RTCP_SENDER_REPORT_def RTCP_RECEIVER_REPORT_def
  RTCP_PAYLOAD_SPECIFIC_def RTCP_EXTENDED_REPORTS_def RTCP_SUBTYPE_PICTURE_LOSS_def
  RTCP_SUBTYPE_FEEDBACK_def

text \<open>An \<open>i32\<close> is a 32-bit word read by \<open>sint\<close>.\<close>

type_synonym i32 = "32 word"

record receiver_report =
  rr_receiver_sync_source :: sync_source
  rr_sync_source :: sync_source
  rr_fraction_lost :: u8
  rr_cumulative_lost :: i32
  rr_highest_sequence :: u32
  rr_jitter :: u32
  rr_last_sr_timestamp :: u32
  rr_delay_since_last_sr :: u32

record packet_nack =
  nack_frame_id :: frame_id
  nack_packet_id :: u16

record ack_bitvector =
  feedback_count :: u8
  ack_data :: bytes

record cast_feedback =
  cf_receiver_sync_source :: sync_source
  cf_sender_sync_source :: sync_source
  checkpoint_frame_id :: u8
  playout_delay_ms :: u16
  nacks :: "packet_nack list"
  cf_ack_bitvector :: "ack_bitvector option"

record picture_loss_indication =
  pli_receiver_sync_source :: sync_source
  pli_sender_sync_source :: sync_source

record receiver_reference_time =
  rrt_receiver_sync_source :: sync_source
  rrt_ntp_timestamp :: ntp_timestamp

record compound_rtcp_packet =
  receiver_reports :: "receiver_report list"
  cast_feedbacks :: "cast_feedback list"
  picture_loss :: "picture_loss_indication list"
  receiver_reference_times :: "receiver_reference_time list"

definition compound_default :: compound_rtcp_packet where
  "compound_default =
     \<lparr>receiver_reports = [], cast_feedbacks = [], picture_loss = [], receiver_reference_times = []\<rparr>"

datatype parse_error = Truncated | BadVersion | BadMagic | InvalidValue

subsection \<open>Parser\<close>

definition read_u32 :: "bytes \<Rightarrow> nat \<Rightarrow> (u32, 'e) result" where
  "read_u32 data offset =
     bindR (indexR data offset) (\<lambda>a.
     bindR (indexR data (offset + 1)) (\<lambda>b.
     bindR (indexR data (offset + 2)) (\<lambda>c.
     bindR (indexR data (offset + 3)) (\<lambda>d.
       Inr (u32_from_be_bytes a b c d)))))"

definition read_u16 :: "bytes \<Rightarrow> nat \<Rightarrow> (u16, 'e) result" where
  "read_u16 data offset =
     bindR (indexR data offset) (\<lambda>a.
     bindR (indexR data (offset + 1)) (\<lambda>b.
       Inr (u16_from_be_bytes a b)))"

definition read_i24 :: "bytes \<Rightarrow> nat \<Rightarrow> (i32, 'e) result" where
  "read_i24 data offset =
     bindR (indexR data offset) (\<lambda>a.
     bindR (indexR data (offset + 1)) (\<lambda>b.
     bindR (indexR data (offset + 2)) (\<lambda>c.
       let v = push_bit 16 (ucast a) OR push_bit 8 (ucast b) OR ucast c :: i32
       in Inr (if v AND 0x800000 \<noteq> 0 then v OR NOT 0xFFFFFF else v))))"

record rtcp_header =
  rh_count :: u8
  rh_packet_type :: u8
  rh_length :: u16

definition rtcp_header_parse :: "bytes \<Rightarrow> (rtcp_header, parse_error) result" where
  "rtcp_header_parse data =
     (if length data < 4 then Inl (Err Truncated)
      else
        bindR (indexR data 0) (\<lambda>d0.
        if drop_bit 6 d0 AND 0x03 \<noteq> 2 then Inl (Err BadVersion)
        else
          bindR (indexR data 1) (\<lambda>d1.
          bindR (read_u16 data 2) (\<lambda>len.
            Inr \<lparr>rh_count = d0 AND 0x1F, rh_packet_type = d1, rh_length = len\<rparr>))))"

fun receiver_report_loop ::
  "bytes \<Rightarrow> sync_source \<Rightarrow> nat \<Rightarrow> nat \<Rightarrow> receiver_report list
     \<Rightarrow> (receiver_report list, parse_error) result" where
  "receiver_report_loop payload source 0 offset out = Inr out"
| "receiver_report_loop payload source (Suc n) offset out =
     (if offset + 24 > length payload then Inl (Err Truncated)
      else
        bindR (read_u32 payload offset) (\<lambda>sync.
        bindR (indexR payload (offset + 4)) (\<lambda>fraction.
        bindR (read_i24 payload (offset + 5)) (\<lambda>lost.
        bindR (read_u32 payload (offset + 8)) (\<lambda>highest.
        bindR (read_u32 payload (offset + 12)) (\<lambda>jit.
        bindR (read_u32 payload (offset + 16)) (\<lambda>last_sr.
        bindR (read_u32 payload (offset + 20)) (\<lambda>delay.
          receiver_report_loop payload source n (offset + 24)
            (out @ [\<lparr>rr_receiver_sync_source = source, rr_sync_source = sync,
                     rr_fraction_lost = fraction, rr_cumulative_lost = lost,
                     rr_highest_sequence = highest, rr_jitter = jit,
                     rr_last_sr_timestamp = last_sr, rr_delay_since_last_sr = delay\<rparr>])))))))))"

definition parse_receiver_report ::
  "bytes \<Rightarrow> u8 \<Rightarrow> receiver_report list \<Rightarrow> (receiver_report list, parse_error) result" where
  "parse_receiver_report payload report_count out =
     (if length payload < 4 then Inl (Err Truncated)
      else bindR (read_u32 payload 0) (\<lambda>source.
             receiver_report_loop payload source (unat report_count) 4 out))"

text \<open>The bit loop of a loss field: the lost packet and one entry per set bit.\<close>

fun loss_bits_loop ::
  "frame_id \<Rightarrow> u16 \<Rightarrow> u8 \<Rightarrow> nat list \<Rightarrow> packet_nack list \<Rightarrow> (packet_nack list, parse_error) result"
where
  "loss_bits_loop frame lost bitvector [] ns = Inr ns"
| "loss_bits_loop frame lost bitvector (b # bs) ns =
     (if bitvector AND push_bit b 1 \<noteq> 0
      then (case checked_add_u16 lost (1 + of_nat b) of
              None \<Rightarrow> Inl (Err InvalidValue)
            | Some packet_id \<Rightarrow>
                loss_bits_loop frame lost bitvector bs
                  (ns @ [\<lparr>nack_frame_id = frame, nack_packet_id = packet_id\<rparr>]))
      else loss_bits_loop frame lost bitvector bs ns)"

fun loss_field_loop ::
  "bytes \<Rightarrow> u8 \<Rightarrow> nat \<Rightarrow> nat \<Rightarrow> packet_nack list \<Rightarrow> (nat \<times> packet_nack list, parse_error) result"
where
  "loss_field_loop payload checkpoint 0 offset ns = Inr (offset, ns)"
| "loss_field_loop payload checkpoint (Suc n) offset ns =
     (if offset + 4 > length payload then Inl (Err Truncated)
      else
        bindR (indexR payload offset) (\<lambda>within.
        bindR (read_u16 payload (offset + 1)) (\<lambda>lost.
        bindR (indexR payload (offset + 3)) (\<lambda>bitvector.
        let frame = frame_id_expand within (int (unat checkpoint));
            first = \<lparr>nack_frame_id = frame, nack_packet_id = lost\<rparr>
        in if lost = ALL_PACKETS_LOST
           then loss_field_loop payload checkpoint n (offset + 4)
                  (ns @ [\<lparr>nack_frame_id = frame, nack_packet_id = ALL_PACKETS_LOST\<rparr>])
           else bindR (loss_bits_loop frame lost bitvector [0..<8] (ns @ [first])) (\<lambda>ns'.
                  loss_field_loop payload checkpoint n (offset + 4) ns')))))"

definition parse_ack_bitvector :: "bytes \<Rightarrow> nat \<Rightarrow> (ack_bitvector option, parse_error) result" where
  "parse_ack_bitvector payload offset =
     (if offset + 4 \<le> length payload
      then bindR (read_u32 payload offset) (\<lambda>magic.
             if magic = CAST_ACK_MAGIC \<and> offset + 6 \<le> length payload
             then bindR (indexR payload (offset + 4)) (\<lambda>fcount.
                  bindR (indexR payload (offset + 5)) (\<lambda>octets.
                  let num_octets = unat octets; start = offset + 6
                  in if start + num_octets \<le> length payload
                     then bindR (sliceR payload start (start + num_octets)) (\<lambda>bits.
                            Inr (Some \<lparr>feedback_count = fcount, ack_data = bits\<rparr>))
                     else Inl (Err Truncated)))
             else Inr None)
      else Inr None)"

definition parse_cast_feedback ::
  "bytes \<Rightarrow> compound_rtcp_packet \<Rightarrow> (compound_rtcp_packet, parse_error) result" where
  "parse_cast_feedback payload out =
     (if length payload < 16 then Inl (Err Truncated)
      else
        bindR (read_u32 payload 0) (\<lambda>receiver.
        bindR (read_u32 payload 4) (\<lambda>sender.
        bindR (read_u32 payload 8) (\<lambda>magic.
        if magic \<noteq> CAST_FEEDBACK_MAGIC then Inl (Err BadMagic)
        else
          bindR (indexR payload 12) (\<lambda>checkpoint.
          bindR (indexR payload 13) (\<lambda>loss_count.
          bindR (read_u16 payload 14) (\<lambda>delay.
          bindR (loss_field_loop payload checkpoint (unat loss_count) 16 []) (\<lambda>(offset, ns).
          bindR (parse_ack_bitvector payload offset) (\<lambda>ack.
            Inr (out\<lparr>cast_feedbacks := cast_feedbacks out @
              [\<lparr>cf_receiver_sync_source = receiver, cf_sender_sync_source = sender,
                checkpoint_frame_id = checkpoint, playout_delay_ms = delay,
                nacks = ns, cf_ack_bitvector = ack\<rparr>]\<rparr>))))))))))"

definition parse_payload_specific ::
  "bytes \<Rightarrow> u8 \<Rightarrow> compound_rtcp_packet \<Rightarrow> (compound_rtcp_packet, parse_error) result" where
  "parse_payload_specific payload subtype out =
     (if subtype = RTCP_SUBTYPE_PICTURE_LOSS
      then (if length payload < 8 then Inl (Err Truncated)
            else bindR (read_u32 payload 0) (\<lambda>receiver.
                 bindR (read_u32 payload 4) (\<lambda>sender.
                   Inr (out\<lparr>picture_loss := picture_loss out @
                     [\<lparr>pli_receiver_sync_source = receiver, pli_sender_sync_source = sender\<rparr>]\<rparr>))))
      else if subtype = RTCP_SUBTYPE_FEEDBACK then parse_cast_feedback payload out
      else Inr out)"

function extended_reports_loop ::
  "bytes \<Rightarrow> sync_source \<Rightarrow> nat \<Rightarrow> receiver_reference_time list
     \<Rightarrow> (receiver_reference_time list, parse_error) result" where
  "extended_reports_loop payload source offset out =
     (if offset + 4 \<le> length payload
      then
        bindR (indexR payload offset) (\<lambda>block_type.
        bindR (read_u16 payload (offset + 2)) (\<lambda>block_length.
        let block_data_len = unat block_length * 4; start = offset + 4
        in if start + block_data_len > length payload then Inl (Err Truncated)
           else bindR
             (if block_type = 4 \<and> block_data_len \<ge> 8 \<and> start + 8 \<le> length payload
              then bindR (read_u32 payload start) (\<lambda>seconds.
                   bindR (read_u32 payload (start + 4)) (\<lambda>fraction.
                     Inr (out @ [\<lparr>rrt_receiver_sync_source = source,
                                  rrt_ntp_timestamp = ntp_join seconds fraction\<rparr>])))
              else Inr out)
             (\<lambda>out'. extended_reports_loop payload source (start + block_data_len) out')))
      else Inr out)"
  by pat_completeness auto

termination
  by (relation "measure (\<lambda>(payload, _, offset, _). length payload - offset)") auto

definition parse_extended_reports ::
  "bytes \<Rightarrow> receiver_reference_time list \<Rightarrow> (receiver_reference_time list, parse_error) result" where
  "parse_extended_reports payload out =
     (if length payload < 4 then Inl (Err Truncated)
      else bindR (read_u32 payload 0) (\<lambda>source. extended_reports_loop payload source 4 out))"

definition parse_payload ::
  "rtcp_header \<Rightarrow> bytes \<Rightarrow> compound_rtcp_packet \<Rightarrow> (compound_rtcp_packet, parse_error) result" where
  "parse_payload header payload out =
     (if rh_packet_type header = RTCP_RECEIVER_REPORT
      then bindR (parse_receiver_report payload (rh_count header) (receiver_reports out)) (\<lambda>rs.
             Inr (out\<lparr>receiver_reports := rs\<rparr>))
      else if rh_packet_type header = RTCP_PAYLOAD_SPECIFIC
      then parse_payload_specific payload (rh_count header) out
      else if rh_packet_type header = RTCP_EXTENDED_REPORTS
      then bindR (parse_extended_reports payload (receiver_reference_times out)) (\<lambda>ts.
             Inr (out\<lparr>receiver_reference_times := ts\<rparr>))
      else Inr out)"

function parse_compound_loop ::
  "bytes \<Rightarrow> nat \<Rightarrow> compound_rtcp_packet \<Rightarrow> (nat \<times> compound_rtcp_packet, parse_error) result" where
  "parse_compound_loop data offset out =
     (if offset + 4 \<le> length data
      then
        bindR (sliceR data offset (length data)) (\<lambda>rest.
        bindR (rtcp_header_parse rest) (\<lambda>header.
        let packet_len = 4 + unat (rh_length header) * 4
        in if offset + packet_len > length data then Inl (Err Truncated)
           else
             bindR (sliceR data (offset + 4) (offset + packet_len)) (\<lambda>payload.
             bindR (parse_payload header payload out) (\<lambda>out'.
               parse_compound_loop data (offset + packet_len) out'))))
      else Inr (offset, out))"
  by pat_completeness auto

termination
  by (relation "measure (\<lambda>(data, offset, _). length data - offset)") auto

definition parse_compound :: "bytes \<Rightarrow> (compound_rtcp_packet, parse_error) result" where
  "parse_compound data =
     bindR (parse_compound_loop data 0 compound_default) (\<lambda>(offset, out).
       if offset \<noteq> length data then Inl (Err Truncated) else Inr out)"

definition sender_report_build ::
  "sync_source \<Rightarrow> ntp_timestamp \<Rightarrow> u32 \<Rightarrow> u32 \<Rightarrow> u32 \<Rightarrow> bytes" where
  "sender_report_build source ntp rtp_timestamp packets octets =
     [0x80, RTCP_SENDER_REPORT]
     @ u16_to_be_bytes 6
     @ u32_to_be_bytes source
     @ u32_to_be_bytes (ntp_upper_32 ntp)
     @ u32_to_be_bytes (ntp_fraction ntp)
     @ u32_to_be_bytes rtp_timestamp
     @ u32_to_be_bytes packets
     @ u32_to_be_bytes octets"

declare extended_reports_loop.simps [simp del] parse_compound_loop.simps [simp del]

subsection \<open>The parser never panics\<close>

lemma no_panic_read [no_panic_rules]:
  "offset + 4 \<le> length data \<Longrightarrow> no_panic (read_u32 data offset)"
  "offset + 2 \<le> length data \<Longrightarrow> no_panic (read_u16 data offset)"
  "offset + 3 \<le> length data \<Longrightarrow> no_panic (read_i24 data offset)"
  by (simp_all add: read_u32_def read_u16_def read_i24_def Let_def)

lemma no_panic_let [no_panic_rules]: "no_panic (f x) \<Longrightarrow> no_panic (let y = x in f y)"
  by simp

lemma no_panic_rtcp_header_parse [no_panic_rules]: "no_panic (rtcp_header_parse data)"
  unfolding rtcp_header_parse_def by (intro no_panic_rules) auto

lemma no_panic_receiver_report_loop [no_panic_rules]:
  "no_panic (receiver_report_loop payload source n offset out)"
  by (induction n arbitrary: offset out) (auto intro!: no_panic_rules)

lemma no_panic_parse_receiver_report [no_panic_rules]:
  "no_panic (parse_receiver_report payload n out)"
  unfolding parse_receiver_report_def by (intro no_panic_rules) auto

lemma no_panic_loss_bits_loop [no_panic_rules]:
  "no_panic (loss_bits_loop frame lost bv bs ns)"
  by (induction bs arbitrary: ns) (auto split: option.splits)

lemma no_panic_loss_field_loop [no_panic_rules]:
  "no_panic (loss_field_loop payload checkpoint n offset ns)"
  by (induction n arbitrary: offset ns) (auto intro!: no_panic_rules)

lemma no_panic_parse_ack_bitvector [no_panic_rules]:
  "no_panic (parse_ack_bitvector payload offset)"
  unfolding parse_ack_bitvector_def by (intro no_panic_rules) auto

lemma no_panic_parse_cast_feedback [no_panic_rules]:
  "no_panic (parse_cast_feedback payload out)"
  unfolding parse_cast_feedback_def by (auto intro!: no_panic_rules split: prod.splits)

lemma no_panic_parse_payload_specific [no_panic_rules]:
  "no_panic (parse_payload_specific payload subtype out)"
  unfolding parse_payload_specific_def by (auto intro!: no_panic_rules)

lemma no_panic_extended_reports_loop [no_panic_rules]:
  "no_panic (extended_reports_loop payload source offset out)"
proof (induction payload source offset out rule: extended_reports_loop.induct)
  case (1 payload source offset out)
  then show ?case
    by (subst extended_reports_loop.simps) (auto intro!: no_panic_rules 1)
qed

lemma no_panic_parse_payload [no_panic_rules]: "no_panic (parse_payload header payload out)"
  unfolding parse_payload_def parse_extended_reports_def by (auto intro!: no_panic_rules)

lemma no_panic_parse_compound_loop [no_panic_rules]:
  "no_panic (parse_compound_loop data offset out)"
proof (induction data offset out rule: parse_compound_loop.induct)
  case (1 data offset out)
  then show ?case
    by (subst parse_compound_loop.simps) (auto intro!: no_panic_rules 1)
qed

lemma parse_compound_never_panics: "no_panic (parse_compound data)"
  unfolding parse_compound_def by (auto intro!: no_panic_rules split: prod.splits)

text \<open>
  The RTCP parser never panics: whatever bytes arrive from the network, \<open>parse_compound\<close>
  returns either a packet or a parse error. No index or slice expression of the parser is ever
  out of range.
\<close>

theorem parse_compound_no_panic: "no_panic (parse_compound data)"
  by (rule parse_compound_never_panics)

subsection \<open>Compound packets are parsed packet by packet\<close>

definition compound_append ::
  "compound_rtcp_packet \<Rightarrow> compound_rtcp_packet \<Rightarrow> compound_rtcp_packet" where
  "compound_append r s =
     \<lparr>receiver_reports = receiver_reports r @ receiver_reports s,
      cast_feedbacks = cast_feedbacks r @ cast_feedbacks s,
      picture_loss = picture_loss r @ picture_loss s,
      receiver_reference_times = receiver_reference_times r @ receiver_reference_times s\<rparr>"

lemma compound_append_default [simp]:
  "compound_append compound_default r = r" "compound_append r compound_default = r"
  by (simp_all add: compound_append_def compound_default_def)

lemma compound_append_assoc:
  "compound_append (compound_append r s) t = compound_append r (compound_append s t)"
  by (simp add: compound_append_def)

lemma sliceR_append [simp]:
  "sliceR (pre @ xs) (length pre + a) (length pre + b) = sliceR xs a b"
  by (simp add: sliceR_def)

lemma read_u32_ok:
  "offset + 4 \<le> length data \<Longrightarrow> read_u32 data offset =
     Inr (u32_from_be_bytes (data ! offset) (data ! (offset + 1)) (data ! (offset + 2)) (data ! (offset + 3)))"
  by (simp add: read_u32_def)

lemma read_u16_ok:
  "offset + 2 \<le> length data \<Longrightarrow>
     read_u16 data offset = Inr (u16_from_be_bytes (data ! offset) (data ! (offset + 1)))"
  by (simp add: read_u16_def)

lemma rtcp_header_parse_ok:
  "4 \<le> length data \<Longrightarrow> rtcp_header_parse data =
     (if drop_bit 6 (data ! 0) AND 0x03 \<noteq> 2 then Inl (Err BadVersion)
      else Inr \<lparr>rh_count = data ! 0 AND 0x1F, rh_packet_type = data ! 1,
                rh_length = u16_from_be_bytes (data ! 2) (data ! 3)\<rparr>)"
  by (auto simp: rtcp_header_parse_def indexR_def read_u16_ok)

lemma rtcp_header_parse_prefix:
  "4 \<le> length xs \<Longrightarrow> rtcp_header_parse (xs @ ys) = rtcp_header_parse xs"
proof -
  assume len: "4 \<le> length xs"
  then have "(xs @ ys) ! i = xs ! i" if "i < 4" for i using that by (simp add: nth_append)
  with len show ?thesis by (simp add: rtcp_header_parse_ok)
qed

lemma bindR_assoc: "bindR (bindR m f) g = bindR m (\<lambda>a. bindR (f a) g)"
  by (auto simp: bindR_def split: sum.splits)

lemma bindR_if: "bindR (if b then m else m') f = (if b then bindR m f else bindR m' f)"
  by simp

lemma receiver_report_loop_acc:
  "receiver_report_loop payload source n offset (xs @ out) =
     bindR (receiver_report_loop payload source n offset out) (\<lambda>ys. Inr (xs @ ys))"
  by (induction n arbitrary: offset out) (simp_all add: bindR_assoc cong: bindR_cong)

lemma extended_reports_loop_acc:
  "extended_reports_loop payload source offset (xs @ out) =
     bindR (extended_reports_loop payload source offset out) (\<lambda>ys. Inr (xs @ ys))"
proof (induction payload source offset out rule: extended_reports_loop.induct)
  case (1 payload source offset out)
  show ?case
  proof (cases "offset + 4 \<le> length payload")
    case True
    then show ?thesis
      apply (subst (1 2) extended_reports_loop.simps)
      using 1 by (auto simp: read_u16_ok read_u32_ok Let_def)
  qed (simp add: extended_reports_loop.simps)
qed

lemma parse_payload_acc:
  "parse_payload header payload (compound_append r out) =
     bindR (parse_payload header payload out) (\<lambda>s. Inr (compound_append r s))"
  by (simp add: parse_payload_def parse_receiver_report_def parse_extended_reports_def
      parse_payload_specific_def parse_cast_feedback_def compound_append_def bindR_assoc bindR_if
      receiver_report_loop_acc extended_reports_loop_acc split_def cong: if_cong)

text \<open>One round of the loop, as a function of the remaining bytes.\<close>

definition parse_packet ::
  "bytes \<Rightarrow> compound_rtcp_packet \<Rightarrow> (nat \<times> compound_rtcp_packet, parse_error) result" where
  "parse_packet rest out =
     bindR (rtcp_header_parse rest) (\<lambda>header.
     let packet_len = 4 + unat (rh_length header) * 4
     in if packet_len > length rest then Inl (Err Truncated)
        else bindR (parse_payload header (take (packet_len - 4) (drop 4 rest)) out) (\<lambda>out'.
               Inr (packet_len, out')))"

lemma parse_compound_loop_step:
  assumes "offset + 4 \<le> length data"
  shows "parse_compound_loop data offset out =
    bindR (parse_packet (drop offset data) out) (\<lambda>(n, out'). parse_compound_loop data (offset + n) out')"
  using assms by (subst parse_compound_loop.simps)
    (simp add: parse_packet_def bindR_assoc bindR_if Let_def less_diff_conv2 ac_simps cong: if_cong)

lemma parse_compound_loop_end:
  "length data < offset + 4 \<Longrightarrow> parse_compound_loop data offset out = Inr (offset, out)"
  by (subst parse_compound_loop.simps) simp

lemma parse_packet_bounds: "parse_packet rest out = Inr (n, r) \<Longrightarrow> 4 \<le> n \<and> n \<le> length rest"
  by (auto simp: parse_packet_def bindR_eq_Inr_iff Let_def split: if_splits)

lemma parse_packet_progress:
  "parse_packet (drop offset data) out = Inr (n, s) \<Longrightarrow> offset + 4 \<le> length data \<Longrightarrow>
     length data - (offset + n) < length data - offset"
  using parse_packet_bounds [of "drop offset data" out n s] by auto

lemma parse_packet_acc:
  "parse_packet rest (compound_append r out) =
     bindR (parse_packet rest out) (\<lambda>(n, s). Inr (n, compound_append r s))"
  by (simp add: parse_packet_def parse_payload_acc bindR_assoc bindR_if Let_def cong: if_cong)

lemma parse_packet_prefix:
  "parse_packet xs out = Inr (n, r) \<Longrightarrow> parse_packet (xs @ ys) out = Inr (n, r)"
proof -
  assume a: "parse_packet xs out = Inr (n, r)"
  then have len: "4 \<le> length xs" using parse_packet_bounds by fastforce
  from a obtain h where "rtcp_header_parse xs = Inr h" "4 + unat (rh_length h) * 4 \<le> length xs"
    "parse_payload h (take (unat (rh_length h) * 4) (drop 4 xs)) out = Inr r"
    "n = 4 + unat (rh_length h) * 4"
    by (auto simp: parse_packet_def bindR_eq_Inr_iff Let_def split: if_splits)
  with len show ?thesis
    by (simp add: parse_packet_def rtcp_header_parse_prefix Let_def)
qed

lemma parse_compound_loop_acc:
  "parse_compound_loop data offset (compound_append r out) =
     bindR (parse_compound_loop data offset out) (\<lambda>(n, s). Inr (n, compound_append r s))"
proof (induction "length data - offset" arbitrary: offset out rule: less_induct)
  case less
  show ?case
  proof (cases "offset + 4 \<le> length data")
    case True
    have "parse_compound_loop data (offset + n) (compound_append r s) =
        bindR (parse_compound_loop data (offset + n) s) (\<lambda>(n, s). Inr (n, compound_append r s))"
      if "parse_packet (drop offset data) out = Inr (n, s)" for n s
      using less [OF parse_packet_progress [OF that True]] .
    with True show ?thesis
      by (simp add: parse_compound_loop_step parse_packet_acc bindR_assoc split_def cong: bindR_cong)
  qed (simp add: parse_compound_loop_end)
qed

lemma parse_compound_loop_shift:
  "parse_compound_loop (pre @ data) (length pre + offset) out =
     bindR (parse_compound_loop data offset out) (\<lambda>(n, s). Inr (length pre + n, s))"
proof (induction "length data - offset" arbitrary: offset out rule: less_induct)
  case less
  show ?case
  proof (cases "offset + 4 \<le> length data")
    case True
    have "parse_compound_loop (pre @ data) (length pre + (offset + n)) s =
        bindR (parse_compound_loop data (offset + n) s) (\<lambda>(n, s). Inr (length pre + n, s))"
      if "parse_packet (drop offset data) out = Inr (n, s)" for n s
      using less [OF parse_packet_progress [OF that True]] .
    with True show ?thesis
      by (simp add: parse_compound_loop_step bindR_assoc add.assoc split_def cong: bindR_cong)
  qed (simp add: parse_compound_loop_end)
qed

lemma parse_compound_loop_prefix:
  "parse_compound_loop xs offset out = Inr (length xs, r) \<Longrightarrow>
     parse_compound_loop (xs @ ys) offset out = parse_compound_loop (xs @ ys) (length xs) r"
proof (induction "length xs - offset" arbitrary: offset out rule: less_induct)
  case less
  show ?case
  proof (cases "offset + 4 \<le> length xs")
    case True
    then obtain n s where p: "parse_packet (drop offset xs) out = Inr (n, s)"
      and rest: "parse_compound_loop xs (offset + n) s = Inr (length xs, r)"
      using less.prems by (auto simp: parse_compound_loop_step bindR_eq_Inr_iff)
    have "parse_compound_loop (xs @ ys) offset out = parse_compound_loop (xs @ ys) (offset + n) s"
      using True parse_packet_prefix [OF p, of ys] by (simp add: parse_compound_loop_step)
    then show ?thesis
      using less.hyps [OF parse_packet_progress [OF p True] rest] by simp
  next
    case False
    then show ?thesis using less.prems by (simp add: parse_compound_loop_end)
  qed
qed

text \<open>
  Compound packets compose: when \<open>xs\<close> parses to \<open>r\<close>, then \<open>xs\<close> followed by any bytes
  \<open>ys\<close> parses exactly like \<open>ys\<close> alone with everything in \<open>r\<close> put first, and fails exactly as
  \<open>ys\<close> fails.
\<close>

theorem parse_compound_append:
  assumes "parse_compound xs = Inr r"
  shows "parse_compound (xs @ ys) = bindR (parse_compound ys) (\<lambda>s. Inr (compound_append r s))"
proof -
  have "parse_compound_loop xs 0 compound_default = Inr (length xs, r)"
    using assms by (auto simp: parse_compound_def bindR_eq_Inr_iff split: if_splits)
  then have "parse_compound_loop (xs @ ys) 0 compound_default =
      parse_compound_loop (xs @ ys) (length xs + 0) (compound_append r compound_default)"
    by (simp add: parse_compound_loop_prefix)
  also have "\<dots> = bindR (parse_compound_loop ys 0 compound_default)
      (\<lambda>(n, s). Inr (length xs + n, compound_append r s))"
    unfolding parse_compound_loop_shift parse_compound_loop_acc
    by (simp add: bindR_assoc split_def)
  finally show ?thesis
    by (simp add: parse_compound_def bindR_assoc bindR_if split_def cong: if_cong)
qed

lemma parse_compound_single:
  assumes "rtcp_header_parse data = Inr header" and "length data = 4 + unat (rh_length header) * 4"
  shows "parse_compound data =
    bindR (parse_payload header (drop 4 data) compound_default) (\<lambda>out. Inr out)"
  using assms
  by (simp add: parse_compound_def parse_compound_loop_step parse_packet_def parse_compound_loop_end
      bindR_assoc)

subsection \<open>Sender Reports\<close>

lemma length_sender_report [simp]: "length (sender_report_build s n t p c) = 28"
  by (simp add: sender_report_build_def)

lemma parse_sender_report: "parse_compound (sender_report_build s n t p c) = Inr compound_default"
proof -
  have "rtcp_header_parse (sender_report_build s n t p c) =
      Inr \<lparr>rh_count = 0, rh_packet_type = 200, rh_length = 6\<rparr>"
    by (simp add: rtcp_header_parse_ok, simp add: sender_report_build_def u16_to_be_bytes_def
        u16_from_be_bytes_def rtcp_constants)
  then show ?thesis
    by (simp add: parse_compound_single parse_payload_def rtcp_constants)
qed

text \<open>
  A Sender Report is a well-formed RTCP packet: it has 28 bytes, \<open>classify_packet\<close> takes
  it for RTCP of the stream's source, the parser accepts it whole, and a receiver that reads
  its words finds the timestamp halves, the RTP timestamp and the counts that were put in.
\<close>

theorem sender_report_wellformed:
  "length (sender_report_build source ntp ts packets octets) = 28 \<and>
   classify_packet (sender_report_build source ntp ts packets octets) = Rtcp source \<and>
   parse_compound (sender_report_build source ntp ts packets octets) = Inr compound_default \<and>
   map (read_u32 (sender_report_build source ntp ts packets octets)) [4, 8, 12, 16, 20, 24] =
     [Inr source, Inr (ntp_upper_32 ntp), Inr (ntp_fraction ntp), Inr ts, Inr packets, Inr octets]"
proof (intro conjI)
  show "classify_packet (sender_report_build source ntp ts packets octets) = Rtcp source"
    by (simp add: classify_packet_def, simp add: sender_report_build_def u16_to_be_bytes_def
        u32_to_be_bytes_def rtcp_constants RTP_REQUIRED_FIRST_BYTE_def)
  show "map (read_u32 (sender_report_build source ntp ts packets octets)) [4, 8, 12, 16, 20, 24] =
     [Inr source, Inr (ntp_upper_32 ntp), Inr (ntp_fraction ntp), Inr ts, Inr packets, Inr octets]"
    by (simp add: read_u32_ok, simp add: sender_report_build_def u16_to_be_bytes_def u32_to_be_bytes_def)
qed (simp_all add: parse_sender_report)

theorem parse_compound_append_witness:
  "parse_compound (sender_report_build 1 2 3 4 5 @ sender_report_build 6 7 8 9 10) =
     bindR (parse_compound (sender_report_build 6 7 8 9 10)) (\<lambda>s. Inr (compound_append compound_default s))"
  by (rule parse_compound_append) (rule parse_sender_report)

subsection \<open>Cast feedback\<close>

text \<open>
  Feedback as a receiver writes it: loss fields of a frame, a packet and a bit vector of the
  eight packets after it, and optionally an acknowledgement bit vector, padded to whole words.
\<close>

record feedback_message =
  fm_receiver :: sync_source
  fm_sender :: sync_source
  fm_checkpoint :: u8
  fm_delay :: u16
  fm_losses :: "(u8 \<times> u16 \<times> u8) list"
  fm_ack :: "ack_bitvector option"

fun encode_loss :: "u8 \<times> u16 \<times> u8 \<Rightarrow> bytes" where
  "encode_loss (f, pid, bv) = [f] @ u16_to_be_bytes pid @ [bv]"

definition word_padding :: "nat \<Rightarrow> nat" where
  "word_padding n = (4 - n mod 4) mod 4"

definition encode_ack :: "ack_bitvector option \<Rightarrow> bytes" where
  "encode_ack a =
     (case a of
        None \<Rightarrow> []
      | Some v \<Rightarrow> u32_to_be_bytes CAST_ACK_MAGIC @ [feedback_count v, of_nat (length (ack_data v))]
                  @ ack_data v @ replicate (word_padding (length (ack_data v) + 2)) 0)"

definition encode_feedback_payload :: "feedback_message \<Rightarrow> bytes" where
  "encode_feedback_payload m =
     u32_to_be_bytes (fm_receiver m) @ u32_to_be_bytes (fm_sender m)
     @ u32_to_be_bytes CAST_FEEDBACK_MAGIC
     @ [fm_checkpoint m, of_nat (length (fm_losses m))] @ u16_to_be_bytes (fm_delay m)
     @ concat (map encode_loss (fm_losses m)) @ encode_ack (fm_ack m)"

definition encode_feedback :: "feedback_message \<Rightarrow> bytes" where
  "encode_feedback m =
     [0x80 OR RTCP_SUBTYPE_FEEDBACK, RTCP_PAYLOAD_SPECIFIC]
     @ u16_to_be_bytes (of_nat (length (encode_feedback_payload m) div 4))
     @ encode_feedback_payload m"

text \<open>What the loss fields mean: the packet itself and the packet \<open>b + 1\<close> places later for
  every set bit \<open>b\<close>, unless the field reports the whole frame.\<close>

fun lost_packets :: "u8 \<Rightarrow> u8 \<times> u16 \<times> u8 \<Rightarrow> packet_nack list" where
  "lost_packets checkpoint (f, pid, bv) =
     map (\<lambda>i. \<lparr>nack_frame_id = frame_id_expand f (int (unat checkpoint)), nack_packet_id = i\<rparr>)
       (if pid = ALL_PACKETS_LOST then [ALL_PACKETS_LOST]
        else pid # map (\<lambda>b. pid + 1 + of_nat b) (filter (bit bv) [0..<8]))"

fun valid_loss :: "u8 \<times> u16 \<times> u8 \<Rightarrow> bool" where
  "valid_loss (f, pid, bv) \<longleftrightarrow>
     pid = ALL_PACKETS_LOST \<or> list_all (\<lambda>b. bit bv b \<longrightarrow> unat pid + 1 + b < 65536) [0..<8]"

definition valid_feedback :: "feedback_message \<Rightarrow> bool" where
  "valid_feedback m \<longleftrightarrow>
     length (fm_losses m) < 256 \<and> list_all valid_loss (fm_losses m) \<and>
     (case fm_ack m of None \<Rightarrow> True | Some v \<Rightarrow> length (ack_data v) < 256)"

lemma loss_bits_loop_eq:
  assumes "\<forall>b \<in> set bs. b < 8 \<and> (bit bv b \<longrightarrow> unat lost + 1 + b < 65536)"
  shows "loss_bits_loop frame lost bv bs ns =
    Inr (ns @ map (\<lambda>b. \<lparr>nack_frame_id = frame, nack_packet_id = lost + 1 + of_nat b\<rparr>) (filter (bit bv) bs))"
  using assms
proof (induction bs arbitrary: ns)
  case (Cons b bs)
  have "checked_add_u16 lost (1 + of_nat b) = Some (lost + 1 + of_nat b)" if "bit bv b"
  proof -
    have "unat (1 + of_nat b :: u16) = 1 + b"
      using Cons.prems by (simp add: unat_word_ariths unat_of_nat)
    then show ?thesis using that Cons.prems by (simp add: checked_add_u16_def add.assoc)
  qed
  then show ?case
    using Cons by (auto simp: and_exp_eq_0_iff_not_bit)
qed simp

lemma encode_losses_length [simp]: "length (concat (map encode_loss ls)) = 4 * length ls"
  by (induction ls) auto

lemma loss_field_loop_eq:
  assumes "list_all valid_loss ls"
  shows "loss_field_loop (pre @ concat (map encode_loss ls) @ post) checkpoint (length ls) (length pre) ns =
    Inr (length pre + 4 * length ls, ns @ concat (map (lost_packets checkpoint) ls))"
  using assms
proof (induction ls arbitrary: pre ns)
  case (Cons l ls)
  obtain f pid bv where l: "l = (f, pid, bv)" by (cases l)
  have IH: "loss_field_loop ((pre @ encode_loss l) @ concat (map encode_loss ls) @ post) checkpoint
      (length ls) (length pre + 4) ms =
    Inr (length pre + 4 + 4 * length ls, ms @ concat (map (lost_packets checkpoint) ls))" for ms
    using Cons.IH [of "pre @ encode_loss l" ms] Cons.prems l by simp
  have bits: "loss_bits_loop frame pid bv [0..<8] (ns @ [x]) =
      Inr ((ns @ [x]) @ map (\<lambda>b. \<lparr>nack_frame_id = frame, nack_packet_id = pid + 1 + of_nat b\<rparr>)
        (filter (bit bv) [0..<8]))" if "pid \<noteq> ALL_PACKETS_LOST" for frame x
    using Cons.prems that l by (intro loss_bits_loop_eq) (auto simp: list_all_iff)
  show ?case
  proof (cases "pid = ALL_PACKETS_LOST")
    case True
    then show ?thesis
      using IH l by (simp add: read_u16_ok nth_append u16_to_be_bytes_def Let_def)
  next
    case False
    then show ?thesis
      using IH l by (simp add: read_u16_ok nth_append u16_to_be_bytes_def bits o_def Let_def
          del: upt_rec_numeral)
  qed
qed simp

lemma parse_ack_bitvector_eq:
  assumes "case a of None \<Rightarrow> True | Some v \<Rightarrow> length (ack_data v) < 256"
  shows "parse_ack_bitvector (pre @ encode_ack a) (length pre) = Inr a"
proof (cases a)
  case None
  then show ?thesis by (simp add: parse_ack_bitvector_def encode_ack_def)
next
  case (Some v)
  let ?rest = "ack_data v @ replicate (word_padding (length (ack_data v) + 2)) 0"
  have "length (ack_data v) < 256" using assms Some by simp
  then have n: "unat (of_nat (length (ack_data v)) :: u8) = length (ack_data v)"
    by (simp add: unat_of_nat)
  let ?p = "pre @ u32_to_be_bytes CAST_ACK_MAGIC @
    [feedback_count v, of_nat (length (ack_data v))] @ ?rest"
  have fields: "read_u32 ?p (length pre) = Inr CAST_ACK_MAGIC"
    "indexR ?p (length pre + 4) = Inr (feedback_count v)"
    "indexR ?p (length pre + 5) = Inr (of_nat (length (ack_data v)))"
    "sliceR ?p (length pre + 6) (length pre + 6 + length (ack_data v)) = Inr (ack_data v)"
    by (simp_all add: read_u32_ok nth_append u32_to_be_bytes_def)
  have len: "length pre + 4 \<le> length ?p" "length pre + 6 \<le> length ?p"
    "length pre + 6 + length (ack_data v) \<le> length ?p" by simp_all
  show ?thesis
    unfolding parse_ack_bitvector_def encode_ack_def Some option.case Let_def
    by (simp only: fields len bindR_simps n if_True simp_thms) simp
qed

lemma encode_feedback_payload_length:
  "length (encode_feedback_payload m) = 16 + 4 * length (fm_losses m) + length (encode_ack (fm_ack m))"
  by (simp add: encode_feedback_payload_def)

lemma word_padding: "4 dvd n + word_padding n" "word_padding n < 4"
proof -
  have "(n + (4 - n mod 4) mod 4) mod 4 = (n mod 4 + (4 - n mod 4)) mod 4"
    by (simp only: mod_add_right_eq mod_add_left_eq)
  also have "n mod 4 + (4 - n mod 4) = 4"
    by (rule le_add_diff_inverse) (rule less_imp_le, rule mod_less_divisor, simp)
  finally show "4 dvd n + word_padding n"
    by (simp only: word_padding_def dvd_eq_mod_eq_0 mod_self)
  show "word_padding n < 4"
    unfolding word_padding_def by (rule mod_less_divisor) simp
qed

lemma encode_ack_length: "4 dvd length (encode_ack a)"
proof (cases a)
  case (Some v)
  have "length (encode_ack a) = 4 + (length (ack_data v) + 2 + word_padding (length (ack_data v) + 2))"
    using Some by (simp add: encode_ack_def)
  then show ?thesis by (simp only: word_padding dvd_add dvd_refl)
qed (simp add: encode_ack_def)

lemma encode_ack_less:
  "case a of None \<Rightarrow> True | Some v \<Rightarrow> length (ack_data v) < 256 \<Longrightarrow> length (encode_ack a) < 265"
  using word_padding(2) [of "length (ack_data (the a)) + 2"]
  by (cases a) (simp_all add: encode_ack_def)

definition feedback_of :: "feedback_message \<Rightarrow> cast_feedback" where
  "feedback_of m =
     \<lparr>cf_receiver_sync_source = fm_receiver m, cf_sender_sync_source = fm_sender m,
      checkpoint_frame_id = fm_checkpoint m, playout_delay_ms = fm_delay m,
      nacks = concat (map (lost_packets (fm_checkpoint m)) (fm_losses m)),
      cf_ack_bitvector = fm_ack m\<rparr>"

lemma parse_cast_feedback_encode:
  assumes "valid_feedback m"
  shows "parse_cast_feedback (encode_feedback_payload m) out =
    Inr (out\<lparr>cast_feedbacks := cast_feedbacks out @ [feedback_of m]\<rparr>)"
proof -
  let ?front = "u32_to_be_bytes (fm_receiver m) @ u32_to_be_bytes (fm_sender m)
     @ u32_to_be_bytes CAST_FEEDBACK_MAGIC
     @ [fm_checkpoint m, of_nat (length (fm_losses m))] @ u16_to_be_bytes (fm_delay m)"
  let ?p = "encode_feedback_payload m"
  have p: "?p = ?front @ concat (map encode_loss (fm_losses m)) @ encode_ack (fm_ack m)"
    by (simp add: encode_feedback_payload_def)
  have n: "unat (of_nat (length (fm_losses m)) :: u8) = length (fm_losses m)"
    using assms by (simp add: valid_feedback_def unat_of_nat)
  have losses: "loss_field_loop ?p (fm_checkpoint m) (length (fm_losses m)) 16 [] =
      Inr (16 + 4 * length (fm_losses m), nacks (feedback_of m))"
    using loss_field_loop_eq [of "fm_losses m" ?front "encode_ack (fm_ack m)" "fm_checkpoint m" "[]"] assms
    by (simp add: p valid_feedback_def feedback_of_def)
  have ack: "parse_ack_bitvector ?p (16 + 4 * length (fm_losses m)) = Inr (fm_ack m)"
    using parse_ack_bitvector_eq [of "fm_ack m" "?front @ concat (map encode_loss (fm_losses m))"] assms
    by (simp add: p valid_feedback_def)
  have len: "16 \<le> length ?p" by (simp add: encode_feedback_payload_length)
  have fields: "read_u32 ?p 0 = Inr (fm_receiver m)" "read_u32 ?p 4 = Inr (fm_sender m)"
    "read_u32 ?p 8 = Inr CAST_FEEDBACK_MAGIC" "indexR ?p 12 = Inr (fm_checkpoint m)"
    "indexR ?p 13 = Inr (of_nat (length (fm_losses m)))" "read_u16 ?p 14 = Inr (fm_delay m)"
    using len by (simp_all add: read_u32_ok read_u16_ok)
      (simp_all add: p u32_to_be_bytes_def u16_to_be_bytes_def)
  show ?thesis
    using len by (simp add: parse_cast_feedback_def fields n losses ack) (simp add: feedback_of_def)
qed

text \<open>
  C13. Cast feedback is read as the receiver meant it: for every feedback message whose packet
  identifiers stay in range, the parser returns its sources, checkpoint, playout delay and
  acknowledgement bit vector unchanged, and as losses exactly the packets its loss fields name,
  expanded from their bit vectors in order.
\<close>

theorem parse_feedback_roundtrip:
  assumes "valid_feedback m"
  shows "parse_compound (encode_feedback m) =
    Inr (compound_default\<lparr>cast_feedbacks := [feedback_of m]\<rparr>)"
proof -
  let ?n = "length (encode_feedback_payload m)"
  have "4 dvd ?n" using encode_ack_length by (simp add: encode_feedback_payload_length)
  moreover have "?n < 4 * 65536"
    using assms encode_ack_less [of "fm_ack m"]
    by (auto simp: encode_feedback_payload_length valid_feedback_def)
  ultimately have n: "unat (of_nat (?n div 4) :: u16) * 4 = ?n"
    by (simp add: unat_of_nat)
  have h: "rtcp_header_parse (encode_feedback m) =
      Inr \<lparr>rh_count = 15, rh_packet_type = 206, rh_length = of_nat (?n div 4)\<rparr>"
    by (simp add: encode_feedback_def rtcp_header_parse_ok u16_to_be_bytes_def rtcp_constants)
  have "length (encode_feedback m) = 4 + unat (of_nat (?n div 4) :: u16) * 4"
    "drop 4 (encode_feedback m) = encode_feedback_payload m"
    using n by (simp_all add: encode_feedback_def u16_to_be_bytes_def)
  then show ?thesis
    using parse_cast_feedback_encode [OF assms, of compound_default] parse_compound_single [OF h]
    by (simp add: parse_payload_def parse_payload_specific_def rtcp_constants compound_default_def)
qed

theorem parse_feedback_roundtrip_witness:
  "parse_compound (encode_feedback
      \<lparr>fm_receiver = 1000, fm_sender = 2000, fm_checkpoint = 10, fm_delay = 400,
       fm_losses = [(11, 5, 5), (12, ALL_PACKETS_LOST, 255)],
       fm_ack = Some \<lparr>feedback_count = 1, ack_data = [3]\<rparr>\<rparr>) =
   Inr (compound_default\<lparr>cast_feedbacks := [feedback_of
      \<lparr>fm_receiver = 1000, fm_sender = 2000, fm_checkpoint = 10, fm_delay = 400,
       fm_losses = [(11, 5, 5), (12, ALL_PACKETS_LOST, 255)],
       fm_ack = Some \<lparr>feedback_count = 1, ack_data = [3]\<rparr>\<rparr>]\<rparr>)"
  by (rule parse_feedback_roundtrip) (simp add: valid_feedback_def ALL_PACKETS_LOST_def list_all_iff)

end
