(* ===== verification/Stream_State.thy ===== *)
theory Stream_State
  imports Rtcp
begin

text \<open>
  The per-stream sender state (\<open>src/sender/stream.rs\<close>, \<open>src/sender/stats.rs\<close>): frames are
  encrypted, cut into packets and kept in a ring of 120 slots until the receiver acknowledges
  them; packets wait in a send queue and a retransmission queue; RTCP feedback releases frames,
  queues retransmissions and updates the measurements. Clock readings are arguments of the
  operations that take them, the cipher is the parameter of \<open>Crypto\<close>.
\<close>

subsection \<open>State\<close>

definition MAX_UNACKED_FRAMES :: nat where "MAX_UNACKED_FRAMES = 120"
definition SENDER_REPORT_HISTORY :: nat where "SENDER_REPORT_HISTORY = 16"
definition MINIMUM_IN_FLIGHT_MEDIA_DURATION :: duration where
  "MINIMUM_IN_FLIGHT_MEDIA_DURATION = from_millis 66"

datatype enqueue_error = ReachedIdSpanLimit | FirstFrameMustBeKeyFrame
  | NonMonotonicMediaTimestamp | EmptyFrame | EnqueueSessionClosed

record pending_frame =
  pf_frame_id :: frame_id
  pf_media_timestamp :: duration
  pf_duration :: "duration option"
  pf_packets :: "bytes list"

record queued_packet =
  qp_frame_id :: frame_id
  qp_packet :: bytes

record sender_report_record =
  compact_ntp :: u32
  sent_at :: instant

record outbound_packet =
  op_packet :: bytes
  op_retransmission :: bool

record stream_parameters =
  sp_sender_sync_source :: sync_source
  sp_receiver_sync_source :: sync_source
  sp_rtp_payload_type :: u8
  sp_rtp_timebase :: u32
  sp_target_playout_delay :: duration
  sp_adaptive_playout_delay :: bool
  sp_aes_key :: bytes
  sp_aes_iv_mask :: bytes
  sp_max_packet_size :: nat

record stream_state =
  crypto :: frame_crypto
  packetizer :: rtp_packetizer
  sender_sync_source :: sync_source
  receiver_sync_source :: sync_source
  rtp_timebase :: u32
  target_playout_delay :: duration
  adaptive_playout_delay :: bool
  pending_playout_delay :: "duration option"
  next_frame_id :: frame_id
  checkpoint :: frame_id
  pending :: "pending_frame option list"
  last_media_timestamp :: "duration option"
  last_reference_time :: "instant option"
  last_rtp_timestamp :: u32
  rtp_packets_sent :: u64
  rtp_octets_sent :: u64
  packets_retransmitted :: u64
  frames_acked :: u64
  frames_dropped_or_skipped :: u64
  nack_count :: u64
  receiver_playout_delay :: "duration option"
  current_rtt :: "duration option"
  fraction_lost :: "u8 option"
  cumulative_packets_lost :: "i32 option"
  highest_sequence_number :: "u32 option"
  jitter :: "u32 option"
  last_ack_feedback_count :: "u8 option"
  last_ack_bitvector_bytes :: "nat option"
  receiver_reference_time :: "system_time option"
  sender_reports :: "sender_report_record list"
  send_queue :: "queued_packet list"
  retransmit_queue :: "queued_packet list"

record stream_statistics =
  st_in_flight_frames :: nat
  st_in_flight_media_duration :: duration
  st_max_acceptable_in_flight_duration :: duration
  st_current_rtt :: "duration option"
  st_receiver_playout_delay :: "duration option"
  st_packets_sent :: u64
  st_packets_retransmitted :: u64
  st_frames_acked :: u64
  st_frames_dropped_or_skipped :: u64
  st_nack_count :: u64
  st_fraction_lost :: "u8 option"
  st_cumulative_packets_lost :: "i32 option"
  st_highest_sequence_number :: "u32 option"
  st_jitter :: "u32 option"
  st_last_ack_feedback_count :: "u8 option"
  st_last_ack_bitvector_bytes :: "nat option"
  st_receiver_reference_time :: "system_time option"

definition stream_new :: "u16 \<Rightarrow> stream_parameters \<Rightarrow> stream_state" where
  "stream_new seq ps =
     \<lparr>crypto = frame_crypto_new (sp_aes_key ps) (sp_aes_iv_mask ps),
      packetizer = rtp_packetizer_new seq (sp_sender_sync_source ps) (sp_rtp_payload_type ps)
                     (sp_max_packet_size ps),
      sender_sync_source = sp_sender_sync_source ps,
      receiver_sync_source = sp_receiver_sync_source ps,
      rtp_timebase = sp_rtp_timebase ps,
      target_playout_delay = sp_target_playout_delay ps,
      adaptive_playout_delay = sp_adaptive_playout_delay ps,
      pending_playout_delay = None,
      next_frame_id = frame_id_first,
      checkpoint = frame_id_first + - 1,
      pending = replicate MAX_UNACKED_FRAMES None,
      last_media_timestamp = None,
      last_reference_time = None,
      last_rtp_timestamp = 0,
      rtp_packets_sent = 0,
      rtp_octets_sent = 0,
      packets_retransmitted = 0,
      frames_acked = 0,
      frames_dropped_or_skipped = 0,
      nack_count = 0,
      receiver_playout_delay = None,
      current_rtt = None,
      fraction_lost = None,
      cumulative_packets_lost = None,
      highest_sequence_number = None,
      jitter = None,
      last_ack_feedback_count = None,
      last_ack_bitvector_bytes = None,
      receiver_reference_time = None,
      sender_reports = [],
      send_queue = [],
      retransmit_queue = []\<rparr>"

subsection \<open>Time stamps\<close>

definition media_to_rtp_timestamp :: "duration \<Rightarrow> u32 \<Rightarrow> u32" where
  "media_to_rtp_timestamp t timebase =
     (let whole_seconds = ucast (of_nat (as_secs t) * ucast timebase :: u64) :: u32;
          fractional = of_nat (subsec_nanos t) * ucast timebase div 1000000000 :: u64
      in whole_seconds + ucast fractional)"

definition duration_from_ntp_short :: "u32 \<Rightarrow> duration" where
  "duration_from_ntp_short value = unat value * 1000000000 div 65536"

subsection \<open>Frames in, packets out\<close>

definition reject_frame ::
  "stream_state \<Rightarrow> enqueue_error \<Rightarrow> stream_state \<times> (frame_id, enqueue_error) result" where
  "reject_frame s error =
     (s\<lparr>frames_dropped_or_skipped := saturating_add_u64 (frames_dropped_or_skipped s) 1\<rparr>,
      Inl (Err error))"

definition in_flight_id_span :: "stream_state \<Rightarrow> nat" where
  "in_flight_id_span s = frame_id_as_usize (next_frame_id s - (checkpoint s + 1))"

definition slot_of :: "frame_id \<Rightarrow> nat" where
  "slot_of i = frame_id_as_usize i mod MAX_UNACKED_FRAMES"

definition queue_frame ::
  "stream_state \<Rightarrow> encoded_frame \<Rightarrow> frame_id \<Rightarrow> u32 \<Rightarrow> rtp_packetizer \<Rightarrow> bytes list \<Rightarrow> frame_id \<Rightarrow> stream_state"
where
  "queue_frame s frame frame_id rtp_timestamp pz packets next =
     s\<lparr>packetizer := pz,
       pending_playout_delay := None,
       send_queue := send_queue s @
         map (\<lambda>packet. \<lparr>qp_frame_id = frame_id, qp_packet = packet\<rparr>) packets,
       pending := (pending s)[slot_of frame_id := Some
         \<lparr>pf_frame_id = frame_id, pf_media_timestamp = media_timestamp frame,
          pf_duration = frame_duration frame, pf_packets = packets\<rparr>],
       last_media_timestamp := Some (media_timestamp frame),
       last_reference_time := Some (reference_time frame),
       last_rtp_timestamp := rtp_timestamp,
       next_frame_id := next\<rparr>"

definition enqueue_frame ::
  "cipher \<Rightarrow> stream_state \<Rightarrow> encoded_frame \<Rightarrow> stream_state \<times> (frame_id, enqueue_error) result" where
  "enqueue_frame ap s frame =
     (if frame_data frame = [] then reject_frame s EmptyFrame
      else if next_frame_id s = frame_id_first \<and> dependency frame \<noteq> KeyFrame
      then reject_frame s FirstFrameMustBeKeyFrame
      else if (case last_media_timestamp s of None \<Rightarrow> False | Some t \<Rightarrow> media_timestamp frame \<le> t)
      then reject_frame s NonMonotonicMediaTimestamp
      else if in_flight_id_span s \<ge> MAX_UNACKED_FRAMES then reject_frame s ReachedIdSpanLimit
      else
        let frame_id = next_frame_id s;
            is_key = (dependency frame = KeyFrame);
            rtp_timestamp = media_to_rtp_timestamp (media_timestamp frame) (rtp_timebase s);
            referenced_frame_id = (if is_key then frame_id else frame_id + - 1);
            data = encrypt ap (crypto s) frame_id (frame_data frame)
        in case bindR (packetize (packetizer s)
                   \<lparr>rf_frame_id = frame_id, rf_is_key = is_key, rf_referenced = referenced_frame_id,
                    rf_timestamp = rtp_timestamp, rf_delay = pending_playout_delay s\<rparr> data) (\<lambda>out.
                 bindR (frame_id_next frame_id) (\<lambda>next. Inr (out, next))) of
             Inl fault \<Rightarrow> (s, Inl fault)
           | Inr ((pz, packets), next) \<Rightarrow>
               (queue_frame s frame frame_id rtp_timestamp pz packets next, Inr frame_id))"

definition set_stream_playout_delay :: "stream_state \<Rightarrow> duration \<Rightarrow> stream_state" where
  "set_stream_playout_delay s delay =
     s\<lparr>target_playout_delay := delay, pending_playout_delay := Some delay\<rparr>"

definition in_flight_count :: "stream_state \<Rightarrow> nat" where
  "in_flight_count s = length (filter (\<lambda>p. p \<noteq> None) (pending s))"

definition frame_end :: "pending_frame \<Rightarrow> duration" where
  "frame_end f =
     (case pf_duration f of
        None \<Rightarrow> pf_media_timestamp f
      | Some d \<Rightarrow> (case checked_add_duration (pf_media_timestamp f) d of
                    None \<Rightarrow> pf_media_timestamp f | Some e \<Rightarrow> e))"

fun media_span_loop ::
  "pending_frame option list \<Rightarrow> duration option \<Rightarrow> duration option \<Rightarrow> duration option \<times> duration option"
where
  "media_span_loop [] oldest newest = (oldest, newest)"
| "media_span_loop (None # fs) oldest newest = media_span_loop fs oldest newest"
| "media_span_loop (Some f # fs) oldest newest =
     media_span_loop fs
       (Some (case oldest of None \<Rightarrow> pf_media_timestamp f | Some t \<Rightarrow> min t (pf_media_timestamp f)))
       (Some (case newest of None \<Rightarrow> frame_end f | Some t \<Rightarrow> max t (frame_end f)))"

definition in_flight_media_duration :: "stream_state \<Rightarrow> duration" where
  "in_flight_media_duration s =
     (case media_span_loop (pending s) None None of
        (Some oldest, Some newest) \<Rightarrow> newest - oldest
      | _ \<Rightarrow> 0)"

subsection \<open>Acknowledgements and losses\<close>

definition cancel_queued_frame :: "stream_state \<Rightarrow> frame_id \<Rightarrow> stream_state" where
  "cancel_queued_frame s i =
     s\<lparr>send_queue := filter (\<lambda>q. qp_frame_id q \<noteq> i) (send_queue s),
       retransmit_queue := filter (\<lambda>q. qp_frame_id q \<noteq> i) (retransmit_queue s)\<rparr>"

text \<open>The body of both acknowledgement loops: release the slot if it holds this very frame.\<close>

definition release_frame :: "frame_id \<Rightarrow> stream_state \<times> frame_id list \<Rightarrow> stream_state \<times> frame_id list" where
  "release_frame i sa =
     (let (s, acknowledged) = sa; slot = slot_of i
      in if (case pending s ! slot of None \<Rightarrow> False | Some f \<Rightarrow> pf_frame_id f = i)
         then (cancel_queued_frame (s\<lparr>pending := (pending s)[slot := None]\<rparr>) i, acknowledged @ [i])
         else (s, acknowledged))"

definition count_acked :: "stream_state \<times> frame_id list \<Rightarrow> stream_state \<times> frame_id list" where
  "count_acked sa =
     (let (s, acknowledged) = sa
      in (s\<lparr>frames_acked := saturating_add_u64 (frames_acked s) (of_nat (length acknowledged))\<rparr>,
          acknowledged))"

definition acknowledge_up_to :: "stream_state \<Rightarrow> frame_id \<Rightarrow> stream_state \<times> frame_id list" where
  "acknowledge_up_to s frame_id =
     (let start = checkpoint s + 1
      in if frame_id < start then (s, [])
         else let (s', acknowledged) = fold release_frame [start..frame_id] (s, [])
              in count_acked (s'\<lparr>checkpoint := frame_id\<rparr>, acknowledged))"

text \<open>The frame identifiers of the set bits, in the order the loop visits them.\<close>

definition bitvector_ids :: "frame_id \<Rightarrow> bytes \<Rightarrow> frame_id list" where
  "bitvector_ids cp data =
     concat (map (\<lambda>byte_index.
       map (\<lambda>bit_index. cp + int (2 + byte_index * 8 + bit_index))
         (filter (\<lambda>bit_index. data ! byte_index AND push_bit bit_index 1 \<noteq> 0) [0..<8]))
       [0..<length data])"

definition release_sent_frame ::
  "frame_id \<Rightarrow> stream_state \<times> frame_id list \<Rightarrow> stream_state \<times> frame_id list" where
  "release_sent_frame i sa = (if i \<ge> next_frame_id (fst sa) then sa else release_frame i sa)"

definition acknowledge_bitvector ::
  "stream_state \<Rightarrow> frame_id \<Rightarrow> ack_bitvector option \<Rightarrow> stream_state \<times> frame_id list" where
  "acknowledge_bitvector s cp ack =
     (let s1 = s\<lparr>last_ack_feedback_count := map_option feedback_count ack,
                 last_ack_bitvector_bytes := map_option (\<lambda>a. length (ack_data a)) ack\<rparr>
      in case ack of
           None \<Rightarrow> (s1, [])
         | Some a \<Rightarrow> count_acked (fold release_sent_frame (bitvector_ids cp (ack_data a)) (s1, [])))"

definition handle_nack :: "stream_state \<Rightarrow> frame_id \<Rightarrow> u16 \<Rightarrow> stream_state \<times> nat" where
  "handle_nack s frame_id packet_id =
     (let s1 = s\<lparr>nack_count := saturating_add_u64 (nack_count s) 1\<rparr>
      in case pending s ! slot_of frame_id of
           None \<Rightarrow> (s1, 0)
         | Some f \<Rightarrow>
             if pf_frame_id f \<noteq> frame_id then (s1, 0)
             else if packet_id = ALL_PACKETS_LOST
             then (s1\<lparr>retransmit_queue := retransmit_queue s @
                     map (\<lambda>packet. \<lparr>qp_frame_id = frame_id, qp_packet = packet\<rparr>) (pf_packets f)\<rparr>,
                   length (pf_packets f))
             else if unat packet_id < length (pf_packets f)
             then (s1\<lparr>retransmit_queue := retransmit_queue s @
                     [\<lparr>qp_frame_id = frame_id, qp_packet = pf_packets f ! unat packet_id\<rparr>]\<rparr>, 1)
             else (s1, 0))"

definition next_packet :: "stream_state \<Rightarrow> stream_state \<times> outbound_packet option" where
  "next_packet s =
     (case retransmit_queue s of
        q # qs \<Rightarrow> (s\<lparr>retransmit_queue := qs\<rparr>,
                   Some \<lparr>op_packet = qp_packet q, op_retransmission = True\<rparr>)
      | [] \<Rightarrow> (case send_queue s of
                 q # qs \<Rightarrow> (s\<lparr>send_queue := qs\<rparr>,
                            Some \<lparr>op_packet = qp_packet q, op_retransmission = False\<rparr>)
               | [] \<Rightarrow> (s, None)))"

subsection \<open>Reports and measurements\<close>

definition accepts_receiver_sync_source :: "stream_state \<Rightarrow> sync_source \<Rightarrow> bool" where
  "accepts_receiver_sync_source s source \<longleftrightarrow> receiver_sync_source s = source"

definition total_packets_sent :: "stream_state \<Rightarrow> u32" where
  "total_packets_sent s = ucast (rtp_packets_sent s)"

definition total_octets_sent :: "stream_state \<Rightarrow> u32" where
  "total_octets_sent s = ucast (rtp_octets_sent s)"

definition sender_report_timestamp ::
  "stream_state \<Rightarrow> system_time \<Rightarrow> instant \<Rightarrow> ntp_timestamp \<times> u32" where
  "sender_report_timestamp s system_now monotonic_now =
     (case last_reference_time s of
        None \<Rightarrow> (ntp_from_system_time system_now, last_rtp_timestamp s)
      | Some r \<Rightarrow>
          (ntp_from_system_time system_now,
           if r \<le> monotonic_now
           then last_rtp_timestamp s + media_to_rtp_timestamp (monotonic_now - r) (rtp_timebase s)
           else last_rtp_timestamp s - media_to_rtp_timestamp (r - monotonic_now) (rtp_timebase s)))"

definition record_packet_sent :: "stream_state \<Rightarrow> nat \<Rightarrow> bool \<Rightarrow> stream_state" where
  "record_packet_sent s packet_size retransmission =
     (if retransmission
      then s\<lparr>packets_retransmitted := saturating_add_u64 (packets_retransmitted s) 1\<rparr>
      else s\<lparr>rtp_packets_sent := rtp_packets_sent s + 1,
             rtp_octets_sent := rtp_octets_sent s +
               of_nat (packet_size - RTP_STANDARD_HEADER_SIZE)\<rparr>)"

definition record_sender_report :: "stream_state \<Rightarrow> u32 \<Rightarrow> instant \<Rightarrow> stream_state" where
  "record_sender_report s ntp at =
     (let kept = (if length (sender_reports s) = SENDER_REPORT_HISTORY
                  then tl (sender_reports s) else sender_reports s)
      in s\<lparr>sender_reports := kept @ [\<lparr>compact_ntp = ntp, sent_at = at\<rparr>]\<rparr>)"

definition round_trip :: "instant \<Rightarrow> instant \<Rightarrow> duration \<Rightarrow> duration option" where
  "round_trip sent received receiver_delay =
     (if sent \<le> received then checked_sub_duration (received - sent) receiver_delay else None)"

definition update_receiver_report :: "stream_state \<Rightarrow> receiver_report \<Rightarrow> instant \<Rightarrow> stream_state" where
  "update_receiver_report s report received_at =
     (let s1 = s\<lparr>fraction_lost := Some (rr_fraction_lost report),
                 cumulative_packets_lost := Some (rr_cumulative_lost report),
                 highest_sequence_number := Some (rr_highest_sequence report),
                 jitter := Some (rr_jitter report)\<rparr>
      in if rr_last_sr_timestamp report = 0 then s1
         else case find (\<lambda>r. compact_ntp r = rr_last_sr_timestamp report) (rev (sender_reports s)) of
                None \<Rightarrow> s1
              | Some r \<Rightarrow> s1\<lparr>current_rtt :=
                  round_trip (sent_at r) received_at
                    (duration_from_ntp_short (rr_delay_since_last_sr report))\<rparr>)"

definition update_playout_delay :: "stream_state \<Rightarrow> u16 \<Rightarrow> stream_state" where
  "update_playout_delay s delay_ms = s\<lparr>receiver_playout_delay := Some (from_millis (unat delay_ms))\<rparr>"

definition update_receiver_reference_time ::
  "stream_state \<Rightarrow> receiver_reference_time \<Rightarrow> stream_state" where
  "update_receiver_reference_time s report =
     s\<lparr>receiver_reference_time := Some (ntp_to_system_time (rrt_ntp_timestamp report))\<rparr>"

definition max_acceptable_in_flight_duration :: "stream_state \<Rightarrow> duration" where
  "max_acceptable_in_flight_duration s =
     (let playout_delay = (case receiver_playout_delay s of None \<Rightarrow> target_playout_delay s | Some d \<Rightarrow> d);
          maximum = max (playout_delay div 3) MINIMUM_IN_FLIGHT_MEDIA_DURATION;
          network_budget = saturating_mul_duration
            (case current_rtt s of None \<Rightarrow> 0 | Some d \<Rightarrow> d) 2
      in min (max network_budget MINIMUM_IN_FLIGHT_MEDIA_DURATION) maximum)"

definition statistics :: "stream_state \<Rightarrow> stream_statistics" where
  "statistics s =
     \<lparr>st_in_flight_frames = in_flight_count s,
      st_in_flight_media_duration = in_flight_media_duration s,
      st_max_acceptable_in_flight_duration = max_acceptable_in_flight_duration s,
      st_current_rtt = current_rtt s,
      st_receiver_playout_delay = receiver_playout_delay s,
      st_packets_sent = rtp_packets_sent s,
      st_packets_retransmitted = packets_retransmitted s,
      st_frames_acked = frames_acked s,
      st_frames_dropped_or_skipped = frames_dropped_or_skipped s,
      st_nack_count = nack_count s,
      st_fraction_lost = fraction_lost s,
      st_cumulative_packets_lost = cumulative_packets_lost s,
      st_highest_sequence_number = highest_sequence_number s,
      st_jitter = jitter s,
      st_last_ack_feedback_count = last_ack_feedback_count s,
      st_last_ack_bitvector_bytes = last_ack_bitvector_bytes s,
      st_receiver_reference_time = receiver_reference_time s\<rparr>"

end
