(* ===== verification/Ring.thy ===== *)
theory Ring
  imports Prelude
begin

text \<open>
  A ring of slots indexed by consecutive identifiers: the interface between the frame window of
  a stream and the array that stores it. A client relies on two laws of the slot function, that
  it stays inside the array and that it separates identifiers less than the array's size
  apart; \<open>Stream_Window\<close> interprets the locale on the modulo indexing of the source.
\<close>

definition ring_lookup :: "(int \<Rightarrow> nat) \<Rightarrow> ('f \<Rightarrow> int) \<Rightarrow> 'f option list \<Rightarrow> int \<Rightarrow> 'f option" where
  "ring_lookup slot key xs i =
     (case xs ! slot i of None \<Rightarrow> None | Some f \<Rightarrow> if key f = i then Some f else None)"

text \<open>Every stored element sits in the slot of its key, and its key is strictly between the two
  bounds of the window.\<close>

definition ring_ok :: "(int \<Rightarrow> nat) \<Rightarrow> ('f \<Rightarrow> int) \<Rightarrow> int \<Rightarrow> int \<Rightarrow> 'f option list \<Rightarrow> bool" where
  "ring_ok slot key lo hi xs \<longleftrightarrow>
     (\<forall>k f. k < length xs \<longrightarrow> xs ! k = Some f \<longrightarrow> slot (key f) = k \<and> lo < key f \<and> key f < hi)"

lemma ring_lookup_key: "ring_lookup slot key xs i = Some f \<Longrightarrow> key f = i"
  by (auto simp: ring_lookup_def split: option.splits if_splits)

lemma ring_ok_weaken:
  "ring_ok slot key lo hi xs \<Longrightarrow> (\<And>f. Some f \<in> set xs \<Longrightarrow> lo < key f \<Longrightarrow> key f < hi \<Longrightarrow> lo' < key f \<and> key f < hi') \<Longrightarrow>
     ring_ok slot key lo' hi' xs"
  by (auto simp: ring_ok_def in_set_conv_nth)

locale slot_ring =
  fixes slot :: "int \<Rightarrow> nat" and size :: nat and ids :: "int set"
  assumes slot_less: "slot i < size"
    and slot_inj: "i \<in> ids \<Longrightarrow> j \<in> ids \<Longrightarrow> \<bar>i - j\<bar> < int size \<Longrightarrow> slot i = slot j \<Longrightarrow> i = j"
begin

lemma lookup_bounds:
  assumes "length xs = size" and "ring_ok slot key lo hi xs" and "ring_lookup slot key xs i = Some f"
  shows "lo < i" "i < hi" "key f = i" "xs ! slot i = Some f"
proof -
  have f: "xs ! slot i = Some f" "key f = i"
    using assms(3) by (auto simp: ring_lookup_def split: option.splits if_splits)
  then show "lo < i" "i < hi" "key f = i" "xs ! slot i = Some f"
    using assms(1, 2) slot_less [of i] by (auto simp: ring_ok_def)
qed

lemma stored_iff_lookup:
  assumes "length xs = size" and "ring_ok slot key lo hi xs"
  shows "Some f \<in> set xs \<longleftrightarrow> ring_lookup slot key xs (key f) = Some f"
proof
  assume "Some f \<in> set xs"
  then obtain k where "k < length xs" "xs ! k = Some f" by (auto simp: in_set_conv_nth)
  then show "ring_lookup slot key xs (key f) = Some f"
    using assms(2) by (auto simp: ring_ok_def ring_lookup_def)
next
  assume "ring_lookup slot key xs (key f) = Some f"
  then show "Some f \<in> set xs"
    using lookup_bounds(4) [OF assms] slot_less [of "key f"] assms(1) by (metis nth_mem)
qed

lemma slot_free:
  assumes "length xs = size" and "ring_ok slot key lo hi xs"
    and "{lo<..hi} \<subseteq> ids" and "hi - lo \<le> int size" and "lo < hi"
  shows "xs ! slot hi = None"
proof (rule ccontr)
  assume "xs ! slot hi \<noteq> None"
  then obtain f where "xs ! slot hi = Some f" by blast
  then have f: "slot (key f) = slot hi" "lo < key f" "key f < hi"
    using assms(1, 2) slot_less [of hi] by (auto simp: ring_ok_def)
  then have "key f = hi" using assms(3 - 5) by (intro slot_inj) auto
  with f show False by simp
qed

text \<open>Storing the next identifier extends the window and the map, and disturbs nothing.\<close>

lemma put_next:
  assumes "length xs = size" and "ring_ok slot key lo hi xs"
    and "{lo<..hi} \<subseteq> ids" and "hi - lo \<le> int size" and "lo < hi" and "key f = hi"
  shows "ring_ok slot key lo (hi + 1) (xs[slot hi := Some f])"
    and "ring_lookup slot key (xs[slot hi := Some f]) = (ring_lookup slot key xs)(hi \<mapsto> f)"
proof -
  show "ring_ok slot key lo (hi + 1) (xs[slot hi := Some f])"
    using assms slot_less [of hi] by (auto simp: ring_ok_def nth_list_update split: if_splits)
  show "ring_lookup slot key (xs[slot hi := Some f]) = (ring_lookup slot key xs)(hi \<mapsto> f)"
    using slot_free [OF assms(1 - 5)] assms(1, 6) slot_less [of hi]
    by (auto simp: ring_lookup_def nth_list_update fun_eq_iff)
qed

text \<open>Clearing the slot of a stored identifier removes it from the map, and nothing else.\<close>

lemma clear_slot:
  assumes "length xs = size" and "ring_ok slot key lo hi xs" and "ring_lookup slot key xs i = Some f"
  shows "ring_ok slot key lo hi (xs[slot i := None])"
    and "ring_lookup slot key (xs[slot i := None]) = (ring_lookup slot key xs)(i := None)"
proof -
  show "ring_ok slot key lo hi (xs[slot i := None])"
    using assms(1, 2) slot_less [of i] by (auto simp: ring_ok_def nth_list_update split: if_splits)
  show "ring_lookup slot key (xs[slot i := None]) = (ring_lookup slot key xs)(i := None)"
    using lookup_bounds [OF assms] assms(1) slot_less [of i]
    by (auto simp: ring_lookup_def nth_list_update fun_eq_iff)
qed

lemma empty_ring:
  "ring_ok slot key lo hi (replicate size None)"
  "ring_lookup slot key (replicate size None) = Map.empty"
  using slot_less by (auto simp: ring_ok_def ring_lookup_def fun_eq_iff)

text \<open>The number of occupied slots is the number of keys of the map.\<close>

lemma finite_dom_lookup:
  assumes "length xs = size" and "ring_ok slot key lo hi xs"
  shows "dom (ring_lookup slot key xs) \<subseteq> {lo<..<hi}" "finite (dom (ring_lookup slot key xs))"
proof -
  show "dom (ring_lookup slot key xs) \<subseteq> {lo<..<hi}"
    using lookup_bounds [OF assms] by auto
  then show "finite (dom (ring_lookup slot key xs))" by (rule finite_subset) simp
qed

lemma occupied_slots:
  assumes "length xs = size" and "ring_ok slot key lo hi xs"
  shows "length (filter (\<lambda>p. p \<noteq> None) xs) = card (dom (ring_lookup slot key xs))"
proof -
  have "bij_betw slot (dom (ring_lookup slot key xs)) {k. k < length xs \<and> xs ! k \<noteq> None}"
  proof (rule bij_betw_imageI)
    show "inj_on slot (dom (ring_lookup slot key xs))"
      using lookup_bounds(3, 4) [OF assms] by (auto simp: inj_on_def) metis
    show "slot ` dom (ring_lookup slot key xs) = {k. k < length xs \<and> xs ! k \<noteq> None}"
    proof (intro equalityI subsetI)
      fix k assume "k \<in> {k. k < length xs \<and> xs ! k \<noteq> None}"
      then obtain f where f: "k < length xs" "xs ! k = Some f" by auto
      then have "Some f \<in> set xs" by (metis nth_mem)
      then have "ring_lookup slot key xs (key f) = Some f" using stored_iff_lookup [OF assms] by blast
      moreover have "slot (key f) = k" using f assms(2) by (auto simp: ring_ok_def)
      ultimately show "k \<in> slot ` dom (ring_lookup slot key xs)" by (metis domI imageI)
    qed (use lookup_bounds(4) [OF assms] slot_less assms(1) in auto)
  qed
  then show ?thesis
    by (simp add: length_filter_conv_card bij_betw_same_card)
qed

end

end
