(* ===== verification/Stream_Window.thy ===== *)
theory Stream_Window
  imports Stream_State Ring
begin

text \<open>
  The in-flight window of a stream. The 120 slots of \<open>StreamState::pending\<close> refine a finite map
  from frame identifiers to unacknowledged frames; \<open>window\<close> is that map, \<open>stream_inv\<close> the
  invariant of the state, and the lemmas say what each operation does to the map and the two
  queues. The slot arithmetic is used only through the interpretation of \<open>slot_ring\<close>.
\<close>

subsection \<open>The slot function\<close>

lemma slot_of_nonneg: "0 \<le> i \<Longrightarrow> i < 2 ^ 63 \<Longrightarrow> int (slot_of i) = i mod 120"
  by (simp add: slot_of_def frame_id_as_usize_nonneg MAX_UNACKED_FRAMES_def zmod_int)

interpretation ring: slot_ring slot_of MAX_UNACKED_FRAMES "{0..<2 ^ 63}"
proof unfold_locales
  show "slot_of i < MAX_UNACKED_FRAMES" for i
    by (simp add: slot_of_def MAX_UNACKED_FRAMES_def)
  fix i j :: int
  assume ij: "i \<in> {0..<2 ^ 63}" "j \<in> {0..<2 ^ 63}" "\<bar>i - j\<bar> < int MAX_UNACKED_FRAMES"
    "slot_of i = slot_of j"
  then have "i mod 120 = j mod 120"
    using slot_of_nonneg [of i] slot_of_nonneg [of j] by simp
  then have "120 dvd \<bar>i - j\<bar>" by (simp add: mod_eq_dvd_iff)
  then show "i = j"
    using ij(3) zdvd_not_zless [of "\<bar>i - j\<bar>" 120] by (auto simp: MAX_UNACKED_FRAMES_def)
qed

definition window :: "stream_state \<Rightarrow> frame_id \<rightharpoonup> pending_frame" where
  "window s = ring_lookup slot_of pf_frame_id (pending s)"

subsection \<open>The invariant\<close>

definition ring_inv :: "stream_state \<Rightarrow> bool" where
  "ring_inv s \<longleftrightarrow>
     length (pending s) = MAX_UNACKED_FRAMES \<and>
     - 1 \<le> checkpoint s \<and> checkpoint s < next_frame_id s \<and> next_frame_id s \<le> 2 ^ 63 - 1 \<and>
     next_frame_id s - (checkpoint s + 1) \<le> int MAX_UNACKED_FRAMES \<and>
     ring_ok slot_of pf_frame_id (checkpoint s) (next_frame_id s) (pending s)"

definition queue_inv :: "stream_state \<Rightarrow> bool" where
  "queue_inv s \<longleftrightarrow>
     (\<forall>q \<in> set (send_queue s) \<union> set (retransmit_queue s).
        \<exists>f. window s (qp_frame_id q) = Some f \<and> qp_packet q \<in> set (pf_packets f))"

definition media_inv :: "stream_state \<Rightarrow> bool" where
  "media_inv s \<longleftrightarrow>
     (last_media_timestamp s = None \<longleftrightarrow> next_frame_id s = 0) \<and>
     (\<forall>i f. window s i = Some f \<longrightarrow> (\<exists>t. last_media_timestamp s = Some t \<and> pf_media_timestamp f \<le> t)) \<and>
     (\<forall>i j f g. window s i = Some f \<longrightarrow> window s j = Some g \<longrightarrow> i < j \<longrightarrow>
        pf_media_timestamp f < pf_media_timestamp g)"

definition stream_inv :: "stream_state \<Rightarrow> bool" where
  "stream_inv s \<longleftrightarrow>
     ring_inv s \<and> queue_inv s \<and> media_inv s \<and>
     0 < max_payload_size (packetizer s) \<and> length (sender_reports s) \<le> SENDER_REPORT_HISTORY"

lemma ring_invD:
  assumes "ring_inv s"
  shows "length (pending s) = MAX_UNACKED_FRAMES"
    and "ring_ok slot_of pf_frame_id (checkpoint s) (next_frame_id s) (pending s)"
    and "checkpoint s < next_frame_id s" and "- 1 \<le> checkpoint s"
    and "next_frame_id s - (checkpoint s + 1) \<le> int MAX_UNACKED_FRAMES"
    and "next_frame_id s \<le> 2 ^ 63 - 1"
  using assms by (auto simp: ring_inv_def)

lemma window_range:
  assumes "ring_inv s" and "window s i = Some f"
  shows "checkpoint s < i" "i < next_frame_id s" "pf_frame_id f = i"
  using ring.lookup_bounds [OF ring_invD(1, 2) [OF assms(1)]] assms(2) by (auto simp: window_def)

lemma queue_inv_ids:
  "queue_inv s \<Longrightarrow> q \<in> set (send_queue s) \<or> q \<in> set (retransmit_queue s) \<Longrightarrow>
     window s (qp_frame_id q) \<noteq> None"
  by (auto simp: queue_inv_def)

lemma in_flight_id_span_eq:
  "ring_inv s \<Longrightarrow> in_flight_id_span s = nat (next_frame_id s - (checkpoint s + 1))"
  unfolding in_flight_id_span_def using ring_invD [of s]
  by (intro frame_id_as_usize_nonneg) (auto simp: MAX_UNACKED_FRAMES_def)

subsection \<open>Releasing frames\<close>

text \<open>The state after the frames of \<open>ids\<close> were released and the ring became \<open>P\<close>.\<close>

definition released :: "stream_state \<Rightarrow> pending_frame option list \<Rightarrow> frame_id set \<Rightarrow> stream_state" where
  "released s P ids =
     s\<lparr>pending := P,
       send_queue := filter (\<lambda>q. qp_frame_id q \<notin> ids) (send_queue s),
       retransmit_queue := filter (\<lambda>q. qp_frame_id q \<notin> ids) (retransmit_queue s)\<rparr>"

definition ring_for :: "stream_state \<Rightarrow> frame_id set \<Rightarrow> pending_frame option list \<Rightarrow> bool" where
  "ring_for s ids P \<longleftrightarrow>
     length P = MAX_UNACKED_FRAMES \<and>
     ring_ok slot_of pf_frame_id (checkpoint s) (next_frame_id s) P \<and>
     ring_lookup slot_of pf_frame_id P = window s |` (- ids)"

lemma release_frame_cond:
  "(case pending s ! slot_of i of None \<Rightarrow> False | Some f \<Rightarrow> pf_frame_id f = i) \<longleftrightarrow> window s i \<noteq> None"
  by (auto simp: window_def ring_lookup_def split: option.splits)

lemma filter_id_conv_not: "x \<notin> f ` set xs \<Longrightarrow> filter (\<lambda>q. f q \<noteq> x) xs = xs"
  by (induction xs) auto

lemma release_frame_eq:
  assumes "ring_inv s" and "queue_inv s"
  shows "\<exists>P. release_frame i (s, acc) =
      (released s P {i}, acc @ (if window s i \<noteq> None then [i] else [])) \<and> ring_for s {i} P"
proof (cases "window s i")
  case None
  then have "filter (\<lambda>q. qp_frame_id q \<noteq> i) (send_queue s) = send_queue s"
    "filter (\<lambda>q. qp_frame_id q \<noteq> i) (retransmit_queue s) = retransmit_queue s"
    using queue_inv_ids [OF assms(2)] by (fastforce intro!: filter_id_conv_not)+
  then have "released s (pending s) {i} = s" by (simp add: released_def)
  moreover have "ring_for s {i} (pending s)"
    using ring_invD(1, 2) [OF assms(1)] None
    by (auto simp: ring_for_def window_def restrict_map_def fun_eq_iff)
  ultimately show ?thesis
    using None by (intro exI [of _ "pending s"]) (simp add: release_frame_def release_frame_cond)
next
  case (Some f)
  let ?P = "(pending s)[slot_of i := None]"
  have "ring_for s {i} ?P"
    using ring.clear_slot [OF ring_invD(1, 2) [OF assms(1)]] Some ring_invD(1) [OF assms(1)]
    by (auto simp: ring_for_def window_def restrict_map_def fun_eq_iff)
  then show ?thesis
    using Some by (intro exI [of _ ?P])
      (simp add: release_frame_def release_frame_cond cancel_queued_frame_def released_def)
qed

lemma released_simps [simp]:
  "checkpoint (released s P ids) = checkpoint s" "next_frame_id (released s P ids) = next_frame_id s"
  "pending (released s P ids) = P"
  "send_queue (released s P ids) = filter (\<lambda>q. qp_frame_id q \<notin> ids) (send_queue s)"
  "retransmit_queue (released s P ids) = filter (\<lambda>q. qp_frame_id q \<notin> ids) (retransmit_queue s)"
  "last_media_timestamp (released s P ids) = last_media_timestamp s"
  "packetizer (released s P ids) = packetizer s"
  "sender_reports (released s P ids) = sender_reports s"
  by (simp_all add: released_def)

lemma window_released: "ring_for s ids P \<Longrightarrow> window (released s P ids) = window s |` (- ids)"
  by (simp add: ring_for_def window_def)

lemma ring_inv_released: "ring_inv s \<Longrightarrow> ring_for s ids P \<Longrightarrow> ring_inv (released s P ids)"
  by (simp add: ring_inv_def ring_for_def)

lemma queue_inv_released:
  assumes "queue_inv s" and "ring_for s ids P"
  shows "queue_inv (released s P ids)"
  using assms by (auto simp: queue_inv_def window_released [OF assms(2)] restrict_map_def)

lemma media_inv_released:
  assumes "media_inv s" and "ring_for s ids P"
  shows "media_inv (released s P ids)"
  using assms(1) unfolding media_inv_def
  by (auto simp: window_released [OF assms(2)] restrict_map_def)

lemma released_none: "released s (pending s) {} = s"
  by (simp add: released_def)

lemma ring_for_none: "ring_inv s \<Longrightarrow> ring_for s {} (pending s)"
  using ring_invD(1, 2) [of s] by (simp add: ring_for_def window_def restrict_map_def)

lemma released_released:
  "released (released s P ids) Q ids' = released s Q (ids \<union> ids')"
  by (simp add: released_def conj_commute)

lemma ring_for_trans:
  "ring_for s ids P \<Longrightarrow> ring_for (released s P ids) ids' Q \<Longrightarrow> ring_for s (ids \<union> ids') Q"
  by (auto simp: ring_for_def window_def restrict_map_def fun_eq_iff)

lemma fold_release_frame:
  assumes "ring_inv s" and "queue_inv s" and "distinct ids"
  shows "\<exists>P. fold release_frame ids (s, acc) =
      (released s P (set ids), acc @ filter (\<lambda>i. window s i \<noteq> None) ids) \<and> ring_for s (set ids) P"
  using assms
proof (induction ids arbitrary: s acc)
  case Nil
  then show ?case by (intro exI [of _ "pending s"]) (simp add: released_none ring_for_none)
next
  case (Cons i ids)
  obtain P where P: "release_frame i (s, acc) =
      (released s P {i}, acc @ (if window s i \<noteq> None then [i] else []))" "ring_for s {i} P"
    using release_frame_eq [OF Cons.prems(1, 2)] by blast
  let ?acc = "acc @ (if window s i \<noteq> None then [i] else [])"
  obtain Q where Q: "fold release_frame ids (released s P {i}, ?acc) =
      (released (released s P {i}) Q (set ids),
       ?acc @ filter (\<lambda>j. window (released s P {i}) j \<noteq> None) ids)"
    "ring_for (released s P {i}) (set ids) Q"
    using Cons.IH [OF ring_inv_released [OF Cons.prems(1) P(2)] queue_inv_released [OF Cons.prems(2) P(2)]]
      Cons.prems(3) by fastforce
  have "filter (\<lambda>j. window (released s P {i}) j \<noteq> None) ids = filter (\<lambda>j. window s j \<noteq> None) ids"
    using Cons.prems(3) by (intro filter_cong) (auto simp: window_released [OF P(2)] restrict_map_def)
  then show ?case
    using P(1) Q(1) ring_for_trans [OF P(2) Q(2)] released_released [of s P "{i}" Q "set ids"]
    by (intro exI [of _ Q]) simp
qed

subsection \<open>Acknowledgements\<close>

definition acked_ids :: "stream_state \<Rightarrow> frame_id list \<Rightarrow> frame_id list" where
  "acked_ids s ids = filter (\<lambda>j. window s j \<noteq> None) ids"

lemma acknowledge_up_to_stale:
  "i \<le> checkpoint s \<Longrightarrow> acknowledge_up_to s i = (s, [])"
  by (simp add: acknowledge_up_to_def)

lemma acknowledge_up_to_eq:
  assumes "stream_inv s" and "checkpoint s < i"
  shows "\<exists>P. acknowledge_up_to s i =
      (let acked = acked_ids s [checkpoint s + 1..i]
       in ((released s P {checkpoint s<..i})\<lparr>checkpoint := i,
            frames_acked := saturating_add_u64 (frames_acked s) (of_nat (length acked))\<rparr>, acked)) \<and>
    ring_for s {checkpoint s<..i} P"
proof -
  have inv: "ring_inv s" "queue_inv s" using assms(1) by (auto simp: stream_inv_def)
  have set: "set [checkpoint s + 1..i] = {checkpoint s<..i}" by auto
  obtain P where P: "fold release_frame [checkpoint s + 1..i] (s, []) =
      (released s P {checkpoint s<..i}, acked_ids s [checkpoint s + 1..i])"
    "ring_for s {checkpoint s<..i} P"
    using fold_release_frame [OF inv distinct_upto, of "checkpoint s + 1" i "[]"]
    unfolding set acked_ids_def append_Nil by blast
  have f: "frames_acked (released s P {checkpoint s<..i}) = frames_acked s"
    by (simp add: released_def)
  have "\<not> i < checkpoint s + 1" using assms(2) by simp
  then show ?thesis
    using P(2) by (intro exI [of _ P])
      (simp add: acknowledge_up_to_def Let_def P(1) count_acked_def f)
qed

lemma ring_for_checkpoint:
  assumes "checkpoint s < i" and "ring_for s {checkpoint s<..i} P"
  shows "ring_ok slot_of pf_frame_id (i) (next_frame_id s) P"
proof (rule ring_ok_weaken)
  show ok: "ring_ok slot_of pf_frame_id (checkpoint s) (next_frame_id s) P"
    using assms(2) by (simp add: ring_for_def)
  fix f assume f: "Some f \<in> set P" "checkpoint s < pf_frame_id f" "pf_frame_id f < next_frame_id s"
  then have "ring_lookup slot_of pf_frame_id P (pf_frame_id f) = Some f"
    using ring.stored_iff_lookup [OF _ ok] assms(2) by (auto simp: ring_for_def)
  then have "pf_frame_id f \<notin> {checkpoint s<..i}"
    using assms(2) by (auto simp: ring_for_def restrict_map_def split: if_splits)
  with f show "i < pf_frame_id f \<and> pf_frame_id f < next_frame_id s" by auto
qed

lemma window_cong: "pending s = pending t \<Longrightarrow> window s = window t"
  by (simp add: window_def)

lemma stream_inv_cong:
  assumes "pending t = pending s" "next_frame_id t = next_frame_id s" "checkpoint t = checkpoint s"
    "send_queue t = send_queue s" "retransmit_queue t = retransmit_queue s"
    "last_media_timestamp t = last_media_timestamp s" "packetizer t = packetizer s"
    "sender_reports t = sender_reports s"
  shows "stream_inv t \<longleftrightarrow> stream_inv s"
  using assms window_cong [OF assms(1)]
  by (simp add: stream_inv_def ring_inv_def queue_inv_def media_inv_def)

lemma stream_inv_acknowledge_up_to:
  assumes "stream_inv s" and "i < next_frame_id s"
  shows "stream_inv (fst (acknowledge_up_to s i))"
proof (cases "checkpoint s < i")
  case True
  obtain P n where P: "fst (acknowledge_up_to s i) =
      (released s P {checkpoint s<..i})\<lparr>checkpoint := i, frames_acked := n\<rparr>"
    "ring_for s {checkpoint s<..i} P"
    using acknowledge_up_to_eq [OF assms(1) True] by (auto simp: Let_def)
  let ?t = "fst (acknowledge_up_to s i)"
  have inv: "ring_inv s" "queue_inv s" "media_inv s" using assms(1) by (auto simp: stream_inv_def)
  have w: "window ?t = window (released s P {checkpoint s<..i})"
    by (rule window_cong) (simp add: P(1))
  have "ring_inv ?t"
    using ring_invD [OF inv(1)] ring_for_checkpoint [OF True P(2)] assms(2) True P(2)
    by (simp add: ring_inv_def P(1) ring_for_def)
  moreover have "queue_inv ?t"
    using queue_inv_released [OF inv(2) P(2)] unfolding queue_inv_def w by (simp add: P(1))
  moreover have "media_inv ?t"
    using media_inv_released [OF inv(3) P(2)] unfolding media_inv_def w by (simp add: P(1))
  ultimately show ?thesis
    using assms(1) by (simp add: stream_inv_def P(1))
qed (use assms in \<open>simp add: acknowledge_up_to_stale\<close>)

text \<open>Bit \<open>n\<close> of the vector, counted from the least significant bit of the first byte, stands for
  the frame \<open>n + 2\<close> after the checkpoint.\<close>

lemma bitvector_ids_eq:
  "bitvector_ids cp data =
     map (\<lambda>n. cp + 2 + int n) (filter (\<lambda>n. bit (data ! (n div 8)) (n mod 8)) [0..<8 * length data])"
proof -
  let ?g = "\<lambda>k. map (\<lambda>b. cp + int (2 + k * 8 + b)) (filter (\<lambda>b. data ! k AND push_bit b 1 \<noteq> 0) [0..<8])"
  have byte: "?g k = map (\<lambda>n. cp + 2 + int n)
      (filter (\<lambda>n. bit (data ! (n div 8)) (n mod 8)) [8 * k..<8 * k + 8])" for k
  proof -
    have u: "[8 * k..<8 * k + 8] = map (\<lambda>b. 8 * k + b) [0..<8]"
      using map_add_upt [of "8 * k" 8] by (simp add: add.commute del: upt_rec_numeral)
    have "filter (\<lambda>b. data ! k AND push_bit b 1 \<noteq> 0) [0..<8] =
        filter (\<lambda>b. bit (data ! ((8 * k + b) div 8)) ((8 * k + b) mod 8)) [0..<8]"
      by (rule filter_cong) (auto simp: bit_iff_and_push_bit_not_eq_0)
    then show ?thesis
      unfolding u by (simp add: filter_map o_def algebra_simps del: upt_rec_numeral push_bit_of_1)
  qed
  have "concat (map ?g [0..<m]) = map (\<lambda>n. cp + 2 + int n)
      (filter (\<lambda>n. bit (data ! (n div 8)) (n mod 8)) [0..<8 * m])" for m
  proof (induction m)
    case (Suc m)
    have "[0..<8 * Suc m] = [0..<8 * m] @ [8 * m..<8 * m + 8]"
      using upt_add_eq_append [of 0 "8 * m" 8] by (simp add: add.commute)
    with Suc byte show ?case by (simp del: upt_rec_numeral)
  qed simp
  then show ?thesis by (simp only: bitvector_ids_def)
qed

lemma distinct_bitvector_ids: "distinct (bitvector_ids cp data)"
  by (simp add: bitvector_ids_eq distinct_map inj_on_def)

lemma fold_release_sent_frame:
  "fold release_sent_frame ids sa =
     fold release_frame (filter (\<lambda>i. i < next_frame_id (fst sa)) ids) sa"
proof (induction ids arbitrary: sa)
  case (Cons i ids)
  have "next_frame_id (fst (release_frame i sa)) = next_frame_id (fst sa)"
    by (simp add: release_frame_def cancel_queued_frame_def split_def Let_def)
  then show ?case by (simp add: Cons release_sent_frame_def [of i] not_less)
qed simp

lemma acknowledge_bitvector_eq:
  fixes cp :: frame_id and a :: ack_bitvector
  assumes "stream_inv s"
  defines "ids \<equiv> filter (\<lambda>i. i < next_frame_id s) (bitvector_ids cp (ack_data a))"
  shows "\<exists>P. acknowledge_bitvector s cp (Some a) =
      (let acked = acked_ids s ids
       in ((released s P (set ids))\<lparr>
             last_ack_feedback_count := Some (feedback_count a),
             last_ack_bitvector_bytes := Some (length (ack_data a)),
             frames_acked := saturating_add_u64 (frames_acked s) (of_nat (length acked))\<rparr>, acked)) \<and>
    ring_for s (set ids) P"
proof -
  let ?s = "s\<lparr>last_ack_feedback_count := Some (feedback_count a),
    last_ack_bitvector_bytes := Some (length (ack_data a))\<rparr>"
  have "stream_inv ?s" using assms(1) by (subst stream_inv_cong [of _ s]) simp_all
  then have inv: "ring_inv ?s" "queue_inv ?s" by (auto simp: stream_inv_def)
  have w: "window ?s = window s" by (rule window_cong) simp
  have d: "distinct ids" by (simp add: ids_def distinct_bitvector_ids)
  obtain P where P: "fold release_frame ids (?s, []) = (released ?s P (set ids), acked_ids s ids)"
    "ring_for ?s (set ids) P"
    using fold_release_frame [OF inv d, of "[]"] unfolding w acked_ids_def append_Nil by blast
  have "ring_for s (set ids) P" using P(2) by (simp add: ring_for_def w)
  moreover have "acknowledge_bitvector s cp (Some a) = count_acked (released ?s P (set ids), acked_ids s ids)"
    using P(1) by (simp add: acknowledge_bitvector_def fold_release_sent_frame ids_def)
  ultimately show ?thesis
    by (intro exI [of _ P]) (simp add: count_acked_def released_def Let_def)
qed

lemma stream_inv_released:
  "stream_inv s \<Longrightarrow> ring_for s ids P \<Longrightarrow> stream_inv (released s P ids)"
  by (simp add: stream_inv_def ring_inv_released queue_inv_released media_inv_released)

lemma stream_inv_acknowledge_bitvector:
  assumes "stream_inv s"
  shows "stream_inv (fst (acknowledge_bitvector s cp ack))"
proof (cases ack)
  case None
  then show ?thesis
    using assms by (simp add: acknowledge_bitvector_def) (subst stream_inv_cong [of _ s], simp_all)
next
  case (Some a)
  obtain P ids n where "fst (acknowledge_bitvector s cp ack) =
      (released s P ids)\<lparr>last_ack_feedback_count := Some (feedback_count a),
        last_ack_bitvector_bytes := Some (length (ack_data a)), frames_acked := n\<rparr>"
    "ring_for s ids P"
    using acknowledge_bitvector_eq [OF assms, of cp a] Some by (auto simp: Let_def)
  then show ?thesis
    using stream_inv_released [OF assms, of ids P] by simp (subst stream_inv_cong, simp_all)
qed

subsection \<open>Losses and transmission\<close>

lemma handle_nack_eq:
  "handle_nack s i packet_id =
     (let lost = (case window s i of
                    None \<Rightarrow> []
                  | Some f \<Rightarrow> if packet_id = ALL_PACKETS_LOST then pf_packets f
                              else if unat packet_id < length (pf_packets f)
                              then [pf_packets f ! unat packet_id] else [])
      in (s\<lparr>nack_count := saturating_add_u64 (nack_count s) 1,
            retransmit_queue := retransmit_queue s @
              map (\<lambda>packet. \<lparr>qp_frame_id = i, qp_packet = packet\<rparr>) lost\<rparr>, length lost))"
  by (auto simp: handle_nack_def window_def ring_lookup_def Let_def split: option.splits)

lemma stream_inv_handle_nack:
  assumes "stream_inv s"
  shows "stream_inv (fst (handle_nack s i packet_id))"
proof -
  have "window (fst (handle_nack s i packet_id)) = window s"
    by (rule window_cong) (simp add: handle_nack_eq Let_def)
  then show ?thesis
    using assms unfolding stream_inv_def ring_inv_def queue_inv_def media_inv_def
    by (auto simp: handle_nack_eq Let_def split: option.splits if_splits)
qed

lemma stream_inv_next_packet:
  assumes "stream_inv s"
  shows "stream_inv (fst (next_packet s))"
proof -
  have "window (fst (next_packet s)) = window s"
    by (rule window_cong) (simp add: next_packet_def split: list.splits)
  then show ?thesis
    using assms unfolding stream_inv_def ring_inv_def queue_inv_def media_inv_def
    by (auto simp: next_packet_def split: list.splits)
qed

subsection \<open>Accepting frames\<close>

definition accepts_frame :: "stream_state \<Rightarrow> encoded_frame \<Rightarrow> bool" where
  "accepts_frame s frame \<longleftrightarrow>
     frame_data frame \<noteq> [] \<and>
     (next_frame_id s = 0 \<longrightarrow> dependency frame = KeyFrame) \<and>
     (\<forall>t. last_media_timestamp s = Some t \<longrightarrow> t < media_timestamp frame) \<and>
     in_flight_id_span s < MAX_UNACKED_FRAMES"

definition frame_header :: "stream_state \<Rightarrow> encoded_frame \<Rightarrow> rtp_frame" where
  "frame_header s frame =
     \<lparr>rf_frame_id = next_frame_id s, rf_is_key = (dependency frame = KeyFrame),
      rf_referenced = (if dependency frame = KeyFrame then next_frame_id s else next_frame_id s - 1),
      rf_timestamp = media_to_rtp_timestamp (media_timestamp frame) (rtp_timebase s),
      rf_delay = pending_playout_delay s\<rparr>"

definition frame_packets :: "cipher \<Rightarrow> stream_state \<Rightarrow> encoded_frame \<Rightarrow> bytes list" where
  "frame_packets ap s frame =
     (let data = encrypt ap (crypto s) (next_frame_id s) (frame_data frame)
      in map (packet_at (packetizer s) (frame_header s frame) data)
           [0..<packet_count (packetizer s) data])"

definition frame_pending :: "cipher \<Rightarrow> stream_state \<Rightarrow> encoded_frame \<Rightarrow> pending_frame" where
  "frame_pending ap s frame =
     \<lparr>pf_frame_id = next_frame_id s, pf_media_timestamp = media_timestamp frame,
      pf_duration = frame_duration frame, pf_packets = frame_packets ap s frame\<rparr>"

definition accepted_state :: "cipher \<Rightarrow> stream_state \<Rightarrow> encoded_frame \<Rightarrow> stream_state" where
  "accepted_state ap s frame =
     queue_frame s frame (next_frame_id s)
       (media_to_rtp_timestamp (media_timestamp frame) (rtp_timebase s))
       ((packetizer s)\<lparr>sequence_number :=
          sequence_number (packetizer s) + of_nat (length (frame_packets ap s frame))\<rparr>)
       (frame_packets ap s frame) (next_frame_id s + 1)"

lemma enqueue_frame_rejects:
  assumes "\<not> accepts_frame s frame"
  shows "\<exists>e. enqueue_frame ap s frame = reject_frame s e"
  using assms
  by (auto simp: enqueue_frame_def accepts_frame_def frame_id_first_def not_less split: option.splits)

lemma accepts_frame_guards:
  assumes "accepts_frame s frame"
  shows "frame_data frame \<noteq> []" "\<not> (next_frame_id s = frame_id_first \<and> dependency frame \<noteq> KeyFrame)"
    "\<not> (case last_media_timestamp s of None \<Rightarrow> False | Some t \<Rightarrow> media_timestamp frame \<le> t)"
    "\<not> MAX_UNACKED_FRAMES \<le> in_flight_id_span s"
  using assms by (auto simp: accepts_frame_def frame_id_first_def split: option.splits)

lemma enqueue_frame_accepts:
  assumes "accepts_frame s frame" and "0 < max_payload_size (packetizer s)"
    and "next_frame_id s < 2 ^ 63 - 1"
  shows "enqueue_frame ap s frame = (accepted_state ap s frame, Inr (next_frame_id s))"
  using assms(2, 3) accepts_frame_guards [OF assms(1)]
  by (auto simp: enqueue_frame_def packetize_eq frame_id_next_def accepted_state_def
      frame_packets_def frame_header_def Let_def)

lemma enqueue_frame_overflows:
  assumes "accepts_frame s frame" and "0 < max_payload_size (packetizer s)"
    and "\<not> next_frame_id s < 2 ^ 63 - 1"
  shows "enqueue_frame ap s frame = (s, Inl Panic)"
  using assms(2, 3) accepts_frame_guards [OF assms(1)]
  by (auto simp: enqueue_frame_def packetize_eq frame_id_next_def Let_def)

lemma accepted_state_simps [simp]:
  "next_frame_id (accepted_state ap s f) = next_frame_id s + 1"
  "checkpoint (accepted_state ap s f) = checkpoint s"
  "send_queue (accepted_state ap s f) = send_queue s @
     map (\<lambda>packet. \<lparr>qp_frame_id = next_frame_id s, qp_packet = packet\<rparr>) (frame_packets ap s f)"
  "retransmit_queue (accepted_state ap s f) = retransmit_queue s"
  "last_media_timestamp (accepted_state ap s f) = Some (media_timestamp f)"
  "sender_reports (accepted_state ap s f) = sender_reports s"
  "max_payload_size (packetizer (accepted_state ap s f)) = max_payload_size (packetizer s)"
  "pending (accepted_state ap s f) =
     (pending s)[slot_of (next_frame_id s) := Some (frame_pending ap s f)]"
  by (simp_all add: accepted_state_def queue_frame_def frame_pending_def)

lemma accepted_ring:
  assumes "ring_inv s" and "accepts_frame s frame" and "next_frame_id s < 2 ^ 63 - 1"
  shows "ring_inv (accepted_state ap s frame)"
    and "window (accepted_state ap s frame) = (window s)(next_frame_id s \<mapsto> frame_pending ap s frame)"
proof -
  have span: "next_frame_id s - (checkpoint s + 1) < int MAX_UNACKED_FRAMES"
    using assms(2) in_flight_id_span_eq [OF assms(1)] ring_invD(3) [OF assms(1)]
    by (auto simp: accepts_frame_def)
  have ids: "{checkpoint s<..next_frame_id s} \<subseteq> {0..<2 ^ 63}"
    using ring_invD [OF assms(1)] by auto
  note put = ring.put_next [OF ring_invD(1, 2) [OF assms(1)] ids _ ring_invD(3) [OF assms(1)],
      of "frame_pending ap s frame"]
  show "ring_inv (accepted_state ap s frame)"
    using put(1) span assms(3) ring_invD [OF assms(1)]
    by (simp add: ring_inv_def frame_pending_def)
  show "window (accepted_state ap s frame) = (window s)(next_frame_id s \<mapsto> frame_pending ap s frame)"
    using put(2) span by (simp add: window_def frame_pending_def)
qed

lemma stream_inv_accepted:
  assumes "stream_inv s" and "accepts_frame s frame" and "next_frame_id s < 2 ^ 63 - 1"
  shows "stream_inv (accepted_state ap s frame)"
proof -
  have inv: "ring_inv s" "queue_inv s" "media_inv s" using assms(1) by (auto simp: stream_inv_def)
  note w = accepted_ring(2) [OF inv(1) assms(2, 3), of ap]
  have old: "i < next_frame_id s" if "window s i = Some f" for i f
    using window_range(2) [OF inv(1) that] .
  have "queue_inv (accepted_state ap s frame)"
    using inv(2) old unfolding queue_inv_def w by (fastforce simp: frame_pending_def)
  moreover have "media_inv (accepted_state ap s frame)"
    using inv(3) assms(2) old ring_invD(3, 4) [OF inv(1)] unfolding media_inv_def w
    by (fastforce simp: frame_pending_def accepts_frame_def split: if_splits)
  ultimately show ?thesis
    using accepted_ring(1) [OF inv(1) assms(2, 3)] assms(1) by (simp add: stream_inv_def)
qed

lemma stream_inv_enqueue_frame:
  assumes "stream_inv s"
  shows "stream_inv (fst (enqueue_frame ap s frame))"
proof -
  have "0 < max_payload_size (packetizer s)" using assms by (simp add: stream_inv_def)
  moreover have "stream_inv (fst (reject_frame s e))" for e
    using assms by (simp add: reject_frame_def) (subst stream_inv_cong [of _ s], simp_all)
  ultimately show ?thesis
    using assms stream_inv_accepted [OF assms] enqueue_frame_rejects [of s frame ap]
      enqueue_frame_accepts [of s frame ap] enqueue_frame_overflows [of s frame ap]
    by (cases "accepts_frame s frame"; cases "next_frame_id s < 2 ^ 63 - 1") auto
qed

end
