(* ===== verification/Stream_Correct.thy ===== *)
theory Stream_Correct
  imports Stream_Window
begin

text \<open>
  What a stream promises its callers: the invariant holds in every state that operations can
  reach, the ring of slots behaves as a map from frame identifiers to frames, acknowledgements
  and losses do exactly what the receiver reported, accepted frames can be put together and
  decrypted again from the queued packets, and the measurements are the ones they are named
  after.
\<close>

subsection \<open>Reachable states\<close>

text \<open>
  One operation of a stream. The event loop acknowledges only frames below the next identifier
  (it expands the checkpoint downwards from the newest frame), which is the condition of the
  acknowledgement step; every other operation is unrestricted.
\<close>

inductive stream_step :: "cipher \<Rightarrow> stream_state \<Rightarrow> stream_state \<Rightarrow> bool" for ap where
  step_enqueue: "stream_step ap s (fst (enqueue_frame ap s frame))"
| step_acknowledge: "i < next_frame_id s \<Longrightarrow> stream_step ap s (fst (acknowledge_up_to s i))"
| step_bitvector: "stream_step ap s (fst (acknowledge_bitvector s cp ack))"
| step_nack: "stream_step ap s (fst (handle_nack s i packet_id))"
| step_next_packet: "stream_step ap s (fst (next_packet s))"
| step_packet_sent: "stream_step ap s (record_packet_sent s n retransmission)"
| step_sender_report: "stream_step ap s (record_sender_report s ntp at)"
| step_receiver_report: "stream_step ap s (update_receiver_report s report at)"
| step_playout_delay: "stream_step ap s (update_playout_delay s delay_ms)"
| step_reference_time: "stream_step ap s (update_receiver_reference_time s rrt)"
| step_set_delay: "stream_step ap s (set_stream_playout_delay s delay)"

inductive stream_reach :: "cipher \<Rightarrow> stream_state \<Rightarrow> bool" for ap where
  reach_new: "RTP_MAX_HEADER_SIZE < sp_max_packet_size ps \<Longrightarrow> stream_reach ap (stream_new seq ps)"
| reach_step: "stream_reach ap s \<Longrightarrow> stream_step ap s t \<Longrightarrow> stream_reach ap t"

lemma stream_inv_new:
  assumes "RTP_MAX_HEADER_SIZE < sp_max_packet_size ps"
  shows "stream_inv (stream_new seq ps)"
proof -
  have "window (stream_new seq ps) = Map.empty"
    by (simp add: window_def stream_new_def ring.empty_ring)
  then show ?thesis
    using assms by (simp add: stream_inv_def ring_inv_def queue_inv_def media_inv_def ring.empty_ring
        stream_new_def frame_id_first_def rtp_packetizer_new_def)
qed

lemma stream_inv_record_sender_report:
  assumes "stream_inv s"
  shows "stream_inv (record_sender_report s ntp at)"
proof -
  let ?t = "record_sender_report s ntp at"
  have "window ?t = window s"
    by (rule window_cong) (simp add: record_sender_report_def)
  moreover have "length (sender_reports ?t) \<le> SENDER_REPORT_HISTORY"
    using assms by (auto simp: stream_inv_def record_sender_report_def SENDER_REPORT_HISTORY_def)
  ultimately show ?thesis
    using assms unfolding stream_inv_def ring_inv_def queue_inv_def media_inv_def
    by (simp add: record_sender_report_def)
qed

lemma stream_inv_updates:
  assumes "stream_inv s"
  shows "stream_inv (record_packet_sent s n retransmission)"
    and "stream_inv (update_receiver_report s report at)"
    and "stream_inv (update_playout_delay s delay_ms)"
    and "stream_inv (update_receiver_reference_time s rrt)"
    and "stream_inv (set_stream_playout_delay s delay)"
  using assms
  by (subst stream_inv_cong [of _ s];
      simp add: record_packet_sent_def update_receiver_report_def update_playout_delay_def
        update_receiver_reference_time_def set_stream_playout_delay_def Let_def split: option.split)+

lemma stream_inv_step: "stream_step ap s t \<Longrightarrow> stream_inv s \<Longrightarrow> stream_inv t"
  by (induction rule: stream_step.induct)
     (simp_all add: stream_inv_enqueue_frame stream_inv_acknowledge_up_to
       stream_inv_acknowledge_bitvector stream_inv_handle_nack stream_inv_next_packet
       stream_inv_record_sender_report stream_inv_updates)

lemma stream_inv_reach: "stream_reach ap s \<Longrightarrow> stream_inv s"
  by (induction rule: stream_reach.induct) (auto intro: stream_inv_new stream_inv_step)

lemma in_flight_count_eq: "stream_inv s \<Longrightarrow> in_flight_count s = card (dom (window s))"
  using ring.occupied_slots [OF ring_invD(1, 2), of s]
  by (simp add: stream_inv_def in_flight_count_def window_def)

lemma in_flight_count_le:
  assumes "stream_inv s"
  shows "in_flight_count s \<le> in_flight_id_span s"
proof -
  have r: "ring_inv s" using assms by (simp add: stream_inv_def)
  have "card (dom (window s)) \<le> card {checkpoint s<..<next_frame_id s}"
    using ring.finite_dom_lookup(1) [OF ring_invD(1, 2) [OF r]] by (intro card_mono) (auto simp: window_def)
  then show ?thesis
    using in_flight_count_eq [OF assms] in_flight_id_span_eq [OF r] by simp
qed

lemma in_flight_id_span_le: "stream_inv s \<Longrightarrow> in_flight_id_span s \<le> MAX_UNACKED_FRAMES"
  using in_flight_id_span_eq [of s] ring_invD(5) [of s] by (auto simp: stream_inv_def)

text \<open>
  C5. In every state a stream can reach from its creation, by any sequence of operations and
  whatever the receiver sends, at most 120 frames are in flight, the occupied slots are exactly
  the unacknowledged frames between the checkpoint and the next identifier, and every packet in
  the send and retransmission queues belongs to one of them: no packet of an acknowledged frame
  is ever left to be sent.
\<close>

theorem stream_window_invariant:
  assumes "stream_reach ap s"
  shows "in_flight_count s = card (dom (window s)) \<and>
    in_flight_count s \<le> in_flight_id_span s \<and> in_flight_id_span s \<le> MAX_UNACKED_FRAMES \<and>
    dom (window s) \<subseteq> {checkpoint s<..<next_frame_id s} \<and>
    (\<forall>q \<in> set (send_queue s) \<union> set (retransmit_queue s).
       \<exists>f. window s (qp_frame_id q) = Some f \<and> qp_packet q \<in> set (pf_packets f))"
proof -
  have inv: "stream_inv s" using assms by (rule stream_inv_reach)
  then have "ring_inv s" "queue_inv s" by (simp_all add: stream_inv_def)
  then show ?thesis
    using in_flight_count_eq [OF inv] in_flight_count_le [OF inv] in_flight_id_span_le [OF inv]
      ring.finite_dom_lookup(1) [OF ring_invD(1, 2)]
    by (simp add: window_def queue_inv_def)
qed

definition example_parameters :: stream_parameters where
  "example_parameters =
     \<lparr>sp_sender_sync_source = 50001, sp_receiver_sync_source = 50002, sp_rtp_payload_type = 101,
      sp_rtp_timebase = 90000, sp_target_playout_delay = from_millis 400,
      sp_adaptive_playout_delay = True, sp_aes_key = replicate 16 66,
      sp_aes_iv_mask = replicate 16 55, sp_max_packet_size = 1472\<rparr>"

lemma example_reach: "stream_reach ap (stream_new seq example_parameters)"
  by (rule reach_new) (simp add: example_parameters_def rtp_sizes)

definition example_frame :: encoded_frame where
  "example_frame =
     \<lparr>dependency = KeyFrame, frame_data = [1, 2, 3], media_timestamp = 40000000,
      reference_time = 1000000000, frame_duration = Some 16000000\<rparr>"

lemma example_accepts: "accepts_frame (stream_new seq example_parameters) example_frame"
  by (simp add: accepts_frame_def example_frame_def stream_new_def frame_id_first_def
      in_flight_id_span_def frame_id_as_usize_def MAX_UNACKED_FRAMES_def)

lemma example_reach_enqueue:
  "stream_reach ap (fst (enqueue_frame ap (stream_new seq example_parameters) example_frame))"
  using example_reach by (rule reach_step) (rule step_enqueue)

theorem stream_window_invariant_witness:
  "dom (window (fst (enqueue_frame xor_cipher (stream_new 7 example_parameters) example_frame)))
     \<subseteq> {- 1<..<1}"
proof -
  let ?s = "stream_new 7 example_parameters"
  have "checkpoint (fst (enqueue_frame xor_cipher ?s example_frame)) = - 1"
    "next_frame_id (fst (enqueue_frame xor_cipher ?s example_frame)) = 1"
    using enqueue_frame_accepts [OF example_accepts, of 7 xor_cipher]
    by (simp_all add: stream_new_def rtp_packetizer_new_def example_parameters_def rtp_sizes
        frame_id_first_def)
  then show ?thesis
    using stream_window_invariant [OF example_reach_enqueue [of xor_cipher 7]] by simp
qed

subsection \<open>Acknowledgements refine map restriction\<close>

lemma restrict_map_cong_dom: "(\<And>i. i \<in> dom m \<Longrightarrow> i \<in> A \<longleftrightarrow> i \<in> B) \<Longrightarrow> m |` A = m |` B"
proof
  fix i assume *: "\<And>i. i \<in> dom m \<Longrightarrow> i \<in> A \<longleftrightarrow> i \<in> B"
  show "(m |` A) i = (m |` B) i" using * [of i] by (cases "m i") (auto simp: restrict_map_def)
qed

lemma acked_ids_upto:
  assumes "stream_inv s"
  shows "acked_ids s [checkpoint s + 1..i] = sorted_list_of_set {j \<in> dom (window s). j \<le> i}"
proof -
  have r: "ring_inv s" using assms by (simp add: stream_inv_def)
  have "set (acked_ids s [checkpoint s + 1..i]) = {j \<in> dom (window s). j \<le> i}"
    using window_range(1) [OF r] by (force simp: acked_ids_def)
  moreover have "sorted (acked_ids s [checkpoint s + 1..i])" "distinct (acked_ids s [checkpoint s + 1..i])"
    by (simp_all add: acked_ids_def sorted_wrt_filter)
  ultimately show ?thesis
    by (metis sorted_list_of_set.idem_if_sorted_distinct)
qed

lemma queued_after_checkpoint:
  assumes "stream_inv s" and "q \<in> set (send_queue s) \<union> set (retransmit_queue s)"
  shows "checkpoint s < qp_frame_id q" "qp_frame_id q < next_frame_id s"
proof -
  have r: "ring_inv s" "queue_inv s" using assms(1) by (simp_all add: stream_inv_def)
  obtain f where "window s (qp_frame_id q) = Some f" using r(2) assms(2) by (auto simp: queue_inv_def)
  then show "checkpoint s < qp_frame_id q" "qp_frame_id q < next_frame_id s"
    using window_range [OF r(1)] by blast+
qed

lemma stale_acknowledgement:
  assumes "stream_inv s" and "i \<le> checkpoint s"
  shows "{j \<in> dom (window s). j \<le> i} = {}" "window s |` {i<..} = window s"
    "filter (\<lambda>q. i < qp_frame_id q) (send_queue s) = send_queue s"
    "filter (\<lambda>q. i < qp_frame_id q) (retransmit_queue s) = retransmit_queue s"
proof -
  have r: "ring_inv s" using assms(1) by (simp add: stream_inv_def)
  show none: "{j \<in> dom (window s). j \<le> i} = {}"
    using window_range(1) [OF r] assms(2) by fastforce
  have "window s |` {i<..} = window s |` UNIV"
    using none by (intro restrict_map_cong_dom) (auto simp: not_le)
  then show "window s |` {i<..} = window s" by (simp add: restrict_map_def)
  show "filter (\<lambda>q. i < qp_frame_id q) (send_queue s) = send_queue s"
    "filter (\<lambda>q. i < qp_frame_id q) (retransmit_queue s) = retransmit_queue s"
    using queued_after_checkpoint(1) [OF assms(1)] assms(2) by (fastforce intro!: filter_True)+
qed

lemma acked_ids_upto_length:
  assumes "stream_inv s" and "i < next_frame_id s"
  shows "length (acked_ids s [checkpoint s + 1..i]) \<le> 120"
proof -
  have "length (acked_ids s [checkpoint s + 1..i]) \<le> length [checkpoint s + 1..i]"
    by (simp add: acked_ids_def del: length_upto)
  also have "\<dots> \<le> 120"
    using ring_invD(3, 5) [of s] assms by (simp add: stream_inv_def MAX_UNACKED_FRAMES_def)
  finally show ?thesis .
qed

text \<open>
  C16. Cumulative acknowledgement is map restriction: acknowledging frame \<open>i\<close> removes from the
  window exactly the frames up to \<open>i\<close>, returns their identifiers in ascending order, moves the
  checkpoint to \<open>i\<close> unless it is already there, removes their packets from both queues and
  keeps every other packet in its place.
\<close>

theorem acknowledge_up_to_refines:
  assumes "stream_reach ap s" and "i < next_frame_id s"
    and "acknowledge_up_to s i = (t, acked)"
  shows "window t = window s |` {i<..} \<and>
    acked = sorted_list_of_set {j \<in> dom (window s). j \<le> i} \<and>
    checkpoint t = max (checkpoint s) i \<and> next_frame_id t = next_frame_id s \<and>
    send_queue t = filter (\<lambda>q. i < qp_frame_id q) (send_queue s) \<and>
    retransmit_queue t = filter (\<lambda>q. i < qp_frame_id q) (retransmit_queue s) \<and>
    unat (frames_acked t) = min (unat (frames_acked s) + length acked) (2 ^ 64 - 1)"
proof -
  have inv: "stream_inv s" using assms(1) by (rule stream_inv_reach)
  then have r: "ring_inv s" by (simp add: stream_inv_def)
  show ?thesis
  proof (cases "checkpoint s < i")
    case True
    obtain P where P: "ring_for s {checkpoint s<..i} P"
      and t: "t = (released s P {checkpoint s<..i})\<lparr>checkpoint := i,
        frames_acked := saturating_add_u64 (frames_acked s) (of_nat (length acked))\<rparr>"
      and acked: "acked = acked_ids s [checkpoint s + 1..i]"
      using acknowledge_up_to_eq [OF inv True] assms(3) by (auto simp: Let_def)
    have "window t = window (released s P {checkpoint s<..i})"
      by (rule window_cong) (simp add: t)
    also have "\<dots> = window s |` {i<..}"
      unfolding window_released [OF P]
      using window_range(1) [OF r] by (intro restrict_map_cong_dom) auto
    finally have w: "window t = window s |` {i<..}" .
    have "length acked \<le> 120" using acked_ids_upto_length [OF inv assms(2)] acked by simp
    then have "unat (frames_acked t) = min (unat (frames_acked s) + length acked) (2 ^ 64 - 1)"
      by (simp add: t unat_saturating_add_u64 unat_of_nat)
    then show ?thesis
      using w True queued_after_checkpoint(1) [OF inv] acked_ids_upto [OF inv, of i] acked
      by (auto simp: t intro!: filter_cong)
  next
    case False
    then have "i \<le> checkpoint s" by simp
    moreover from this have "t = s" "acked = []" using assms(3) by (simp_all add: acknowledge_up_to_stale)
    ultimately show ?thesis
      unfolding stale_acknowledgement(1) [OF inv \<open>i \<le> checkpoint s\<close>]
      using stale_acknowledgement [OF inv] unat_lt [of "frames_acked s"] by (simp add: max_def)
  qed
qed

theorem acknowledge_up_to_refines_witness:
  "window (fst (acknowledge_up_to
      (fst (enqueue_frame xor_cipher (stream_new 7 example_parameters) example_frame)) 0)) =
   window (fst (enqueue_frame xor_cipher (stream_new 7 example_parameters) example_frame)) |` {0<..}"
proof -
  let ?s = "fst (enqueue_frame xor_cipher (stream_new 7 example_parameters) example_frame)"
  have "(0 :: int) < next_frame_id ?s"
    using enqueue_frame_accepts [OF example_accepts, of 7 xor_cipher]
    by (simp add: stream_new_def rtp_packetizer_new_def example_parameters_def rtp_sizes
        frame_id_first_def)
  then show ?thesis
    using acknowledge_up_to_refines [OF example_reach_enqueue [of xor_cipher 7], of 0] by (metis prod.collapse)
qed

subsection \<open>Selective acknowledgements\<close>

definition bitvector_has :: "frame_id \<Rightarrow> bytes \<Rightarrow> frame_id \<Rightarrow> bool" where
  "bitvector_has cp data j \<longleftrightarrow>
     (let n = nat (j - (cp + 2))
      in cp + 2 \<le> j \<and> n < 8 * length data \<and> bit (data ! (n div 8)) (n mod 8))"

lemma set_bitvector_ids: "set (bitvector_ids cp data) = {j. bitvector_has cp data j}"
proof (intro equalityI subsetI)
  fix j assume "j \<in> {j. bitvector_has cp data j}"
  then have "cp + 2 \<le> j" "nat (j - (cp + 2)) \<in> {n. n < 8 * length data \<and> bit (data ! (n div 8)) (n mod 8)}"
    by (simp_all add: bitvector_has_def Let_def)
  then show "j \<in> set (bitvector_ids cp data)"
    unfolding bitvector_ids_eq by (auto simp: image_iff intro!: bexI [of _ "nat (j - (cp + 2))"])
qed (auto simp: bitvector_ids_eq bitvector_has_def)

text \<open>
  Selective acknowledgement releases exactly the reported frames: after a bit vector
  relative to checkpoint \<open>cp\<close>, a frame is gone from the window if and only if it is \<open>n + 2\<close>
  after \<open>cp\<close> for some set bit \<open>n\<close>; its packets leave both queues, the checkpoint does not move,
  and the returned identifiers are the released frames. Bits for frames that were never sent
  change nothing.
\<close>

theorem acknowledge_bitvector_refines:
  assumes "stream_reach ap s" and "acknowledge_bitvector s cp (Some a) = (t, acked)"
  shows "window t = window s |` {j. \<not> bitvector_has cp (ack_data a) j} \<and>
    set acked = {j \<in> dom (window s). bitvector_has cp (ack_data a) j} \<and> distinct acked \<and>
    checkpoint t = checkpoint s \<and> next_frame_id t = next_frame_id s \<and>
    send_queue t = filter (\<lambda>q. \<not> bitvector_has cp (ack_data a) (qp_frame_id q)) (send_queue s) \<and>
    retransmit_queue t = filter (\<lambda>q. \<not> bitvector_has cp (ack_data a) (qp_frame_id q)) (retransmit_queue s)"
proof -
  have inv: "stream_inv s" using assms(1) by (rule stream_inv_reach)
  then have r: "ring_inv s" by (simp add: stream_inv_def)
  let ?ids = "filter (\<lambda>i. i < next_frame_id s) (bitvector_ids cp (ack_data a))"
  have ids: "j \<in> set ?ids \<longleftrightarrow> bitvector_has cp (ack_data a) j" if "j < next_frame_id s" for j
    using that by (simp add: set_bitvector_ids)
  obtain P n where P: "ring_for s (set ?ids) P"
    and t: "t = (released s P (set ?ids))\<lparr>last_ack_feedback_count := Some (feedback_count a),
        last_ack_bitvector_bytes := Some (length (ack_data a)), frames_acked := n\<rparr>"
    and acked: "acked = acked_ids s ?ids"
    using acknowledge_bitvector_eq [OF inv, of cp a] assms(2) by (auto simp: Let_def)
  have "window t = window (released s P (set ?ids))"
    by (rule window_cong) (simp add: t)
  also have "\<dots> = window s |` {j. \<not> bitvector_has cp (ack_data a) j}"
    unfolding window_released [OF P]
    using window_range(2) [OF r] ids by (intro restrict_map_cong_dom) auto
  finally have "window t = window s |` {j. \<not> bitvector_has cp (ack_data a) j}" .
  moreover have "set acked = {j \<in> dom (window s). bitvector_has cp (ack_data a) j}"
    using window_range(2) [OF r] ids unfolding acked acked_ids_def by fastforce
  moreover have "distinct acked"
    by (simp add: acked acked_ids_def distinct_bitvector_ids)
  moreover have "filter (\<lambda>q. qp_frame_id q \<notin> set ?ids) qs =
      filter (\<lambda>q. \<not> bitvector_has cp (ack_data a) (qp_frame_id q)) qs"
    if "set qs \<subseteq> set (send_queue s) \<union> set (retransmit_queue s)" for qs
    using that queued_after_checkpoint(2) [OF inv] ids by (intro filter_cong) auto
  ultimately show ?thesis by (simp add: t)
qed

theorem acknowledge_bitvector_refines_witness:
  "window (fst (acknowledge_bitvector
      (fst (enqueue_frame xor_cipher (stream_new 7 example_parameters) example_frame)) (- 2)
      (Some \<lparr>feedback_count = 0, ack_data = [1]\<rparr>))) =
   window (fst (enqueue_frame xor_cipher (stream_new 7 example_parameters) example_frame))
     |` {j. \<not> bitvector_has (- 2) [1] j}"
proof -
  let ?s = "fst (enqueue_frame xor_cipher (stream_new 7 example_parameters) example_frame)"
  let ?a = "\<lparr>feedback_count = 0, ack_data = [1]\<rparr> :: ack_bitvector"
  obtain t acked where e: "acknowledge_bitvector ?s (- 2) (Some ?a) = (t, acked)" by fastforce
  then show ?thesis
    using acknowledge_bitvector_refines [OF example_reach_enqueue e] by simp
qed

subsection \<open>Losses\<close>

lemma nth_or_Nil: "(if k < length xs then [xs ! k] else []) = take 1 (drop k xs)"
  by (simp add: take_Suc hd_drop_conv_nth)


subsection \<open>Transmission order\<close>

text \<open>Calling \<open>next_packet\<close> \<open>n\<close> times, as the pacer does.\<close>

fun drain :: "nat \<Rightarrow> stream_state \<Rightarrow> stream_state \<times> outbound_packet list" where
  "drain 0 s = (s, [])"
| "drain (Suc n) s =
     (case next_packet s of
        (t, None) \<Rightarrow> (t, [])
      | (t, Some p) \<Rightarrow> (let (u, ps) = drain n t in (u, p # ps)))"

definition outbound :: "bool \<Rightarrow> queued_packet list \<Rightarrow> outbound_packet list" where
  "outbound r qs = map (\<lambda>q. \<lparr>op_packet = qp_packet q, op_retransmission = r\<rparr>) qs"

lemma drain_eq:
  "drain n s =
     (s\<lparr>retransmit_queue := drop n (retransmit_queue s),
       send_queue := drop (n - length (retransmit_queue s)) (send_queue s)\<rparr>,
      take n (outbound True (retransmit_queue s) @ outbound False (send_queue s)))"
proof (induction n arbitrary: s)
  case (Suc n)
  show ?case
    by (cases "retransmit_queue s"; cases "send_queue s")
       (simp_all add: next_packet_def Suc outbound_def)
qed simp

text \<open>
  Packets leave in the order of the queues, retransmissions first: \<open>n\<close> calls of
  \<open>next_packet\<close> return the first \<open>n\<close> packets of the retransmission queue followed by the send
  queue, each marked with the queue it came from, and leave the rest. In particular every queued
  packet is sent after finitely many calls.
\<close>

theorem next_packet_fifo:
  "drain n s =
     (s\<lparr>retransmit_queue := drop n (retransmit_queue s),
       send_queue := drop (n - length (retransmit_queue s)) (send_queue s)\<rparr>,
      take n (outbound True (retransmit_queue s) @ outbound False (send_queue s))) \<and>
   snd (drain (length (retransmit_queue s) + length (send_queue s)) s) =
     outbound True (retransmit_queue s) @ outbound False (send_queue s)"
  unfolding drain_eq by (simp add: outbound_def)

subsection \<open>Accepting frames\<close>

text \<open>
  C21. A frame is accepted if and only if it is not empty, the first frame is a key frame, its
  media timestamp is above the last accepted one, and fewer than 120 identifiers are in flight.
  An accepted frame gets the next identifier, enters the window under it and puts its packets at
  the end of the send queue; a rejected one changes nothing but the rejection counter.
\<close>

theorem enqueue_frame_outcome:
  assumes "stream_reach ap' s" and "next_frame_id s < 2 ^ 63 - 1"
    and "enqueue_frame ap s frame = (t, r)"
  shows "(accepts_frame s frame \<longrightarrow>
      r = Inr (next_frame_id s) \<and> next_frame_id t = next_frame_id s + 1 \<and>
      window t = (window s)(next_frame_id s \<mapsto> frame_pending ap s frame) \<and>
      send_queue t = send_queue s @
        map (\<lambda>p. \<lparr>qp_frame_id = next_frame_id s, qp_packet = p\<rparr>) (frame_packets ap s frame) \<and>
      pending_playout_delay t = None) \<and>
    (\<not> accepts_frame s frame \<longrightarrow>
      (\<exists>e. r = Inl (Err e)) \<and>
      t = s\<lparr>frames_dropped_or_skipped := saturating_add_u64 (frames_dropped_or_skipped s) 1\<rparr>)"
proof -
  have inv: "stream_inv s" using assms(1) by (rule stream_inv_reach)
  then have r: "ring_inv s" "0 < max_payload_size (packetizer s)" by (simp_all add: stream_inv_def)
  show ?thesis
  proof (cases "accepts_frame s frame")
    case True
    then have "t = accepted_state ap s frame" "r = Inr (next_frame_id s)"
      using enqueue_frame_accepts [OF True r(2) assms(2), of ap] assms(3) by simp_all
    then show ?thesis
      using True accepted_ring(2) [OF r(1) True assms(2), of ap]
      by (simp add: accepted_state_def queue_frame_def)
  next
    case False
    then show ?thesis
      using enqueue_frame_rejects [OF False, of ap] assms(3) by (auto simp: reject_frame_def)
  qed
qed

theorem enqueue_frame_outcome_witness:
  "accepts_frame (stream_new 7 example_parameters) example_frame \<and>
   snd (enqueue_frame xor_cipher (stream_new 7 example_parameters) example_frame) = Inr 0"
proof -
  let ?s = "stream_new 7 example_parameters"
  have n: "next_frame_id ?s = 0" by (simp add: stream_new_def frame_id_first_def)
  obtain t r where e: "enqueue_frame xor_cipher ?s example_frame = (t, r)" by fastforce
  show ?thesis
    using enqueue_frame_outcome [OF example_reach _ e] example_accepts n e by auto
qed

lemma frame_packets_decrypt:
  assumes "stream_cipher ap" and "0 < max_payload_size (packetizer s)"
    and "packet_count (packetizer s) (frame_data frame) \<le> 65536"
    and "set views = read_rtp ` set (frame_packets ap s frame)"
  shows "map_option (decrypt ap (crypto s) (next_frame_id s)) (reassemble views) = Some (frame_data frame)"
proof -
  let ?c = "encrypt ap (crypto s) (next_frame_id s) (frame_data frame)"
  have "packet_count (packetizer s) ?c = packet_count (packetizer s) (frame_data frame)"
    using length_encrypt [OF assms(1), of "crypto s" "next_frame_id s" "frame_data frame"]
    by (auto simp: packet_count_def)
  then have "reassemble views = Some ?c"
    using assms
    by (intro reassemble_views [where p = "packetizer s" and f = "frame_header s frame"])
       (auto simp: frame_packets_def Let_def read_packet_at image_image)
  then show ?thesis
    using assms(1) by (simp add: decrypt_def encrypt_def stream_cipher_involution)
qed

text \<open>
  C4. End to end, from frame to frame: once a frame is accepted, a receiver that has got every
  queued packet of that frame, in any order and with repetitions, reassembles and decrypts
  exactly the bytes the application handed in.
\<close>

theorem enqueued_frame_delivered:
  assumes "stream_reach ap s" and "stream_cipher ap" and "accepts_frame s frame"
    and "next_frame_id s < 2 ^ 63 - 1"
    and "packet_count (packetizer s) (frame_data frame) \<le> 65536"
    and "enqueue_frame ap s frame = (t, Inr i)"
    and "set received = qp_packet ` {q \<in> set (send_queue t). qp_frame_id q = i}"
  shows "map_option (decrypt ap (crypto s) i) (reassemble (map read_rtp received)) =
    Some (frame_data frame)"
proof -
  have inv: "stream_inv s" using assms(1) by (rule stream_inv_reach)
  then have m: "0 < max_payload_size (packetizer s)" by (simp add: stream_inv_def)
  have t: "t = accepted_state ap s frame" "i = next_frame_id s"
    using enqueue_frame_accepts [OF assms(3) m assms(4), of ap] assms(6) by simp_all
  have "{q \<in> set (send_queue t). qp_frame_id q = i} =
      (\<lambda>p. \<lparr>qp_frame_id = i, qp_packet = p\<rparr>) ` set (frame_packets ap s frame)"
    using queued_after_checkpoint(2) [OF inv] by (force simp: t)
  then have "set (map read_rtp received) = read_rtp ` set (frame_packets ap s frame)"
    using assms(7) by (simp add: image_image)
  then show ?thesis
    using frame_packets_decrypt [OF assms(2) m assms(5)] t by simp
qed

theorem enqueued_frame_delivered_witness:
  "\<exists>t. enqueue_frame xor_cipher (stream_new 7 example_parameters) example_frame = (t, Inr 0) \<and>
     map_option (decrypt xor_cipher (crypto (stream_new 7 example_parameters)) 0)
       (reassemble (map read_rtp (map qp_packet (send_queue t)))) = Some [1, 2, 3]"
proof -
  let ?s = "stream_new 7 example_parameters" and ?f = example_frame
  have n: "next_frame_id ?s = 0" "send_queue ?s = []" by (simp_all add: stream_new_def frame_id_first_def)
  have c: "packet_count (packetizer ?s) (frame_data ?f) \<le> 65536" "0 < max_payload_size (packetizer ?s)"
    by (simp_all add: packet_count_def div_ceil_def stream_new_def rtp_packetizer_new_def
        example_parameters_def example_frame_def rtp_sizes)
  let ?t = "accepted_state xor_cipher ?s ?f"
  have e: "enqueue_frame xor_cipher ?s ?f = (?t, Inr 0)"
    using enqueue_frame_accepts [OF example_accepts c(2), of xor_cipher] n by simp
  have q: "set (map qp_packet (send_queue ?t)) = qp_packet ` {q \<in> set (send_queue ?t). qp_frame_id q = 0}"
  proof -
    have "{q \<in> set (send_queue ?t). qp_frame_id q = 0} = set (send_queue ?t)" by (auto simp: n)
    then show ?thesis by (simp only: set_map)
  qed
  have "next_frame_id ?s < 2 ^ 63 - 1" using n by simp
  moreover have "frame_data ?f = [1, 2, 3]" by (simp add: example_frame_def)
  ultimately show ?thesis
    using e enqueued_frame_delivered [OF example_reach stream_cipher_xor_cipher example_accepts _ c(1) e q]
    by (intro exI [of _ ?t]) simp
qed

subsection \<open>Timestamps\<close>

lemma unat_media_fraction:
  "unat (of_nat (subsec_nanos t) * ucast (tb :: u32) div 1000000000 :: u64) =
     subsec_nanos t * unat tb div 1000000000"
proof -
  have "subsec_nanos t * unat tb < 1000000000 * 2 ^ 32"
    using unat_lt [of tb] by (intro mult_strict_mono) simp_all
  moreover have "subsec_nanos t < 2 ^ 64" by (rule less_trans [OF subsec_nanos_less]) simp
  ultimately have "unat (of_nat (subsec_nanos t) * ucast tb :: u64) = subsec_nanos t * unat tb"
    by (simp add: unat_word_ariths unat_of_nat unat_ucast_up)
  then show ?thesis by (simp add: unat_div)
qed

text \<open>
  RTP timestamps are exact: the timestamp of a media time is the number of whole clock ticks
  up to it, modulo \<open>2 ^ 32\<close>. Splitting the time into seconds and nanoseconds, and the wrapping
  64-bit multiplication of the seconds, lose nothing.
\<close>

theorem media_to_rtp_timestamp_exact:
  "unat (media_to_rtp_timestamp t timebase) = t * unat timebase div 1000000000 mod 2 ^ 32"
proof -
  let ?b = "unat timebase"
  have "unat (of_nat (as_secs t) * ucast timebase :: u64) = as_secs t * ?b mod 2 ^ 64"
    by (simp add: unat_word_ariths unat_of_nat unat_ucast_up mod_mult_left_eq)
  then have secs: "unat (ucast (of_nat (as_secs t) * ucast timebase :: u64) :: u32) =
      as_secs t * ?b mod 2 ^ 32"
    by (simp add: unat_ucast_down mod_mod_cancel)
  have "t * ?b = (as_secs t * 1000000000 + subsec_nanos t) * ?b"
    by (simp only: secs_nanos_split)
  also have "\<dots> = as_secs t * ?b * 1000000000 + subsec_nanos t * ?b"
    by (simp add: algebra_simps)
  finally have div: "t * ?b div 1000000000 = as_secs t * ?b + subsec_nanos t * ?b div 1000000000"
    by simp
  have add: "unat (x + y) = (unat x + unat y) mod 2 ^ 32" for x y :: u32
    by (simp add: unat_word_ariths)
  have nanos: "unat (ucast (of_nat (subsec_nanos t) * ucast timebase div 1000000000 :: u64) :: u32) =
      subsec_nanos t * ?b div 1000000000 mod 2 ^ 32"
    unfolding unat_ucast_down unat_media_fraction by simp
  show ?thesis
    unfolding media_to_rtp_timestamp_def Let_def div add secs nanos
    by (simp only: mod_add_left_eq mod_add_right_eq)
qed

subsection \<open>Round-trip time\<close>

text \<open>Sender Reports sent one after another, as pairs of the compact timestamp and the send time.\<close>

definition record_sender_reports :: "stream_state \<Rightarrow> (u32 \<times> instant) list \<Rightarrow> stream_state" where
  "record_sender_reports s rs = fold (\<lambda>(ntp, at) t. record_sender_report t ntp at) rs s"

definition report_of :: "u32 \<times> instant \<Rightarrow> sender_report_record" where
  "report_of r = \<lparr>compact_ntp = fst r, sent_at = snd r\<rparr>"

definition last_n :: "nat \<Rightarrow> 'a list \<Rightarrow> 'a list" where
  "last_n n xs = drop (length xs - n) xs"

lemma length_last_n [simp]: "length (last_n n xs) = min n (length xs)"
  by (simp add: last_n_def min_def)

lemma last_n_snoc: "last_n n (last_n n xs @ [x]) = last_n n (xs @ [x])"
proof (cases "length xs \<le> n")
  case False
  then have "length xs - n + 1 = length xs + 1 - n" "length xs + 1 - n \<le> length xs \<or> n = 0" by auto
  with False show ?thesis by (auto simp: last_n_def)
qed (simp add: last_n_def)

lemma rev_last_n: "rev (last_n n xs) = take n (rev xs)"
  by (cases "length xs \<le> n") (simp_all add: last_n_def rev_drop)

lemma sender_reports_record:
  "length (sender_reports s) \<le> SENDER_REPORT_HISTORY \<Longrightarrow>
    sender_reports (record_sender_report s ntp at) =
      last_n SENDER_REPORT_HISTORY (sender_reports s @ [report_of (ntp, at)])"
  by (cases "sender_reports s")
     (auto simp: record_sender_report_def report_of_def SENDER_REPORT_HISTORY_def last_n_def Let_def)

lemma sender_reports_history:
  assumes "length (sender_reports s) \<le> SENDER_REPORT_HISTORY"
  shows "sender_reports (record_sender_reports s rs) =
    last_n SENDER_REPORT_HISTORY (sender_reports s @ map report_of rs)"
proof (induction rs rule: rev_induct)
  case Nil
  then show ?case using assms by (simp add: record_sender_reports_def last_n_def)
next
  case (snoc r rs)
  have "record_sender_reports s (rs @ [r]) = record_sender_report (record_sender_reports s rs) (fst r) (snd r)"
    by (simp add: record_sender_reports_def split_def)
  then show ?case
    using snoc by (simp add: sender_reports_record last_n_snoc)
qed

lemma find_take_first:
  "\<forall>y \<in> set ys. \<not> P y \<Longrightarrow> P x \<Longrightarrow> length ys < n \<Longrightarrow> find P (take n (ys @ x # zs)) = Some x"
  by (induction ys arbitrary: n) (auto simp: take_Cons split: nat.splits)

text \<open>
  The round-trip time is measured against the right Sender Report: a Receiver Report that
  echoes a report sent at \<open>at\<close>, when fewer than 16 later ones with other timestamps followed,
  sets the round-trip time to the time since \<open>at\<close> less the delay the receiver declares, and to
  none if that would be negative.
\<close>

theorem round_trip_time_measured:
  assumes "stream_reach ap s" and "length later < SENDER_REPORT_HISTORY"
    and "ntp \<noteq> 0" and "ntp \<notin> fst ` set later" and "rr_last_sr_timestamp report = ntp"
  shows "current_rtt (update_receiver_report
        (record_sender_reports s ((ntp, at) # later)) report received) =
    (let delay = duration_from_ntp_short (rr_delay_since_last_sr report)
     in if at + delay \<le> received then Some (received - at - delay) else None)"
proof -
  have "length (sender_reports s) \<le> SENDER_REPORT_HISTORY"
    using stream_inv_reach [OF assms(1)] by (simp add: stream_inv_def)
  then have "rev (sender_reports (record_sender_reports s ((ntp, at) # later))) =
      take SENDER_REPORT_HISTORY (rev (map report_of later) @ report_of (ntp, at) # rev (sender_reports s))"
    by (simp add: sender_reports_history rev_last_n)
  moreover have "find (\<lambda>r. compact_ntp r = ntp)
      (take SENDER_REPORT_HISTORY (rev (map report_of later) @ report_of (ntp, at) # rev (sender_reports s))) =
      Some (report_of (ntp, at))"
    using assms(2, 4) by (intro find_take_first) (auto simp: report_of_def image_iff)
  ultimately show ?thesis
    using assms(3, 5)
    by (auto simp: update_receiver_report_def round_trip_def checked_sub_duration_def report_of_def Let_def)
qed

theorem round_trip_time_measured_witness:
  "current_rtt (update_receiver_report
      (record_sender_reports (stream_new 7 example_parameters) [(5, 1000), (6, 2000)])
      \<lparr>rr_receiver_sync_source = 0, rr_sync_source = 0, rr_fraction_lost = 0, rr_cumulative_lost = 0,
       rr_highest_sequence = 0, rr_jitter = 0, rr_last_sr_timestamp = 5,
       rr_delay_since_last_sr = 0\<rparr> 9000) = Some 8000"
  using round_trip_time_measured [OF example_reach, of "[(6, 2000)]" 5
      "\<lparr>rr_receiver_sync_source = 0, rr_sync_source = 0, rr_fraction_lost = 0, rr_cumulative_lost = 0,
       rr_highest_sequence = 0, rr_jitter = 0, rr_last_sr_timestamp = 5, rr_delay_since_last_sr = 0\<rparr>"
      7 1000 9000]
  by (simp add: SENDER_REPORT_HISTORY_def duration_from_ntp_short_def)

subsection \<open>Pressure measurements\<close>

lemma media_span_loop_eq:
  "media_span_loop fs o1 n1 =
     (let frames = {f. Some f \<in> set fs}
      in (if frames = {} then o1 else Some (Min (set_option o1 \<union> pf_media_timestamp ` frames)),
          if frames = {} then n1 else Some (Max (set_option n1 \<union> frame_end ` frames))))"
proof (induction fs o1 n1 rule: media_span_loop.induct)
  case (3 f fs o1 n1)
  define F where "F = {g. Some g \<in> set fs}"
  have fin: "finite F"
    unfolding F_def by (rule finite_subset [of _ "the ` set fs"]) (force, simp)
  have eq: "{g. Some g \<in> set (Some f # fs)} = insert f F" by (auto simp: F_def)
  show ?case
    unfolding media_span_loop.simps 3 eq Let_def F_def [symmetric]
    using fin by (cases "F = {}"; cases o1; cases n1) (simp_all add: min.left_commute max.left_commute min.commute max.commute)
qed simp_all

text \<open>
  The pressure measurements are what their names say: the in-flight media duration is the
  distance from the earliest start to the latest end among the unacknowledged frames, zero when
  there is none, and the recommended bound on it is between 66 ms and the larger of 66 ms and a
  third of the playout delay.
\<close>

theorem pressure_measurements:
  assumes "stream_reach ap s"
  shows "in_flight_media_duration s =
      (if window s = Map.empty then 0
       else Max (frame_end ` ran (window s)) - Min (pf_media_timestamp ` ran (window s))) \<and>
    MINIMUM_IN_FLIGHT_MEDIA_DURATION \<le> max_acceptable_in_flight_duration s \<and>
    max_acceptable_in_flight_duration s \<le>
      max MINIMUM_IN_FLIGHT_MEDIA_DURATION
        ((case receiver_playout_delay s of None \<Rightarrow> target_playout_delay s | Some d \<Rightarrow> d) div 3)"
proof -
  have r: "ring_inv s" using stream_inv_reach [OF assms] by (simp add: stream_inv_def)
  have ran: "{f. Some f \<in> set (pending s)} = ran (window s)"
    using ring.stored_iff_lookup [OF ring_invD(1, 2) [OF r]] ring_lookup_key
    by (fastforce simp: window_def ran_def)
  have "ran (window s) = {} \<longleftrightarrow> window s = Map.empty"
    by (metis empty_iff ranI ran_empty option.exhaust_sel ext)
  then have "in_flight_media_duration s =
      (if window s = Map.empty then 0
       else Max (frame_end ` ran (window s)) - Min (pf_media_timestamp ` ran (window s)))"
    by (simp add: in_flight_media_duration_def media_span_loop_eq ran Let_def)
  then show ?thesis
    by (auto simp: max_acceptable_in_flight_duration_def Let_def)
qed

theorem pressure_measurements_witness:
  "MINIMUM_IN_FLIGHT_MEDIA_DURATION \<le>
     max_acceptable_in_flight_duration (stream_new 7 example_parameters)"
  using pressure_measurements [OF example_reach] by blast

end
