(* ===== verification/Pacing.thy ===== *)
theory Pacing
  imports Prelude
begin

text \<open>
  The two small state machines of the sender loop (\<open>src/sender/event_loop.rs\<close>): the burst
  budget, a token bucket that paces transmission, and the acknowledgement watchdog that ends a
  session whose receiver has gone silent. The time of an operation is its last argument.
\<close>

subsection \<open>Burst budget\<close>

definition BURST_INTERVAL :: duration where "BURST_INTERVAL = from_millis 10"
definition MAX_BURST_BITRATE :: nat where "MAX_BURST_BITRATE = 128 * 2 ^ 20"
definition U128_MAX :: nat where "U128_MAX = 2 ^ 128 - 1"
definition USIZE_MAX :: nat where "USIZE_MAX = 2 ^ 64 - 1"

record burst_budget =
  capacity_bytes :: nat
  available_bytes :: nat
  fractional_byte_nanos :: nat
  last_refill :: instant

definition saturating_mul_u128 :: "nat \<Rightarrow> nat \<Rightarrow> nat" where
  "saturating_mul_u128 a b = min (a * b) U128_MAX"

definition saturating_add_u128 :: "nat \<Rightarrow> nat \<Rightarrow> nat" where
  "saturating_add_u128 a b = min (a + b) U128_MAX"

definition usize_try_from :: "nat \<Rightarrow> nat" where
  "usize_try_from n = (if n \<le> USIZE_MAX then n else USIZE_MAX)"

definition burst_budget_new :: "instant \<Rightarrow> burst_budget" where
  "burst_budget_new now =
     (let bytes_per_second = MAX_BURST_BITRATE div 8;
          capacity = max (usize_try_from
            (saturating_mul_u128 bytes_per_second BURST_INTERVAL div 1000000000)) 1
      in \<lparr>capacity_bytes = capacity, available_bytes = capacity, fractional_byte_nanos = 0,
          last_refill = now\<rparr>)"

definition refill :: "burst_budget \<Rightarrow> instant \<Rightarrow> burst_budget" where
  "refill b now =
     (let elapsed_nanos = now - last_refill b;
          b1 = b\<lparr>last_refill := now\<rparr>
      in if available_bytes b = capacity_bytes b then b1\<lparr>fractional_byte_nanos := 0\<rparr>
         else let scaled_bytes = saturating_add_u128
                    (saturating_mul_u128 elapsed_nanos (MAX_BURST_BITRATE div 8))
                    (fractional_byte_nanos b);
                  added_bytes = scaled_bytes div 1000000000;
                  available = min (min (available_bytes b + usize_try_from added_bytes) USIZE_MAX)
                                (capacity_bytes b)
              in b1\<lparr>available_bytes := available,
                    fractional_byte_nanos :=
                      (if available = capacity_bytes b then 0 else scaled_bytes mod 1000000000)\<rparr>)"

definition has_credit :: "burst_budget \<Rightarrow> bool" where
  "has_credit b \<longleftrightarrow> available_bytes b \<noteq> 0"

definition consume :: "burst_budget \<Rightarrow> nat \<Rightarrow> burst_budget" where
  "consume b bytes = b\<lparr>available_bytes := available_bytes b - bytes\<rparr>"

definition BYTES_PER_SECOND :: nat where
  "BYTES_PER_SECOND = MAX_BURST_BITRATE div 8"

text \<open>The credit of a bucket in billionths of a byte.\<close>

definition credit :: "burst_budget \<Rightarrow> nat" where
  "credit b = available_bytes b * 1000000000 + fractional_byte_nanos b"

definition budget_inv :: "burst_budget \<Rightarrow> bool" where
  "budget_inv b \<longleftrightarrow>
     0 < capacity_bytes b \<and> capacity_bytes b \<le> USIZE_MAX \<and>
     available_bytes b \<le> capacity_bytes b \<and> fractional_byte_nanos b < 1000000000 \<and>
     (available_bytes b = capacity_bytes b \<longrightarrow> fractional_byte_nanos b = 0)"

lemma budget_inv_new: "budget_inv (burst_budget_new now)"
  by (simp add: budget_inv_def burst_budget_new_def usize_try_from_def saturating_mul_u128_def
      MAX_BURST_BITRATE_def BURST_INTERVAL_def from_millis_def USIZE_MAX_def U128_MAX_def)

lemma budget_inv_consume: "budget_inv b \<Longrightarrow> budget_inv (consume b n)"
  by (cases "n = 0") (auto simp: budget_inv_def consume_def)

text \<open>The bounds that keep the saturating arithmetic exact: an elapsed time below \<open>2 ^ 96\<close>
  nanoseconds, which is two thousand billion years.\<close>

lemma scaled_bytes_exact:
  assumes "e < 2 ^ 96" and "f < 1000000000"
  shows "saturating_add_u128 (saturating_mul_u128 e (MAX_BURST_BITRATE div 8)) f = e * BYTES_PER_SECOND + f"
proof -
  have "e * BYTES_PER_SECOND < 2 ^ 96 * 2 ^ 24"
    using assms(1) by (intro mult_less_le_imp_less) (simp_all add: BYTES_PER_SECOND_def MAX_BURST_BITRATE_def)
  then show ?thesis
    using assms(2) by (simp add: saturating_add_u128_def saturating_mul_u128_def U128_MAX_def
        BYTES_PER_SECOND_def min_def)
qed

lemma capped_available:
  assumes "available \<le> capacity" and "capacity \<le> USIZE_MAX"
  shows "min (min (available + usize_try_from added) USIZE_MAX) capacity = min (available + added) capacity"
  using assms by (auto simp: usize_try_from_def min_def)

lemma refill_eq:
  assumes "budget_inv b" and "now - last_refill b < 2 ^ 96"
  shows "refill b now =
    (let c = credit b + (now - last_refill b) * BYTES_PER_SECOND
     in if c < capacity_bytes b * 1000000000
        then b\<lparr>last_refill := now, available_bytes := c div 1000000000,
               fractional_byte_nanos := c mod 1000000000\<rparr>
        else b\<lparr>last_refill := now, available_bytes := capacity_bytes b, fractional_byte_nanos := 0\<rparr>)"
proof (cases "available_bytes b = capacity_bytes b")
  case True
  then have "refill b now = b\<lparr>last_refill := now, available_bytes := capacity_bytes b, fractional_byte_nanos := 0\<rparr>"
    by (simp add: refill_def Let_def)
  with True show ?thesis by (simp add: credit_def Let_def)
next
  case False
  define scaled where "scaled = (now - last_refill b) * BYTES_PER_SECOND + fractional_byte_nanos b"
  define available where "available = available_bytes b + scaled div 1000000000"
  have c: "credit b + (now - last_refill b) * BYTES_PER_SECOND = available_bytes b * 1000000000 + scaled"
    by (simp add: credit_def scaled_def)
  have "refill b now = b\<lparr>last_refill := now, available_bytes := min available (capacity_bytes b),
      fractional_byte_nanos := (if min available (capacity_bytes b) = capacity_bytes b then 0
        else scaled mod 1000000000)\<rparr>"
    using assms False
    by (simp add: refill_def Let_def scaled_bytes_exact capped_available budget_inv_def
        flip: scaled_def available_def)
  moreover have "available_bytes b * 1000000000 + scaled < capacity_bytes b * 1000000000 \<longleftrightarrow>
      available < capacity_bytes b"
    unfolding available_def by (auto simp: div_less_iff_less_mult less_diff_conv)
  ultimately show ?thesis
    unfolding c by (simp add: Let_def available_def [symmetric] min_def)
qed

lemma budget_inv_refill:
  assumes "budget_inv b" and "now - last_refill b < 2 ^ 96"
  shows "budget_inv (refill b now)"
  using assms
  by (auto simp: refill_eq [OF assms] budget_inv_def Let_def div_less_iff_less_mult less_imp_le)

lemma refill_fields [simp]:
  "capacity_bytes (refill b now) = capacity_bytes b" "last_refill (refill b now) = now"
  by (simp_all add: refill_def Let_def)

lemma credit_refill:
  assumes "budget_inv b" and "now - last_refill b < 2 ^ 96"
  shows "credit (refill b now) =
    min (credit b + (now - last_refill b) * BYTES_PER_SECOND) (capacity_bytes b * 1000000000)"
  by (simp add: refill_eq [OF assms] Let_def) (auto simp: credit_def)

lemma budget_eqI:
  assumes "budget_inv a" "budget_inv b" "credit a = credit b"
    "capacity_bytes a = capacity_bytes b" "last_refill a = last_refill b"
  shows "a = b"
proof -
  have "available_bytes a = credit a div 1000000000" "fractional_byte_nanos a = credit a mod 1000000000"
    "available_bytes b = credit b div 1000000000" "fractional_byte_nanos b = credit b mod 1000000000"
    using assms(1, 2) by (simp_all add: credit_def budget_inv_def)
  with assms show ?thesis by (cases a; cases b) simp
qed

text \<open>
  The burst budget neither loses nor invents credit: a refill adds exactly the bytes that
  16 MiB per second earn in the elapsed time, to a billionth of a byte and up to the capacity,
  and refilling at any time in between makes no difference to the result.
\<close>

theorem refill_exact:
  assumes "budget_inv b" and "last_refill b \<le> t" and "t \<le> now" and "now - last_refill b < 2 ^ 96"
  shows "credit (refill b now) =
      min (credit b + (now - last_refill b) * BYTES_PER_SECOND) (capacity_bytes b * 1000000000) \<and>
    budget_inv (refill b now) \<and> refill (refill b t) now = refill b now"
proof -
  have t: "t - last_refill b < 2 ^ 96" "now - t < 2 ^ 96"
    using assms(2 - 4) by linarith+
  have inv: "budget_inv (refill b t)" "budget_inv (refill b now)"
    using budget_inv_refill assms(1, 4) t by blast+
  have "credit (refill (refill b t) now) =
      min (credit (refill b t) + (now - t) * BYTES_PER_SECOND) (capacity_bytes b * 1000000000)"
    using credit_refill [OF inv(1), of now] t(2) by simp
  also have "\<dots> = min (credit b + (now - last_refill b) * BYTES_PER_SECOND) (capacity_bytes b * 1000000000)"
  proof -
    have "(now - last_refill b) * BYTES_PER_SECOND =
        (t - last_refill b) * BYTES_PER_SECOND + (now - t) * BYTES_PER_SECOND"
      using assms(2, 3) by (simp flip: add_mult_distrib)
    then show ?thesis using credit_refill [OF assms(1) t(1)] by (simp add: min_def)
  qed
  finally have "credit (refill (refill b t) now) = credit (refill b now)"
    using credit_refill [OF assms(1, 4)] by simp
  then have "refill (refill b t) now = refill b now"
    using budget_inv_refill [OF inv(1), of now] inv(2) t(2) by (intro budget_eqI) simp_all
  then show ?thesis using credit_refill [OF assms(1, 4)] inv(2) by simp
qed

theorem refill_exact_witness:
  "refill (refill (consume (burst_budget_new 0) 100000) 1000) 5000 =
     refill (consume (burst_budget_new 0) 100000) 5000"
proof -
  have "last_refill (consume (burst_budget_new 0) 100000) = 0"
    by (simp add: consume_def burst_budget_new_def Let_def)
  then show ?thesis
    using refill_exact [OF budget_inv_consume [OF budget_inv_new [of 0]], of 100000 1000 5000] by simp
qed

subsection \<open>How fast the sender can be\<close>

text \<open>A run of the bucket: refills at given times, and packets that are sent when there is any
  credit and wait otherwise.\<close>

datatype budget_op = Refill instant | Send nat

fun budget_run :: "budget_op list \<Rightarrow> burst_budget \<Rightarrow> burst_budget \<times> nat" where
  "budget_run [] b = (b, 0)"
| "budget_run (Refill t # ops) b = budget_run ops (refill b t)"
| "budget_run (Send n # ops) b =
     (if has_credit b then (let (b', sent) = budget_run ops (consume b n) in (b', n + sent))
      else budget_run ops b)"

fun refills :: "budget_op list \<Rightarrow> nat" where
  "refills [] = 0"
| "refills (Refill t # ops) = Suc (refills ops)"
| "refills (Send n # ops) = refills ops"

fun times_ok :: "instant \<Rightarrow> budget_op list \<Rightarrow> bool" where
  "times_ok t [] \<longleftrightarrow> True"
| "times_ok t (Refill u # ops) \<longleftrightarrow> t \<le> u \<and> u - t < 2 ^ 96 \<and> times_ok u ops"
| "times_ok t (Send n # ops) \<longleftrightarrow> times_ok t ops"

fun packets_ok :: "nat \<Rightarrow> budget_op list \<Rightarrow> bool" where
  "packets_ok m [] \<longleftrightarrow> True"
| "packets_ok m (Refill u # ops) \<longleftrightarrow> packets_ok m ops"
| "packets_ok m (Send n # ops) \<longleftrightarrow> n \<le> Suc m \<and> packets_ok m ops"

lemma consume_fields [simp]:
  "capacity_bytes (consume b n) = capacity_bytes b" "last_refill (consume b n) = last_refill b"
  by (simp_all add: consume_def)

lemma budget_run_mono:
  "times_ok (last_refill b) ops \<Longrightarrow> last_refill b \<le> last_refill (fst (budget_run ops b))"
proof (induction ops b rule: budget_run.induct)
  case (2 t ops b)
  then show ?case using order_trans [of "last_refill b" t] by simp
qed (auto simp: split_def Let_def)

lemma budget_run_bound:
  assumes "budget_inv b" and "times_ok (last_refill b) ops" and "packets_ok m ops"
  shows "snd (budget_run ops b) * 1000000000 \<le>
    credit b + (last_refill (fst (budget_run ops b)) - last_refill b) * BYTES_PER_SECOND +
    (refills ops + (if has_credit b then 1 else 0)) * m * 1000000000"
  using assms
proof (induction ops b rule: budget_run.induct)
  case (2 t ops b)
  let ?e = "last_refill (fst (budget_run ops (refill b t)))"
  have t: "last_refill b \<le> t" "t - last_refill b < 2 ^ 96" "times_ok t ops" using 2(3) by simp_all
  have "t \<le> ?e" using budget_run_mono [of "refill b t" ops] t(3) by simp
  then have split: "(?e - last_refill b) * BYTES_PER_SECOND =
      (t - last_refill b) * BYTES_PER_SECOND + (?e - t) * BYTES_PER_SECOND"
    using t(1) by (simp flip: add_mult_distrib)
  have "snd (budget_run ops (refill b t)) * 1000000000 \<le>
      credit (refill b t) + (?e - t) * BYTES_PER_SECOND +
      (refills ops + (if has_credit (refill b t) then 1 else 0)) * m * 1000000000"
    using 2(1) [OF budget_inv_refill [OF 2(2) t(2)]] t(3) 2(4) by simp
  also have "\<dots> \<le> credit (refill b t) + (?e - t) * BYTES_PER_SECOND + Suc (refills ops) * m * 1000000000"
    by (intro add_mono mult_le_mono) auto
  also have "credit (refill b t) \<le> credit b + (t - last_refill b) * BYTES_PER_SECOND"
    using credit_refill [OF 2(2) t(2)] by simp
  finally show ?case
    unfolding budget_run.simps refills.simps split by simp
next
  case (3 n ops b)
  show ?case
  proof (cases "has_credit b")
    case True
    let ?c = "consume b n"
    have IH: "snd (budget_run ops ?c) * 1000000000 \<le> credit ?c +
        (last_refill (fst (budget_run ops ?c)) - last_refill b) * BYTES_PER_SECOND +
        (refills ops + (if has_credit ?c then 1 else 0)) * m * 1000000000"
      using 3(1) [OF True budget_inv_consume [OF 3(3)]] 3(4, 5) by simp
    have "n * 1000000000 + credit ?c + (if has_credit ?c then 1 else 0) * m * 1000000000 \<le>
        credit b + m * 1000000000"
      using True 3(5) by (auto simp: credit_def consume_def has_credit_def)
    with IH show ?thesis
      using True by (simp add: split_def Let_def algebra_simps)
  next
    case False
    then show ?thesis using 3 by simp
  qed
qed simp

text \<open>
  C23. The pacer bounds the sending rate: in any run of refills and packets of at most
  \<open>m + 1\<close> bytes, the bytes sent are at most the initial credit, plus what 16 MiB per second earn
  over the run, plus \<open>m\<close> bytes for each refill. The last term is there because a packet is
  sent whenever any credit is left and the excess is not charged to the next interval.
\<close>

theorem pacing_bound:
  assumes "budget_inv b" and "times_ok (last_refill b) ops" and "packets_ok m ops"
    and "budget_run ops b = (b', sent)"
  shows "sent * 1000000000 \<le>
    credit b + (last_refill b' - last_refill b) * BYTES_PER_SECOND + (refills ops + 1) * m * 1000000000"
proof -
  have "sent * 1000000000 \<le> credit b + (last_refill b' - last_refill b) * BYTES_PER_SECOND +
      (refills ops + (if has_credit b then 1 else 0)) * m * 1000000000"
    using budget_run_bound [OF assms(1 - 3)] assms(4) by simp
  also have "\<dots> \<le> credit b + (last_refill b' - last_refill b) * BYTES_PER_SECOND +
      (refills ops + 1) * m * 1000000000"
    by (intro add_left_mono mult_le_mono1) simp
  finally show ?thesis .
qed

lemma burst_budget_new_eq:
  "burst_budget_new now =
     \<lparr>capacity_bytes = 167772, available_bytes = 167772, fractional_byte_nanos = 0, last_refill = now\<rparr>"
  by (simp add: burst_budget_new_def usize_try_from_def saturating_mul_u128_def MAX_BURST_BITRATE_def
      BURST_INTERVAL_def from_millis_def USIZE_MAX_def U128_MAX_def)

theorem pacing_bound_witness:
  "snd (budget_run [Send 1472, Refill 100000, Send 1472, Refill 10000000, Send 1472] (burst_budget_new 0))
     * 1000000000 \<le> 167772 * 1000000000 + 10000000 * 16777216 + 3 * 1471 * 1000000000"
proof -
  let ?ops = "[Send 1472, Refill 100000, Send 1472, Refill 10000000, Send 1472]"
  obtain b' sent where r: "budget_run ?ops (burst_budget_new 0) = (b', sent)" by fastforce
  have t: "times_ok (last_refill (burst_budget_new 0)) ?ops" "packets_ok 1471 ?ops"
    by (simp_all add: burst_budget_new_eq)
  have "last_refill b' = 10000000"
    using r by (auto split: if_splits prod.splits)
  then show ?thesis
    using pacing_bound [OF budget_inv_new t r] r
    by (simp add: burst_budget_new_eq credit_def BYTES_PER_SECOND_def MAX_BURST_BITRATE_def)
qed

subsection \<open>Acknowledgement watchdog\<close>

definition INITIAL_RECEIVER_ACKNOWLEDGEMENT_TIMEOUT :: duration where
  "INITIAL_RECEIVER_ACKNOWLEDGEMENT_TIMEOUT = from_secs 10"
definition RECEIVER_ACKNOWLEDGEMENT_TIMEOUT :: duration where
  "RECEIVER_ACKNOWLEDGEMENT_TIMEOUT = from_secs 5"

record acknowledgement_watchdog =
  waiting_since :: "instant option"
  has_acknowledged :: bool

definition watchdog_default :: acknowledgement_watchdog where
  "watchdog_default = \<lparr>waiting_since = None, has_acknowledged = False\<rparr>"

definition packet_sent :: "acknowledgement_watchdog \<Rightarrow> instant \<Rightarrow> acknowledgement_watchdog" where
  "packet_sent w now =
     w\<lparr>waiting_since := Some (case waiting_since w of None \<Rightarrow> now | Some t \<Rightarrow> t)\<rparr>"

definition acknowledgement_advanced ::
  "acknowledgement_watchdog \<Rightarrow> bool \<Rightarrow> instant \<Rightarrow> acknowledgement_watchdog" where
  "acknowledgement_advanced w frames_still_in_flight now =
     w\<lparr>has_acknowledged := True,
       waiting_since := (if frames_still_in_flight then Some now else None)\<rparr>"

definition timed_out ::
  "acknowledgement_watchdog \<Rightarrow> bool \<Rightarrow> instant \<Rightarrow> acknowledgement_watchdog \<times> bool" where
  "timed_out w frames_in_flight now =
     (if \<not> frames_in_flight then (w\<lparr>waiting_since := None\<rparr>, False)
      else let timeout = (if has_acknowledged w then RECEIVER_ACKNOWLEDGEMENT_TIMEOUT
                          else INITIAL_RECEIVER_ACKNOWLEDGEMENT_TIMEOUT)
           in (w, case waiting_since w of None \<Rightarrow> False | Some t \<Rightarrow> now - t \<ge> timeout))"

text \<open>What happens to a watchdog while a receiver is silent and frames are in flight.\<close>

datatype silent_op = SilentSend instant | SilentPoll instant

fun silent_step :: "silent_op \<Rightarrow> acknowledgement_watchdog \<Rightarrow> acknowledgement_watchdog" where
  "silent_step (SilentSend t) w = packet_sent w t"
| "silent_step (SilentPoll t) w = fst (timed_out w True t)"

lemma silent_step_waiting: "waiting_since w = Some t \<Longrightarrow> silent_step x w = w"
  by (cases x) (simp_all add: packet_sent_def timed_out_def Let_def)

lemma silent_run_waiting: "waiting_since w = Some t \<Longrightarrow> fold silent_step xs w = w"
  by (induction xs) (simp_all add: silent_step_waiting)

text \<open>
  The watchdog measures silence from the last progress: after an acknowledgement at time
  \<open>t\<close> with frames left in flight, and after the first packet of a session at time \<open>t\<close>, no
  sending and no earlier poll moves the deadline, and a poll at \<open>now\<close> reports a timeout exactly
  when 5 s, or 10 s at the start, have passed since \<open>t\<close>. With no frame in flight it never does.
\<close>

theorem watchdog_deadline:
  assumes "t \<le> now"
  shows "(snd (timed_out (fold silent_step xs (acknowledgement_advanced w True t)) True now) \<longleftrightarrow>
      t + RECEIVER_ACKNOWLEDGEMENT_TIMEOUT \<le> now) \<and>
    (snd (timed_out (fold silent_step xs (packet_sent watchdog_default t)) True now) \<longleftrightarrow>
      t + INITIAL_RECEIVER_ACKNOWLEDGEMENT_TIMEOUT \<le> now) \<and>
    \<not> snd (timed_out w False now)"
proof -
  have "waiting_since (acknowledgement_advanced w True t) = Some t"
    "waiting_since (packet_sent watchdog_default t) = Some t"
    by (simp_all add: acknowledgement_advanced_def packet_sent_def watchdog_default_def)
  note fold = silent_run_waiting [OF this(1), of xs] silent_run_waiting [OF this(2), of xs]
  show ?thesis
    unfolding fold using assms
    by (auto simp: timed_out_def acknowledgement_advanced_def packet_sent_def watchdog_default_def)
qed

theorem watchdog_deadline_witness:
  "snd (timed_out (fold silent_step [SilentSend 2000000000, SilentPoll 3000000000]
      (packet_sent watchdog_default 1000000000)) True 11000000000)"
  using watchdog_deadline [of 1000000000 11000000000 "[SilentSend 2000000000, SilentPoll 3000000000]"]
  by (simp add: INITIAL_RECEIVER_ACKNOWLEDGEMENT_TIMEOUT_def from_secs_def)

end
