(* ===== verification/Event_Loop.thy ===== *)
theory Event_Loop
  imports Stream_Correct Pacing
begin

text \<open>
  The sender loop (\<open>src/sender/event_loop.rs\<close>): one task owns both streams and reacts to
  commands, timers and datagrams. Every arm of the \<open>select!\<close> is a definition from the loop state
  to an outcome. The transport is the parameter \<open>net\<close>, which says what the \<open>n\<close>-th call of
  \<open>send_to\<close> returns; the datagrams handed to it are logged in \<open>wire\<close>. An arm reads the clocks
  once. Log output is not modelled.
\<close>

subsection \<open>Data\<close>

definition RTCP_REPORT_INTERVAL :: duration where "RTCP_REPORT_INTERVAL = from_millis 500"
definition STATISTICS_DEBOUNCE_INTERVAL :: duration where
  "STATISTICS_DEBOUNCE_INTERVAL = from_millis 100"
definition RECEIVER_TIMEOUT_POLL_INTERVAL :: duration where
  "RECEIVER_TIMEOUT_POLL_INTERVAL = from_secs 1"
definition RESERVED_TERMINAL_EVENT_SLOTS :: nat where "RESERVED_TERMINAL_EVENT_SLOTS = 2"
definition EVENT_CHANNEL_CAPACITY :: nat where "EVENT_CHANNEL_CAPACITY = 64"
definition RECEIVE_BUFFER_SIZE :: nat where "RECEIVE_BUFFER_SIZE = 2048"

text \<open>Socket addresses: address and port, and for IPv6 the flow information and the scope.\<close>

datatype socket_addr = V4 u32 u16 | V6 "128 word" u16 u32 u32

datatype io_error = Interrupted | IoOther string

datatype sender_error = SessionClosed | ReceiverTimedOutError | TaskFailed string
  | TransportError string string

datatype playout_delay_error = InvalidDelay | Unsupported | DelaySessionClosed

record session_statistics_record =
  ss_audio :: "stream_statistics option"
  ss_video :: "stream_statistics option"

datatype sender_event = NeedsKeyFrame stream_type | FrameAcked stream_type frame_id
  | PictureLoss stream_type | PacketRetransmission stream_type frame_id u16 nat
  | StatisticsUpdated session_statistics_record | MalformedPacket string
  | ReceiverTimedOut | FatalError sender_error

datatype stream_command = EnqueueFrame stream_type encoded_frame | Statistics
  | SetTargetPlayoutDelay duration | Shutdown

text \<open>What a command's \<open>oneshot\<close> channel carries back.\<close>

datatype command_reply = FrameReply "enqueue_error + frame_id" | StatisticsReply session_statistics_record
  | DelayReply "playout_delay_error + unit" | ShutdownReply

text \<open>The bounded channel of events; \<open>ec_open\<close> is false once the application dropped its end.\<close>

record event_channel =
  ec_queue :: "sender_event list"
  ec_open :: bool

record stream_feedback_state_record =
  sf_pressure_limited :: bool
  sf_max_acceptable_in_flight_duration :: duration
  sf_current_rtt :: "duration option"
  sf_receiver_playout_delay :: "duration option"
  sf_nack_count :: u64
  sf_frames_dropped_or_skipped :: u64
  sf_fraction_lost :: "u8 option"

record acknowledgement_progress =
  ap_audio :: bool
  ap_video :: bool

type_synonym streams = "stream_state option \<times> stream_state option"

record loop_state =
  streams :: streams
  statistics_pending :: bool
  statistics_trigger_count :: u64
  statistics_deadline :: instant
  audio_watchdog :: acknowledgement_watchdog
  video_watchdog :: acknowledgement_watchdog
  burst_budget :: burst_budget
  events :: event_channel
  wire :: "bytes list"

record clock =
  ck_instant :: instant
  ck_system :: system_time

type_synonym network = "nat \<Rightarrow> bytes \<Rightarrow> io_error + nat"

datatype loop_outcome = Running loop_state | Returned loop_state "sender_error + unit" | Panicked

subsection \<open>Events\<close>

definition try_send :: "event_channel \<Rightarrow> sender_event \<Rightarrow> event_channel" where
  "try_send ch e =
     (if ec_open ch \<and> length (ec_queue ch) < EVENT_CHANNEL_CAPACITY
      then ch\<lparr>ec_queue := ec_queue ch @ [e]\<rparr> else ch)"

definition emit_fatal :: "event_channel \<Rightarrow> sender_error \<Rightarrow> event_channel" where
  "emit_fatal ch error = try_send ch (FatalError error)"

definition emit_nonterminal :: "event_channel \<Rightarrow> sender_event \<Rightarrow> event_channel" where
  "emit_nonterminal ch e =
     (if EVENT_CHANNEL_CAPACITY - length (ec_queue ch) > RESERVED_TERMINAL_EVENT_SLOTS
      then try_send ch e else ch)"

fun parse_error_display :: "parse_error \<Rightarrow> string" where
  "parse_error_display Truncated = ''packet truncated''"
| "parse_error_display BadVersion = ''unsupported RTCP version''"
| "parse_error_display BadMagic = ''bad Cast feedback magic''"
| "parse_error_display InvalidValue = ''invalid RTCP field value''"

subsection \<open>Transmission\<close>

fun io_error_display :: "io_error \<Rightarrow> string" where
  "io_error_display Interrupted = ''operation interrupted''"
| "io_error_display (IoOther m) = m"

definition transport_error :: "string \<Rightarrow> io_error \<Rightarrow> sender_error" where
  "transport_error operation error = TransportError operation (io_error_display error)"

definition send_datagram ::
  "network \<Rightarrow> bytes list \<Rightarrow> bytes \<Rightarrow> string \<Rightarrow> bytes list \<times> (sender_error + unit)" where
  "send_datagram net sent data operation =
     (sent @ [data],
      case net (length sent) data of
        Inl error \<Rightarrow> Inl (transport_error operation error)
      | Inr written \<Rightarrow>
          if written \<noteq> length data
          then Inl (TransportError operation
                 (''short datagram write: wrote '' @ show_nat written @ '' of '' @
                  show_nat (length data) @ '' bytes''))
          else Inr ())"

type_synonym flush_state =
  "stream_state \<times> acknowledgement_watchdog \<times> burst_budget \<times> bytes list"

definition queued_packets :: "stream_state \<Rightarrow> nat" where
  "queued_packets s = length (retransmit_queue s) + length (send_queue s)"

lemma queued_packets_next: "next_packet s = (t, Some p) \<Longrightarrow> queued_packets t < queued_packets s"
  by (auto simp: next_packet_def queued_packets_def split: list.splits)

lemma queued_packets_record [simp]: "queued_packets (record_packet_sent s n r) = queued_packets s"
  by (simp add: record_packet_sent_def queued_packets_def)

function flush_stream_packets ::
  "network \<Rightarrow> instant \<Rightarrow> string \<Rightarrow> flush_state \<Rightarrow> flush_state \<times> (sender_error + unit)" where
  "flush_stream_packets net now operation (s, w, b, sent) =
     (if has_credit b
      then case next_packet s of
             (s1, None) \<Rightarrow> ((s1, w, b, sent), Inr ())
           | (s1, Some out) \<Rightarrow>
               let len = length (op_packet out);
                   (sent1, r) = send_datagram net sent (op_packet out) operation
               in case r of
                    Inl error \<Rightarrow> ((s1, w, b, sent1), Inl error)
                  | Inr _ \<Rightarrow>
                      flush_stream_packets net now operation
                        (record_packet_sent s1 len (op_retransmission out), packet_sent w now,
                         consume b len, sent1)
      else ((s, w, b, sent), Inr ()))"
  by pat_completeness auto

termination
  by (relation "measure (\<lambda>(_, _, _, s, _). queued_packets s)") (auto dest: queued_packets_next sym)

declare flush_stream_packets.simps [simp del]

text \<open>\<open>flush_stream_packets\<close> takes an optional stream and does nothing without one.\<close>

definition flush_stream_option ::
  "network \<Rightarrow> instant \<Rightarrow> string \<Rightarrow> stream_state option \<Rightarrow> acknowledgement_watchdog \<Rightarrow> burst_budget \<Rightarrow>
     bytes list \<Rightarrow>
     (stream_state option \<times> acknowledgement_watchdog \<times> burst_budget \<times> bytes list) \<times> (sender_error + unit)"
where
  "flush_stream_option net now operation so w b sent =
     (case so of
        None \<Rightarrow> ((None, w, b, sent), Inr ())
      | Some s \<Rightarrow>
          let ((s1, w1, b1, sent1), r) = flush_stream_packets net now operation (s, w, b, sent)
          in ((Some s1, w1, b1, sent1), r))"

definition flush_queued_packets ::
  "network \<Rightarrow> instant \<Rightarrow> loop_state \<Rightarrow> loop_state \<times> (sender_error + unit)" where
  "flush_queued_packets net now st =
     (let b = refill (burst_budget st) now;
          ((audio, aw, b1, sent1), r1) =
            flush_stream_option net now ''send audio RTP packet'' (fst (streams st))
              (audio_watchdog st) b (wire st);
          st1 = st\<lparr>streams := (audio, snd (streams st)), audio_watchdog := aw, burst_budget := b1,
                   wire := sent1\<rparr>
      in case r1 of
           Inl error \<Rightarrow> (st1, Inl error)
         | Inr _ \<Rightarrow>
             let ((video, vw, b2, sent2), r2) =
                   flush_stream_option net now ''send video RTP packet'' (snd (streams st))
                     (video_watchdog st) b1 sent1
             in (st1\<lparr>streams := (audio, video), video_watchdog := vw, burst_budget := b2,
                     wire := sent2\<rparr>, r2))"

definition send_sender_report ::
  "network \<Rightarrow> clock \<Rightarrow> bytes list \<Rightarrow> stream_state \<Rightarrow> string
     \<Rightarrow> (stream_state \<times> bytes list) \<times> (sender_error + unit)" where
  "send_sender_report net ck sent s operation =
     (let (ntp, rtp_timestamp) = sender_report_timestamp s (ck_system ck) (ck_instant ck);
          report = sender_report_build (sender_sync_source s) ntp rtp_timestamp
                     (total_packets_sent s) (total_octets_sent s);
          (sent1, r) = send_datagram net sent report operation
      in case r of
           Inl error \<Rightarrow> ((s, sent1), Inl error)
         | Inr _ \<Rightarrow> ((record_sender_report s (ntp_middle_32 ntp) (ck_instant ck), sent1), Inr ()))"

subsection \<open>Finding a stream\<close>

definition get_stream :: "stream_type \<Rightarrow> streams \<Rightarrow> stream_state option" where
  "get_stream ty ss = (case ty of Audio \<Rightarrow> fst ss | Video \<Rightarrow> snd ss)"

definition put_stream :: "stream_type \<Rightarrow> stream_state \<Rightarrow> streams \<Rightarrow> streams" where
  "put_stream ty s ss = (case ty of Audio \<Rightarrow> (Some s, snd ss) | Video \<Rightarrow> (fst ss, Some s))"

definition find_stream_by_sender_sync_source ::
  "sync_source \<Rightarrow> streams \<Rightarrow> stream_type \<times> stream_state option" where
  "find_stream_by_sender_sync_source source ss =
     (if (case fst ss of None \<Rightarrow> False | Some s \<Rightarrow> sender_sync_source s = source) then (Audio, fst ss)
      else if (case snd ss of None \<Rightarrow> False | Some s \<Rightarrow> sender_sync_source s = source) then (Video, snd ss)
      else if is_audio source then (Audio, None) else (Video, None))"

definition find_stream_by_receiver_sync_source :: "sync_source \<Rightarrow> streams \<Rightarrow> stream_type option" where
  "find_stream_by_receiver_sync_source source ss =
     (if (case fst ss of None \<Rightarrow> False | Some s \<Rightarrow> receiver_sync_source s = source) then Some Audio
      else if (case snd ss of None \<Rightarrow> False | Some s \<Rightarrow> receiver_sync_source s = source) then Some Video
      else None)"

subsection \<open>Feedback\<close>

definition process_receiver_report :: "instant \<Rightarrow> receiver_report \<Rightarrow> streams \<Rightarrow> streams" where
  "process_receiver_report received_at report ss =
     (case find_stream_by_sender_sync_source (rr_sync_source report) ss of
        (ty, None) \<Rightarrow> ss
      | (ty, Some s) \<Rightarrow>
          if \<not> accepts_receiver_sync_source s (rr_receiver_sync_source report) then ss
          else put_stream ty (update_receiver_report s report received_at) ss)"

definition process_nack ::
  "stream_type \<Rightarrow> frame_id \<Rightarrow> packet_nack \<Rightarrow> stream_state \<times> event_channel \<Rightarrow> stream_state \<times> event_channel"
where
  "process_nack ty cp nack sc =
     (let (s, ch) = sc;
          frame_id = frame_id_expand (frame_id_truncate (nack_frame_id nack)) cp;
          (s1, packets_queued) = handle_nack s frame_id (nack_packet_id nack)
      in (s1, emit_nonterminal ch
                (PacketRetransmission ty frame_id (nack_packet_id nack) packets_queued)))"

definition mark_progress :: "stream_type \<Rightarrow> acknowledgement_progress \<Rightarrow> acknowledgement_progress" where
  "mark_progress ty p = (case ty of Audio \<Rightarrow> p\<lparr>ap_audio := True\<rparr> | Video \<Rightarrow> p\<lparr>ap_video := True\<rparr>)"

text \<open>The part of the feedback loop that works on the stream it was addressed to.\<close>

definition apply_cast_feedback ::
  "stream_type \<Rightarrow> cast_feedback \<Rightarrow> stream_state \<Rightarrow> event_channel
     \<Rightarrow> stream_state \<times> event_channel \<times> frame_id list" where
  "apply_cast_feedback ty feedback s ch =
     (let s1 = update_playout_delay s (playout_delay_ms feedback);
          cp = frame_id_expand_lte (checkpoint_frame_id feedback) (next_frame_id s1 + - 1);
          (s2, acked1) = acknowledge_up_to s1 cp;
          (s3, acked2) = acknowledge_bitvector s2 cp (cf_ack_bitvector feedback);
          acknowledged = acked1 @ acked2;
          ch1 = fold (\<lambda>frame_id c. emit_nonterminal c (FrameAcked ty frame_id)) acknowledged ch;
          (s4, ch2) = fold (process_nack ty cp) (nacks feedback) (s3, ch1)
      in (s4, ch2, acknowledged))"

definition process_cast_feedback ::
  "cast_feedback \<Rightarrow> streams \<times> event_channel \<times> acknowledgement_progress
     \<Rightarrow> streams \<times> event_channel \<times> acknowledgement_progress" where
  "process_cast_feedback feedback x =
     (let (ss, ch, progress) = x
      in case find_stream_by_sender_sync_source (cf_sender_sync_source feedback) ss of
           (ty, None) \<Rightarrow> x
         | (ty, Some s) \<Rightarrow>
             if \<not> accepts_receiver_sync_source s (cf_receiver_sync_source feedback) then x
             else let (s1, ch1, acknowledged) = apply_cast_feedback ty feedback s ch
                  in (put_stream ty s1 ss, ch1,
                      if acknowledged \<noteq> [] then mark_progress ty progress else progress))"

definition process_picture_loss ::
  "streams \<Rightarrow> picture_loss_indication \<Rightarrow> event_channel \<Rightarrow> event_channel" where
  "process_picture_loss ss loss ch =
     (case find_stream_by_sender_sync_source (pli_sender_sync_source loss) ss of
        (ty, None) \<Rightarrow> ch
      | (ty, Some s) \<Rightarrow>
          if accepts_receiver_sync_source s (pli_receiver_sync_source loss)
          then emit_nonterminal (emit_nonterminal ch (PictureLoss ty)) (NeedsKeyFrame ty)
          else ch)"

definition process_reference_time :: "receiver_reference_time \<Rightarrow> streams \<Rightarrow> streams" where
  "process_reference_time rrt ss =
     (case find_stream_by_receiver_sync_source (rrt_receiver_sync_source rrt) ss of
        None \<Rightarrow> ss
      | Some ty \<Rightarrow>
          (case get_stream ty ss of
             None \<Rightarrow> ss
           | Some s \<Rightarrow> put_stream ty (update_receiver_reference_time s rrt) ss))"

definition process_feedback ::
  "compound_rtcp_packet \<Rightarrow> instant \<Rightarrow> streams \<Rightarrow> event_channel
     \<Rightarrow> streams \<times> event_channel \<times> acknowledgement_progress" where
  "process_feedback compound received_at ss ch =
     (let ss1 = fold (process_receiver_report received_at) (receiver_reports compound) ss;
          (ss2, ch2, progress) = fold process_cast_feedback (cast_feedbacks compound)
            (ss1, ch, \<lparr>ap_audio = False, ap_video = False\<rparr>);
          ch3 = fold (process_picture_loss ss2) (picture_loss compound) ch2;
          ss4 = fold process_reference_time (receiver_reference_times compound) ss2
      in (ss4, ch3, progress))"

definition contains_receiver_feedback :: "compound_rtcp_packet \<Rightarrow> bool" where
  "contains_receiver_feedback compound \<longleftrightarrow>
     receiver_reports compound \<noteq> [] \<or> cast_feedbacks compound \<noteq> [] \<or>
     picture_loss compound \<noteq> [] \<or> receiver_reference_times compound \<noteq> []"

fun is_expected_receiver_source :: "socket_addr \<Rightarrow> socket_addr \<Rightarrow> bool" where
  "is_expected_receiver_source (V4 ip _) (V4 ip' _) \<longleftrightarrow> ip = ip'"
| "is_expected_receiver_source (V6 ip _ _ scope) (V6 ip' _ _ scope') \<longleftrightarrow>
     ip = ip' \<and> (scope' = 0 \<or> scope = scope')"
| "is_expected_receiver_source _ _ \<longleftrightarrow> False"

subsection \<open>Statistics\<close>

definition session_statistics :: "streams \<Rightarrow> session_statistics_record" where
  "session_statistics ss =
     \<lparr>ss_audio = map_option statistics (fst ss), ss_video = map_option statistics (snd ss)\<rparr>"

definition feedback_state_of :: "stream_state \<Rightarrow> stream_feedback_state_record" where
  "feedback_state_of s =
     (let st = statistics s
      in \<lparr>sf_pressure_limited =
            (st_max_acceptable_in_flight_duration st \<noteq> 0 \<and>
             st_in_flight_media_duration st \<ge> st_max_acceptable_in_flight_duration st),
          sf_max_acceptable_in_flight_duration = st_max_acceptable_in_flight_duration st,
          sf_current_rtt = st_current_rtt st,
          sf_receiver_playout_delay = st_receiver_playout_delay st,
          sf_nack_count = st_nack_count st,
          sf_frames_dropped_or_skipped = st_frames_dropped_or_skipped st,
          sf_fraction_lost = st_fraction_lost st\<rparr>)"

definition stream_feedback_state :: "stream_type \<Rightarrow> streams \<Rightarrow> stream_feedback_state_record option" where
  "stream_feedback_state ty ss = map_option feedback_state_of (get_stream ty ss)"

definition session_feedback_state ::
  "streams \<Rightarrow> stream_feedback_state_record option \<times> stream_feedback_state_record option" where
  "session_feedback_state ss = (stream_feedback_state Audio ss, stream_feedback_state Video ss)"

definition set_target_playout_delay ::
  "streams \<Rightarrow> duration \<Rightarrow> streams \<times> (playout_delay_error + unit)" where
  "set_target_playout_delay ss delay =
     (if list_ex (\<lambda>s. \<not> adaptive_playout_delay s)
           (case_option [] (\<lambda>s. [s]) (fst ss) @ case_option [] (\<lambda>s. [s]) (snd ss))
      then (ss, Inl Unsupported)
      else ((map_option (\<lambda>s. set_stream_playout_delay s delay) (fst ss),
             map_option (\<lambda>s. set_stream_playout_delay s delay) (snd ss)), Inr ()))"

subsection \<open>The arms of the loop\<close>

definition trigger_statistics :: "instant \<Rightarrow> loop_state \<Rightarrow> loop_state" where
  "trigger_statistics now st =
     (let st1 = st\<lparr>statistics_trigger_count := saturating_add_u64 (statistics_trigger_count st) 1\<rparr>
      in if statistics_pending st then st1
         else st1\<lparr>statistics_pending := True,
                  statistics_deadline := now + STATISTICS_DEBOUNCE_INTERVAL\<rparr>)"

definition fail_loop :: "loop_state \<Rightarrow> sender_error \<Rightarrow> loop_outcome" where
  "fail_loop st error = Returned (st\<lparr>events := emit_fatal (events st) error\<rparr>) (Inl error)"

definition flush_arm :: "network \<Rightarrow> instant \<Rightarrow> loop_state \<Rightarrow> loop_outcome" where
  "flush_arm net now st =
     (case flush_queued_packets net now st of
        (st1, Inl error) \<Rightarrow> fail_loop st1 error
      | (st1, Inr _) \<Rightarrow> Running st1)"

definition and_then :: "loop_outcome \<Rightarrow> (loop_state \<Rightarrow> loop_outcome) \<Rightarrow> loop_outcome" where
  "and_then x f = (case x of Running st \<Rightarrow> f st | _ \<Rightarrow> x)"

definition enqueue_command ::
  "cipher \<Rightarrow> network \<Rightarrow> clock \<Rightarrow> stream_type \<Rightarrow> encoded_frame \<Rightarrow> loop_state
     \<Rightarrow> loop_outcome \<times> command_reply option" where
  "enqueue_command ap net ck ty frame st =
     (let feedback_before = stream_feedback_state ty (streams st)
      in case get_stream ty (streams st) of
           None \<Rightarrow> (Running st, Some (FrameReply (Inl EnqueueSessionClosed)))
         | Some s \<Rightarrow>
             (case enqueue_frame ap s frame of
                (_, Inl Panic) \<Rightarrow> (Panicked, None)
              | (s1, Inl (Err e)) \<Rightarrow>
                  (Running (trigger_statistics (ck_instant ck)
                     (st\<lparr>streams := put_stream ty s1 (streams st)\<rparr>)),
                   Some (FrameReply (Inl e)))
              | (s1, Inr frame_id) \<Rightarrow>
                  let st1 = st\<lparr>streams := put_stream ty s1 (streams st)\<rparr>;
                      publish = (feedback_before \<noteq> stream_feedback_state ty (streams st1))
                  in (and_then (flush_arm net (ck_instant ck) st1) (\<lambda>st2.
                        Running (if publish then trigger_statistics (ck_instant ck) st2 else st2)),
                      Some (FrameReply (Inr frame_id)))))"

definition delay_command ::
  "clock \<Rightarrow> duration \<Rightarrow> loop_state \<Rightarrow> loop_outcome \<times> command_reply option" where
  "delay_command ck delay st =
     (let feedback_before = session_feedback_state (streams st);
          (ss, r) = set_target_playout_delay (streams st) delay;
          st1 = st\<lparr>streams := ss\<rparr>;
          publish = (r = Inr () \<and> feedback_before \<noteq> session_feedback_state ss)
      in (Running (if publish then trigger_statistics (ck_instant ck) st1 else st1),
          Some (DelayReply r)))"

text \<open>\<open>None\<close> is the closed command channel.\<close>

definition command_arm ::
  "cipher \<Rightarrow> network \<Rightarrow> clock \<Rightarrow> stream_command option \<Rightarrow> loop_state
     \<Rightarrow> loop_outcome \<times> command_reply option" where
  "command_arm ap net ck command st =
     (case command of
        None \<Rightarrow> (Returned st (Inr ()), None)
      | Some (EnqueueFrame ty frame) \<Rightarrow> enqueue_command ap net ck ty frame st
      | Some Statistics \<Rightarrow> (Running st, Some (StatisticsReply (session_statistics (streams st))))
      | Some (SetTargetPlayoutDelay delay) \<Rightarrow> delay_command ck delay st
      | Some Shutdown \<Rightarrow> (Returned st (Inr ()), Some ShutdownReply))"

definition burst_arm :: "network \<Rightarrow> clock \<Rightarrow> loop_state \<Rightarrow> loop_outcome" where
  "burst_arm net ck st = flush_arm net (ck_instant ck) st"

definition has_frames_in_flight :: "stream_state option \<Rightarrow> bool" where
  "has_frames_in_flight so = (case so of None \<Rightarrow> False | Some s \<Rightarrow> in_flight_count s \<noteq> 0)"

definition feedback_arm ::
  "network \<Rightarrow> clock \<Rightarrow> compound_rtcp_packet \<Rightarrow> loop_state \<Rightarrow> loop_outcome" where
  "feedback_arm net ck compound st =
     (let feedback_before = session_feedback_state (streams st);
          (ss, ch, progress) = process_feedback compound (ck_instant ck) (streams st) (events st);
          aw = (if ap_audio progress
                then acknowledgement_advanced (audio_watchdog st) (has_frames_in_flight (fst ss)) (ck_instant ck)
                else audio_watchdog st);
          vw = (if ap_video progress
                then acknowledgement_advanced (video_watchdog st) (has_frames_in_flight (snd ss)) (ck_instant ck)
                else video_watchdog st)
      in and_then
           (flush_arm net (ck_instant ck)
              (st\<lparr>streams := ss, events := ch, audio_watchdog := aw, video_watchdog := vw\<rparr>))
           (\<lambda>st1. Running (if feedback_before \<noteq> session_feedback_state (streams st1)
                           then trigger_statistics (ck_instant ck) st1 else st1)))"

definition receive_arm ::
  "network \<Rightarrow> clock \<Rightarrow> socket_addr \<Rightarrow> io_error + (bytes \<times> socket_addr) \<Rightarrow> loop_state \<Rightarrow> loop_outcome"
where
  "receive_arm net ck remote_address received st =
     (case received of
        Inl Interrupted \<Rightarrow> Running st
      | Inl error \<Rightarrow> fail_loop st (transport_error ''receive RTCP packet'' error)
      | Inr (data, address) \<Rightarrow>
          if \<not> is_expected_receiver_source address remote_address then Running st
          else if length data > RECEIVE_BUFFER_SIZE then Panicked
          else case classify_packet data of
                 Rtcp _ \<Rightarrow>
                   (case parse_compound data of
                      Inr compound \<Rightarrow>
                        if contains_receiver_feedback compound then feedback_arm net ck compound st
                        else Running st
                    | Inl (Err e) \<Rightarrow>
                        Running (st\<lparr>events := emit_nonterminal (events st)
                                     (MalformedPacket (parse_error_display e))\<rparr>)
                    | Inl Panic \<Rightarrow> Panicked)
               | _ \<Rightarrow> Running st)"

definition report_stream ::
  "network \<Rightarrow> clock \<Rightarrow> stream_type \<Rightarrow> string \<Rightarrow> loop_state \<Rightarrow> loop_outcome" where
  "report_stream net ck ty operation st =
     (case get_stream ty (streams st) of
        None \<Rightarrow> Running st
      | Some s \<Rightarrow>
          let ((s1, sent1), r) = send_sender_report net ck (wire st) s operation;
              st1 = st\<lparr>streams := put_stream ty s1 (streams st), wire := sent1\<rparr>
          in (case r of Inl error \<Rightarrow> fail_loop st1 error | Inr _ \<Rightarrow> Running st1))"

definition rtcp_arm :: "network \<Rightarrow> clock \<Rightarrow> loop_state \<Rightarrow> loop_outcome" where
  "rtcp_arm net ck st =
     and_then (report_stream net ck Audio ''send audio RTCP Sender Report'' st)
       (report_stream net ck Video ''send video RTCP Sender Report'')"

definition statistics_arm :: "loop_state \<Rightarrow> loop_outcome" where
  "statistics_arm st =
     Running (st\<lparr>statistics_pending := False, statistics_trigger_count := 0,
                 events := emit_nonterminal (events st)
                   (StatisticsUpdated (session_statistics (streams st)))\<rparr>)"

definition timeout_arm :: "clock \<Rightarrow> loop_state \<Rightarrow> loop_outcome" where
  "timeout_arm ck st =
     (let (aw, audio_timed_out) = timed_out (audio_watchdog st)
            (has_frames_in_flight (fst (streams st))) (ck_instant ck);
          (vw, video_timed_out) = timed_out (video_watchdog st)
            (has_frames_in_flight (snd (streams st))) (ck_instant ck);
          st1 = st\<lparr>audio_watchdog := aw, video_watchdog := vw\<rparr>
      in if audio_timed_out \<or> video_timed_out
         then Returned (st1\<lparr>events := try_send (events st1) ReceiverTimedOut\<rparr>) (Inl ReceiverTimedOutError)
         else Running st1)"

definition loop_start :: "instant \<Rightarrow> streams \<Rightarrow> loop_state" where
  "loop_start now ss =
     \<lparr>streams = ss, statistics_pending = False, statistics_trigger_count = 0,
      statistics_deadline = now + STATISTICS_DEBOUNCE_INTERVAL,
      audio_watchdog = watchdog_default, video_watchdog = watchdog_default,
      burst_budget = burst_budget_new now,
      events = \<lparr>ec_queue = [], ec_open = True\<rparr>, wire = []\<rparr>"

text \<open>The \<open>select!\<close>: an input is the branch that is ready and what it delivers. The statistics
  branch is enabled only while a publication is pending.\<close>

datatype loop_input = Command "stream_command option" | BurstTick
  | Received "io_error + (bytes \<times> socket_addr)" | RtcpTick | StatisticsTick | TimeoutTick

fun run_step :: "cipher \<Rightarrow> network \<Rightarrow> socket_addr \<Rightarrow> clock \<Rightarrow> loop_input \<Rightarrow> loop_state \<Rightarrow> loop_outcome" where
  "run_step ap net remote ck (Command c) st = fst (command_arm ap net ck c st)"
| "run_step ap net remote ck BurstTick st = burst_arm net ck st"
| "run_step ap net remote ck (Received r) st = receive_arm net ck remote r st"
| "run_step ap net remote ck RtcpTick st = rtcp_arm net ck st"
| "run_step ap net remote ck StatisticsTick st = (if statistics_pending st then statistics_arm st else Running st)"
| "run_step ap net remote ck TimeoutTick st = timeout_arm ck st"

fun run :: "cipher \<Rightarrow> network \<Rightarrow> socket_addr \<Rightarrow> (clock \<times> loop_input) list \<Rightarrow> loop_state \<Rightarrow> loop_outcome" where
  "run ap net remote [] st = Running st"
| "run ap net remote ((ck, i) # is) st = and_then (run_step ap net remote ck i st) (run ap net remote is)"

end
