(* ===== verification/Event_Loop_Correct.thy ===== *)
theory Event_Loop_Correct
  imports Event_Loop
begin

text \<open>
  What the sender loop guarantees in every state it can reach, with any inputs in any order, any
  clock readings, any answers of the transport, and an application that takes events or drops
  their channel at any time.
\<close>

subsection \<open>Reachable loop states\<close>

definition streams_ok :: "cipher \<Rightarrow> streams \<Rightarrow> bool" where
  "streams_ok ap ss \<longleftrightarrow> (\<forall>ty s. get_stream ty ss = Some s \<longrightarrow> stream_reach ap s)"

inductive loop_reach :: "cipher \<Rightarrow> network \<Rightarrow> socket_addr \<Rightarrow> loop_state \<Rightarrow> bool"
  for ap net remote where
  loop_reach_start: "streams_ok ap ss \<Longrightarrow> loop_reach ap net remote (loop_start now ss)"
| loop_reach_step: "loop_reach ap net remote st \<Longrightarrow>
    last_refill (burst_budget st) \<le> ck_instant ck \<Longrightarrow> ck_instant ck < 2 ^ 96 \<Longrightarrow>
    run_step ap net remote ck i st = Running st' \<Longrightarrow> loop_reach ap net remote st'"
| loop_reach_take: "loop_reach ap net remote st \<Longrightarrow>
    loop_reach ap net remote (st\<lparr>events := (events st)\<lparr>ec_queue := tl (ec_queue (events st))\<rparr>\<rparr>)"
| loop_reach_drop: "loop_reach ap net remote st \<Longrightarrow>
    loop_reach ap net remote (st\<lparr>events := \<lparr>ec_queue = [], ec_open = False\<rparr>\<rparr>)"

definition events_ok :: "event_channel \<Rightarrow> bool" where
  "events_ok ch \<longleftrightarrow> length (ec_queue ch) + RESERVED_TERMINAL_EVENT_SLOTS \<le> EVENT_CHANNEL_CAPACITY"

definition loop_inv :: "cipher \<Rightarrow> loop_state \<Rightarrow> bool" where
  "loop_inv ap st \<longleftrightarrow> streams_ok ap (streams st) \<and> events_ok (events st) \<and> budget_inv (burst_budget st)"

lemma streams_okD:
  "streams_ok ap ss \<Longrightarrow> get_stream ty ss = Some s \<Longrightarrow> stream_reach ap s"
  by (auto simp: streams_ok_def)

lemma get_put_stream:
  "get_stream ty (put_stream ty' s ss) = (if ty = ty' then Some s else get_stream ty ss)"
  by (cases ty; cases ty') (simp_all add: get_stream_def put_stream_def)

lemma streams_ok_put: "streams_ok ap ss \<Longrightarrow> stream_reach ap s \<Longrightarrow> streams_ok ap (put_stream ty s ss)"
  by (simp add: streams_ok_def get_put_stream)

lemma streams_ok_iff:
  "streams_ok ap ss \<longleftrightarrow>
     (\<forall>s. fst ss = Some s \<longrightarrow> stream_reach ap s) \<and> (\<forall>s. snd ss = Some s \<longrightarrow> stream_reach ap s)"
  by (auto simp: streams_ok_def get_stream_def split: stream_type.splits)

lemma find_by_sender:
  "find_stream_by_sender_sync_source source ss = (ty, Some s) \<Longrightarrow>
     get_stream ty ss = Some s \<and> sender_sync_source s = source"
  by (auto simp: find_stream_by_sender_sync_source_def get_stream_def split: if_splits option.splits)

subsection \<open>Events\<close>

lemma events_ok_emit_nonterminal: "events_ok ch \<Longrightarrow> events_ok (emit_nonterminal ch e)"
  by (auto simp: events_ok_def emit_nonterminal_def try_send_def EVENT_CHANNEL_CAPACITY_def
      RESERVED_TERMINAL_EVENT_SLOTS_def)

lemma events_ok_fold:
  "(\<And>x ch. events_ok ch \<Longrightarrow> events_ok (f x ch)) \<Longrightarrow> events_ok ch \<Longrightarrow> events_ok (fold f xs ch)"
  by (induction xs arbitrary: ch) simp_all

lemma try_send_delivered:
  "events_ok ch \<Longrightarrow> ec_open ch \<Longrightarrow> ec_queue (try_send ch e) = ec_queue ch @ [e]"
  by (auto simp: events_ok_def try_send_def RESERVED_TERMINAL_EVENT_SLOTS_def)

lemma emit_nonterminal_open [simp]: "ec_open (emit_nonterminal ch e) = ec_open ch"
  by (simp add: emit_nonterminal_def try_send_def)

subsection \<open>Flushing\<close>

lemma reach_next_packet: "stream_reach ap s \<Longrightarrow> next_packet s = (t, p) \<Longrightarrow> stream_reach ap t"
  using reach_step step_next_packet by (metis fst_conv)

lemma reach_record_packet_sent: "stream_reach ap s \<Longrightarrow> stream_reach ap (record_packet_sent s n r)"
  using reach_step step_packet_sent by blast

lemma flush_no_credit:
  "\<not> has_credit b \<Longrightarrow> flush_stream_packets net now op (s, w, b, sent) = ((s, w, b, sent), Inr ())"
  by (simp add: flush_stream_packets.simps)

lemma flush_empty:
  "has_credit b \<Longrightarrow> next_packet s = (t, None) \<Longrightarrow>
     flush_stream_packets net now op (s, w, b, sent) = ((t, w, b, sent), Inr ())"
  by (simp add: flush_stream_packets.simps)

lemma flush_error:
  "has_credit b \<Longrightarrow> next_packet s = (t, Some out) \<Longrightarrow>
     send_datagram net sent (op_packet out) op = (sent1, Inl e) \<Longrightarrow>
     flush_stream_packets net now op (s, w, b, sent) = ((t, w, b, sent1), Inl e)"
  by (subst flush_stream_packets.simps) simp

lemma flush_send:
  "has_credit b \<Longrightarrow> next_packet s = (t, Some out) \<Longrightarrow>
     send_datagram net sent (op_packet out) op = (sent1, Inr ()) \<Longrightarrow>
     flush_stream_packets net now op (s, w, b, sent) =
       flush_stream_packets net now op
         (record_packet_sent t (length (op_packet out)) (op_retransmission out), packet_sent w now,
          consume b (length (op_packet out)), sent1)"
  by (subst flush_stream_packets.simps) (simp add: Let_def)

text \<open>The flush loop ends in one of three ways or sends a packet and goes on.\<close>

lemma flush_induct [case_names no_credit empty error send]:
  assumes no_credit: "\<And>s w b sent. \<not> has_credit b \<Longrightarrow> P s w b sent ((s, w, b, sent), Inr ())"
    and empty: "\<And>s w b sent t. has_credit b \<Longrightarrow> next_packet s = (t, None) \<Longrightarrow>
      P s w b sent ((t, w, b, sent), Inr ())"
    and error: "\<And>s w b sent t out sent1 e. has_credit b \<Longrightarrow> next_packet s = (t, Some out) \<Longrightarrow>
      send_datagram net sent (op_packet out) op = (sent1, Inl e) \<Longrightarrow>
      P s w b sent ((t, w, b, sent1), Inl e)"
    and send: "\<And>s w b sent t out sent1 res. has_credit b \<Longrightarrow> next_packet s = (t, Some out) \<Longrightarrow>
      send_datagram net sent (op_packet out) op = (sent1, Inr ()) \<Longrightarrow>
      P (record_packet_sent t (length (op_packet out)) (op_retransmission out)) (packet_sent w now)
        (consume b (length (op_packet out))) sent1 res \<Longrightarrow>
      P s w b sent res"
  shows "P s w b sent (flush_stream_packets net now op (s, w, b, sent))"
proof (induction "queued_packets s" arbitrary: s w b sent rule: less_induct)
  case less
  obtain t p where p: "next_packet s = (t, p)" by fastforce
  show ?case
  proof (cases "has_credit b")
    case True
    show ?thesis
    proof (cases p)
      case None
      with p True show ?thesis by (simp add: flush_empty empty)
    next
      case (Some out)
      obtain sent1 r where d: "send_datagram net sent (op_packet out) op = (sent1, r)" by fastforce
      show ?thesis
      proof (cases r)
        case (Inl e)
        with p Some d True show ?thesis by (simp add: flush_error error)
      next
        case (Inr u)
        have "queued_packets (record_packet_sent t (length (op_packet out)) (op_retransmission out)) <
            queued_packets s"
          using queued_packets_next p Some by simp
        from send [OF True _ _ less [OF this]] show ?thesis
          using p Some d Inr True by (simp add: flush_send)
      qed
    qed
  qed (simp add: flush_no_credit no_credit)
qed

definition flush_keeps :: "cipher \<Rightarrow> stream_state \<Rightarrow> burst_budget \<Rightarrow> flush_state \<times> (sender_error + unit) \<Rightarrow> bool" where
  "flush_keeps ap s b res \<longleftrightarrow>
     (stream_reach ap s \<longrightarrow> budget_inv b \<longrightarrow>
        stream_reach ap (fst (fst res)) \<and> budget_inv (fst (snd (snd (fst res)))))"

lemma flush_stream_keeps: "flush_keeps ap s b (flush_stream_packets net now op (s, w, b, sent))"
  by (induction s w b sent rule: flush_induct)
     (auto simp: flush_keeps_def reach_record_packet_sent budget_inv_consume dest: reach_next_packet)

lemma flush_option_keeps:
  assumes "flush_stream_option net now op so w b sent = ((so', w', b', sent'), r)"
    and "\<And>s. so = Some s \<Longrightarrow> stream_reach ap s" and "budget_inv b"
  shows "(\<forall>s. so' = Some s \<longrightarrow> stream_reach ap s) \<and> budget_inv b'"
proof (cases so)
  case None
  then show ?thesis using assms by (simp add: flush_stream_option_def)
next
  case (Some s)
  then show ?thesis
    using assms flush_stream_keeps [of ap s b net now op w sent]
    by (auto simp: flush_stream_option_def flush_keeps_def split: prod.splits)
qed

lemma flush_queued_keeps:
  assumes "loop_inv ap st" and "now - last_refill (burst_budget st) < 2 ^ 96"
    and "flush_queued_packets net now st = (st', r)"
  shows "loop_inv ap st' \<and> events st' = events st"
proof -
  have ok: "streams_ok ap (streams st)" "events_ok (events st)"
    "budget_inv (refill (burst_budget st) now)"
    using assms(1, 2) budget_inv_refill by (auto simp: loop_inv_def)
  obtain a aw b1 sent1 r1 where f1: "flush_stream_option net now ''send audio RTP packet''
      (fst (streams st)) (audio_watchdog st) (refill (burst_budget st) now) (wire st) =
      ((a, aw, b1, sent1), r1)" by (metis prod.exhaust)
  have k1: "\<forall>s. a = Some s \<longrightarrow> stream_reach ap s" "budget_inv b1"
    using flush_option_keeps [OF f1 _ ok(3), of ap] ok(1) unfolding streams_ok_iff by blast+
  obtain v vw b2 sent2 r2 where f2: "flush_stream_option net now ''send video RTP packet''
      (snd (streams st)) (video_watchdog st) b1 sent1 = ((v, vw, b2, sent2), r2)" by (metis prod.exhaust)
  have k2: "\<forall>s. v = Some s \<longrightarrow> stream_reach ap s" "budget_inv b2"
    using flush_option_keeps [OF f2 _ k1(2), of ap] ok(1) unfolding streams_ok_iff by blast+
  show ?thesis
    using assms(3) f1 f2 k1 k2 ok
    by (cases r1) (auto simp: flush_queued_packets_def loop_inv_def streams_ok_iff Let_def)
qed

subsection \<open>Feedback\<close>

lemma expand_checkpoint_less: "frame_id_expand_lte w (n + - 1) < n"
  using below.expand_le [of w "n + - 1"] by simp

lemma reach_steps:
  assumes "stream_reach ap s"
  shows "stream_reach ap (update_receiver_report s report at)"
    and "stream_reach ap (update_playout_delay s d)"
    and "stream_reach ap (update_receiver_reference_time s rrt)"
    and "stream_reach ap (set_stream_playout_delay s delay)"
    and "stream_reach ap (record_sender_report s ntp at)"
    and "i < next_frame_id s \<Longrightarrow> stream_reach ap (fst (acknowledge_up_to s i))"
    and "stream_reach ap (fst (acknowledge_bitvector s cp ack))"
    and "stream_reach ap (fst (handle_nack s i packet_id))"
    and "stream_reach ap (fst (enqueue_frame ap s frame))"
  using assms by (auto intro: reach_step stream_step.intros)

lemma streams_ok_receiver_report:
  "streams_ok ap ss \<Longrightarrow> streams_ok ap (process_receiver_report at report ss)"
  unfolding process_receiver_report_def
  by (auto split: prod.splits option.splits dest!: find_by_sender
      intro!: streams_ok_put reach_steps(1) elim: streams_okD)

lemma process_nacks_ok:
  "stream_reach ap s \<Longrightarrow> events_ok ch \<Longrightarrow> fold (process_nack ty cp) ns (s, ch) = (s', ch') \<Longrightarrow>
     stream_reach ap s' \<and> events_ok ch' \<and> ec_open ch' = ec_open ch"
proof (induction ns arbitrary: s ch)
  case (Cons n ns)
  obtain s1 ch1 where n: "process_nack ty cp n (s, ch) = (s1, ch1)" by fastforce
  then have "stream_reach ap s1" "events_ok ch1" "ec_open ch1 = ec_open ch"
    using Cons.prems(1, 2) reach_steps(8) [OF Cons.prems(1)]
    by (auto simp: process_nack_def Let_def split_def intro: events_ok_emit_nonterminal)
  then show ?case using Cons.IH Cons.prems(3) n by simp
qed simp

lemma fold_open: "(\<And>x ch. ec_open (f x ch) = ec_open ch) \<Longrightarrow> ec_open (fold f xs ch) = ec_open ch"
  by (induction xs arbitrary: ch) simp_all

lemma apply_cast_feedback_ok:
  assumes "stream_reach ap s" and "events_ok ch" and "apply_cast_feedback ty fb s ch = (s', ch', acked)"
  shows "stream_reach ap s' \<and> events_ok ch' \<and> ec_open ch' = ec_open ch"
proof -
  let ?s1 = "update_playout_delay s (playout_delay_ms fb)"
  let ?cp = "frame_id_expand_lte (checkpoint_frame_id fb) (next_frame_id ?s1 + - 1)"
  obtain s2 acked1 where a1: "acknowledge_up_to ?s1 ?cp = (s2, acked1)" by fastforce
  obtain s3 acked2 where a2: "acknowledge_bitvector s2 ?cp (cf_ack_bitvector fb) = (s3, acked2)" by fastforce
  let ?ch1 = "fold (\<lambda>i c. emit_nonterminal c (FrameAcked ty i)) (acked1 @ acked2) ch"
  have "stream_reach ap s2"
    using reach_steps(6) [OF reach_steps(2) [OF assms(1)] expand_checkpoint_less] a1 by (metis fst_conv)
  then have s3: "stream_reach ap s3" using reach_steps(7) a2 by (metis fst_conv)
  have ch1: "events_ok ?ch1"
    using assms(2) by (intro events_ok_fold events_ok_emit_nonterminal)
  have ch1_open: "ec_open ?ch1 = ec_open ch"
    by (rule fold_open) simp
  have "fold (process_nack ty ?cp) (nacks fb) (s3, ?ch1) = (s', ch')"
    using assms(3) a1 a2 by (simp add: apply_cast_feedback_def Let_def split: prod.splits)
  then show ?thesis using process_nacks_ok [OF s3 ch1] ch1_open by simp
qed

definition feedback_ok :: "cipher \<Rightarrow> bool \<Rightarrow> streams \<times> event_channel \<times> acknowledgement_progress \<Rightarrow> bool" where
  "feedback_ok ap opn x \<longleftrightarrow>
     streams_ok ap (fst x) \<and> events_ok (fst (snd x)) \<and> ec_open (fst (snd x)) = opn"

lemma process_cast_feedback_ok:
  assumes "feedback_ok ap opn x"
  shows "feedback_ok ap opn (process_cast_feedback fb x)"
proof -
  obtain ss ch progress where x: "x = (ss, ch, progress)" by (cases x)
  obtain ty so where f: "find_stream_by_sender_sync_source (cf_sender_sync_source fb) ss = (ty, so)"
    by fastforce
  show ?thesis
  proof (cases "\<exists>s. so = Some s \<and> accepts_receiver_sync_source s (cf_receiver_sync_source fb)")
    case True
    then obtain s where s: "so = Some s" "accepts_receiver_sync_source s (cf_receiver_sync_source fb)"
      by blast
    obtain s1 ch1 acked where a: "apply_cast_feedback ty fb s ch = (s1, ch1, acked)"
      by (metis prod.exhaust)
    have "stream_reach ap s"
      using assms find_by_sender [OF f [unfolded s(1)]] by (auto simp: feedback_ok_def x intro: streams_okD)
    then show ?thesis
      using assms apply_cast_feedback_ok [OF _ _ a, of ap] f s a
      by (auto simp: process_cast_feedback_def feedback_ok_def x intro: streams_ok_put)
  next
    case False
    then have "process_cast_feedback fb x = x"
      using f by (auto simp: process_cast_feedback_def x split: option.splits)
    with assms show ?thesis by simp
  qed
qed

lemma fold_invariant: "(\<And>x a. P a \<Longrightarrow> P (f x a)) \<Longrightarrow> P a \<Longrightarrow> P (fold f xs a)"
  by (induction xs arbitrary: a) simp_all

lemma picture_loss_ok:
  "events_ok ch \<and> ec_open ch = opn \<Longrightarrow>
     events_ok (process_picture_loss ss loss ch) \<and> ec_open (process_picture_loss ss loss ch) = opn"
  by (auto simp: process_picture_loss_def events_ok_emit_nonterminal split: prod.splits option.splits)

lemma streams_ok_reference_time: "streams_ok ap ss \<Longrightarrow> streams_ok ap (process_reference_time rrt ss)"
  unfolding process_reference_time_def
  by (auto split: option.splits intro!: streams_ok_put reach_steps(3) elim: streams_okD)

lemma process_feedback_ok:
  assumes "streams_ok ap ss" and "events_ok ch" and "process_feedback c at ss ch = (ss', ch', progress)"
  shows "streams_ok ap ss' \<and> events_ok ch' \<and> ec_open ch' = ec_open ch"
proof -
  let ?ss1 = "fold (process_receiver_report at) (receiver_reports c) ss"
  obtain ss2 ch2 p2 where f: "fold process_cast_feedback (cast_feedbacks c)
      (?ss1, ch, \<lparr>ap_audio = False, ap_video = False\<rparr>) = (ss2, ch2, p2)" by (metis prod.exhaust)
  have "streams_ok ap ?ss1"
    using assms(1) by (intro fold_invariant [where P = "streams_ok ap"] streams_ok_receiver_report)
  then have "feedback_ok ap (ec_open ch) (?ss1, ch, \<lparr>ap_audio = False, ap_video = False\<rparr>)"
    using assms(2) by (simp add: feedback_ok_def)
  then have "feedback_ok ap (ec_open ch) (fold process_cast_feedback (cast_feedbacks c)
      (?ss1, ch, \<lparr>ap_audio = False, ap_video = False\<rparr>))"
    by (intro fold_invariant [where P = "feedback_ok ap (ec_open ch)"] process_cast_feedback_ok)
  then have 2: "streams_ok ap ss2" "events_ok ch2 \<and> ec_open ch2 = ec_open ch"
    unfolding f by (simp_all add: feedback_ok_def)
  have "streams_ok ap (fold process_reference_time (receiver_reference_times c) ss2)"
    using 2(1) by (intro fold_invariant [where P = "streams_ok ap"] streams_ok_reference_time)
  moreover have "events_ok (fold (process_picture_loss ss2) (picture_loss c) ch2) \<and>
      ec_open (fold (process_picture_loss ss2) (picture_loss c) ch2) = ec_open ch"
    using 2(2) picture_loss_ok
    by (intro fold_invariant [where P = "\<lambda>h. events_ok h \<and> ec_open h = ec_open ch"])
  ultimately show ?thesis
    using assms(3) f by (simp add: process_feedback_def Let_def)
qed

subsection \<open>The arms keep the invariant\<close>

text \<open>An outcome that is fine: a running state keeps the invariant and the open channel, and a
  failure has put its terminal event at the end of the channel.\<close>

definition terminal_event :: "sender_error \<Rightarrow> sender_event" where
  "terminal_event e = (if e = ReceiverTimedOutError then ReceiverTimedOut else FatalError e)"

fun outcome_ok :: "cipher \<Rightarrow> bool \<Rightarrow> loop_outcome \<Rightarrow> bool" where
  "outcome_ok ap opn (Running st) \<longleftrightarrow> loop_inv ap st \<and> ec_open (events st) = opn"
| "outcome_ok ap opn (Returned st (Inl e)) \<longleftrightarrow>
     opn \<longrightarrow> ec_queue (events st) \<noteq> [] \<and> last (ec_queue (events st)) = terminal_event e"
| "outcome_ok ap opn (Returned st (Inr _)) \<longleftrightarrow> True"
| "outcome_ok ap opn Panicked \<longleftrightarrow> True"

lemma transport_error_neq: "transport_error m x \<noteq> ReceiverTimedOutError"
  by (simp add: transport_error_def)

lemma outcome_ok_fail:
  "events_ok (events st) \<Longrightarrow> e \<noteq> ReceiverTimedOutError \<Longrightarrow>
     outcome_ok ap (ec_open (events st)) (fail_loop st e)"
  by (auto simp: fail_loop_def emit_fatal_def try_send_delivered terminal_event_def)

lemma outcome_ok_and_then:
  "outcome_ok ap opn x \<Longrightarrow>
     (\<And>st. loop_inv ap st \<Longrightarrow> ec_open (events st) = opn \<Longrightarrow> outcome_ok ap opn (f st)) \<Longrightarrow>
     outcome_ok ap opn (and_then x f)"
  by (cases x) (simp_all add: and_then_def)

lemma send_datagram_error:
  "send_datagram net sent d m = (sent', Inl e) \<Longrightarrow> e \<noteq> ReceiverTimedOutError"
  by (auto simp: send_datagram_def transport_error_def split: sum.splits if_splits)

lemma flush_stream_error:
  "snd (flush_stream_packets net now op (s, w, b, sent)) \<noteq> Inl ReceiverTimedOutError"
proof (induction s w b sent rule: flush_induct)
  case (error s w b sent t out sent1 e)
  then show ?case using send_datagram_error by auto
qed simp_all

lemma flush_queued_error:
  "flush_queued_packets net now st = (st', Inl e) \<Longrightarrow> e \<noteq> ReceiverTimedOutError"
  using flush_stream_error
  by (auto simp: flush_queued_packets_def flush_stream_option_def Let_def
      split: prod.splits sum.splits option.splits) (metis snd_conv)+

lemma outcome_ok_flush_arm:
  assumes "loop_inv ap st" and "now - last_refill (burst_budget st) < 2 ^ 96"
  shows "outcome_ok ap (ec_open (events st)) (flush_arm net now st)"
proof -
  obtain st' r where f: "flush_queued_packets net now st = (st', r)" by fastforce
  have k: "loop_inv ap st'" "events st' = events st"
    using flush_queued_keeps [OF assms f] by simp_all
  then show ?thesis
    using f flush_queued_error [of net now st st'] outcome_ok_fail [of st']
    by (cases r) (auto simp: flush_arm_def loop_inv_def)
qed

lemma loop_inv_trigger [simp]:
  "loop_inv ap (trigger_statistics now st) \<longleftrightarrow> loop_inv ap st"
  "events (trigger_statistics now st) = events st" "streams (trigger_statistics now st) = streams st"
  "burst_budget (trigger_statistics now st) = burst_budget st"
  by (simp_all add: trigger_statistics_def loop_inv_def Let_def)

lemma outcome_ok_enqueue_command:
  assumes "loop_inv ap st" and "ck_instant ck - last_refill (burst_budget st) < 2 ^ 96"
  shows "outcome_ok ap (ec_open (events st)) (fst (enqueue_command ap net ck ty frame st))"
proof (cases "get_stream ty (streams st)")
  case None
  then show ?thesis using assms(1) by (simp add: enqueue_command_def)
next
  case (Some s)
  obtain s1 r where e: "enqueue_frame ap s frame = (s1, r)" by fastforce
  let ?st = "st\<lparr>streams := put_stream ty s1 (streams st)\<rparr>"
  have "stream_reach ap s" using assms(1) Some by (auto simp: loop_inv_def intro: streams_okD)
  then have "stream_reach ap s1" using reach_steps(9) e by (metis fst_conv)
  then have inv: "loop_inv ap ?st" using assms(1) by (simp add: loop_inv_def streams_ok_put)
  have "outcome_ok ap (ec_open (events st)) (flush_arm net (ck_instant ck) ?st)"
    using outcome_ok_flush_arm [OF inv] assms(2) by simp
  then have "outcome_ok ap (ec_open (events st)) (and_then (flush_arm net (ck_instant ck) ?st)
      (\<lambda>st2. Running (if p then trigger_statistics (ck_instant ck) st2 else st2)))" for p
    by (rule outcome_ok_and_then) auto
  then show ?thesis
    using inv Some e by (auto simp: enqueue_command_def Let_def split: sum.splits fault.splits)
qed

lemma outcome_ok_command_arm:
  assumes "loop_inv ap st" and "ck_instant ck - last_refill (burst_budget st) < 2 ^ 96"
  shows "outcome_ok ap (ec_open (events st)) (fst (command_arm ap net ck command st))"
proof -
  have "streams_ok ap (map_option (\<lambda>s. set_stream_playout_delay s d) (fst ss),
      map_option (\<lambda>s. set_stream_playout_delay s d) (snd ss))" if "streams_ok ap ss" for d ss
    using that by (auto simp: streams_ok_iff reach_steps(4))
  then have "outcome_ok ap (ec_open (events st)) (fst (delay_command ck d st))" for d
    using assms(1) by (auto simp: delay_command_def set_target_playout_delay_def loop_inv_def Let_def)
  then show ?thesis
    using assms outcome_ok_enqueue_command [OF assms]
    by (auto simp: command_arm_def split: option.splits stream_command.splits)
qed

lemma outcome_ok_feedback_arm:
  assumes "loop_inv ap st" and "ck_instant ck - last_refill (burst_budget st) < 2 ^ 96"
  shows "outcome_ok ap (ec_open (events st)) (feedback_arm net ck compound st)"
proof -
  obtain ss ch progress where f:
    "process_feedback compound (ck_instant ck) (streams st) (events st) = (ss, ch, progress)"
    by (metis prod.exhaust)
  have ok: "streams_ok ap ss" "events_ok ch" "ec_open ch = ec_open (events st)"
    using process_feedback_ok [OF _ _ f, of ap] assms(1) by (auto simp: loop_inv_def)
  have "outcome_ok ap (ec_open ch) (flush_arm net (ck_instant ck)
      (st\<lparr>streams := ss, events := ch, audio_watchdog := aw, video_watchdog := vw\<rparr>))" for aw vw
    using outcome_ok_flush_arm [of ap "st\<lparr>streams := ss, events := ch, audio_watchdog := aw,
        video_watchdog := vw\<rparr>"] assms ok by (simp add: loop_inv_def)
  then show ?thesis
    unfolding feedback_arm_def f Let_def prod.case ok(3) [symmetric]
    by (intro outcome_ok_and_then) auto
qed

lemma outcome_ok_receive_arm:
  assumes "loop_inv ap st" and "ck_instant ck - last_refill (burst_budget st) < 2 ^ 96"
  shows "outcome_ok ap (ec_open (events st)) (receive_arm net ck remote received st)"
  using assms outcome_ok_feedback_arm [OF assms]
    outcome_ok_fail [of st "transport_error ''receive RTCP packet'' e" for e]
  by (auto simp: receive_arm_def loop_inv_def transport_error_neq events_ok_emit_nonterminal
      split: sum.splits io_error.splits packet_type.splits fault.splits)

lemma outcome_ok_report_stream:
  assumes "loop_inv ap st"
  shows "outcome_ok ap (ec_open (events st)) (report_stream net ck ty op st)"
proof (cases "get_stream ty (streams st)")
  case None
  then show ?thesis using assms by (simp add: report_stream_def)
next
  case (Some s)
  obtain s1 sent1 r where r: "send_sender_report net ck (wire st) s op = ((s1, sent1), r)"
    by (metis prod.exhaust)
  have "stream_reach ap s" using assms Some by (auto simp: loop_inv_def intro: streams_okD)
  then have "stream_reach ap s1"
    using r reach_steps(5) by (auto simp: send_sender_report_def Let_def split: prod.splits sum.splits)
  then have inv: "loop_inv ap (st\<lparr>streams := put_stream ty s1 (streams st), wire := sent1\<rparr>)"
    using assms by (simp add: loop_inv_def streams_ok_put)
  have "e \<noteq> ReceiverTimedOutError" if "r = Inl e" for e
    using r that send_datagram_error
    by (auto simp: send_sender_report_def Let_def split: prod.splits sum.splits)
  then show ?thesis
    using inv Some r outcome_ok_fail [of "st\<lparr>streams := put_stream ty s1 (streams st), wire := sent1\<rparr>"]
    by (cases r) (auto simp: report_stream_def loop_inv_def)
qed

lemma outcome_ok_rtcp_arm:
  "loop_inv ap st \<Longrightarrow> outcome_ok ap (ec_open (events st)) (rtcp_arm net ck st)"
  unfolding rtcp_arm_def
  by (rule outcome_ok_and_then, erule outcome_ok_report_stream)
     (use outcome_ok_report_stream in fastforce)

lemma outcome_ok_timeout_arm:
  "loop_inv ap st \<Longrightarrow> outcome_ok ap (ec_open (events st)) (timeout_arm ck st)"
  by (auto simp: timeout_arm_def loop_inv_def try_send_delivered terminal_event_def Let_def
      split: prod.splits)

lemma outcome_ok_step:
  assumes "loop_inv ap st" and "ck_instant ck - last_refill (burst_budget st) < 2 ^ 96"
  shows "outcome_ok ap (ec_open (events st)) (run_step ap net remote ck i st)"
  using assms outcome_ok_command_arm outcome_ok_flush_arm outcome_ok_receive_arm outcome_ok_rtcp_arm
    outcome_ok_timeout_arm
  by (cases i) (auto simp: burst_arm_def statistics_arm_def loop_inv_def events_ok_emit_nonterminal)

lemma loop_inv_reach: "loop_reach ap net remote st \<Longrightarrow> loop_inv ap st"
proof (induction rule: loop_reach.induct)
  case (loop_reach_start ss now)
  then show ?case
    by (simp add: loop_inv_def loop_start_def budget_inv_new events_ok_def EVENT_CHANNEL_CAPACITY_def
        RESERVED_TERMINAL_EVENT_SLOTS_def)
next
  case (loop_reach_step st ck i st')
  then have "ck_instant ck - last_refill (burst_budget st) < 2 ^ 96" by linarith
  then show ?case
    using outcome_ok_step [OF loop_reach_step.IH, of ck net remote i] loop_reach_step(4) by simp
qed (auto simp: loop_inv_def events_ok_def EVENT_CHANNEL_CAPACITY_def RESERVED_TERMINAL_EVENT_SLOTS_def)

subsection \<open>What the loop guarantees\<close>

definition example_loop :: loop_state where
  "example_loop = loop_start 0 (None, Some (stream_new 7 example_parameters))"

definition example_net :: network where
  "example_net n data = Inr (length data)"

definition example_clock :: clock where
  "example_clock = \<lparr>ck_instant = 20000000, ck_system = 1700000000000000000\<rparr>"

lemma example_loop_reach: "loop_reach ap net remote example_loop"
  unfolding example_loop_def
  by (rule loop_reach_start) (auto simp: streams_ok_iff example_reach)

text \<open>
  C6. Whatever the loop has been through, both of its streams are in a state that stream
  operations alone can reach, so every guarantee about streams holds for them: at most 120 frames
  in flight, and only packets of unacknowledged frames waiting. Events never fill the channel:
  two slots stay free for a terminal event.
\<close>

theorem loop_invariant:
  assumes "loop_reach ap net remote st" and "get_stream ty (streams st) = Some s"
  shows "stream_reach ap s \<and> in_flight_count s \<le> MAX_UNACKED_FRAMES \<and>
    (\<forall>q \<in> set (send_queue s) \<union> set (retransmit_queue s). window s (qp_frame_id q) \<noteq> None) \<and>
    length (ec_queue (events st)) + RESERVED_TERMINAL_EVENT_SLOTS \<le> EVENT_CHANNEL_CAPACITY"
proof -
  have inv: "loop_inv ap st" using assms(1) by (rule loop_inv_reach)
  then have "stream_reach ap s" using assms(2) by (auto simp: loop_inv_def intro: streams_okD)
  moreover from this have "stream_inv s" by (rule stream_inv_reach)
  ultimately show ?thesis
    using inv in_flight_count_le [of s] in_flight_id_span_le [of s]
    by (auto simp: loop_inv_def events_ok_def stream_inv_def queue_inv_def)
qed

theorem loop_invariant_witness:
  "in_flight_count (stream_new 7 example_parameters) \<le> MAX_UNACKED_FRAMES"
  using loop_invariant [OF example_loop_reach, of Video "stream_new 7 example_parameters"]
  by (simp add: example_loop_def loop_start_def get_stream_def)

text \<open>
  C8. The application always learns how a session ended: when the loop stops with an error and
  the application still listens, the last event in the channel is the terminal one, a receiver
  timeout or the fatal error itself. No backlog of other events can displace it.
\<close>

theorem terminal_event_delivered:
  assumes "loop_reach ap net remote st" and "ec_open (events st)"
    and "last_refill (burst_budget st) \<le> ck_instant ck" and "ck_instant ck < 2 ^ 96"
    and "run_step ap net remote ck i st = Returned st' (Inl e)"
  shows "ec_queue (events st') \<noteq> [] \<and> last (ec_queue (events st')) = terminal_event e"
proof -
  have "ck_instant ck - last_refill (burst_budget st) < 2 ^ 96" using assms(3, 4) by linarith
  then show ?thesis
    using outcome_ok_step [OF loop_inv_reach [OF assms(1)], of ck net remote i] assms(2, 5) by simp
qed

theorem terminal_event_delivered_witness:
  "\<exists>st'. run_step xor_cipher example_net (V4 1 2) example_clock (Received (Inl (IoOther ''gone''))) example_loop =
       Returned st' (Inl (TransportError ''receive RTCP packet'' ''gone'')) \<and>
     last (ec_queue (events st')) = FatalError (TransportError ''receive RTCP packet'' ''gone'')"
proof -
  let ?i = "Received (Inl (IoOther ''gone''))" and ?e = "TransportError ''receive RTCP packet'' ''gone''"
  obtain st' where r: "run_step xor_cipher example_net (V4 1 2) example_clock ?i example_loop = Returned st' (Inl ?e)"
    by (simp add: receive_arm_def fail_loop_def transport_error_def)
  have "ec_open (events example_loop)" "last_refill (burst_budget example_loop) \<le> ck_instant example_clock"
    "ck_instant example_clock < 2 ^ 96"
    by (simp_all add: example_loop_def loop_start_def example_clock_def burst_budget_new_eq)
  from terminal_event_delivered [OF example_loop_reach this r] r show ?thesis
    by (simp add: terminal_event_def)
qed

lemma enqueue_frame_no_panic:
  assumes "stream_inv s" and "next_frame_id s < 2 ^ 63 - 1"
  shows "snd (enqueue_frame ap s frame) \<noteq> Inl Panic"
  using assms enqueue_frame_rejects [of s frame ap] enqueue_frame_accepts [of s frame ap]
  by (cases "accepts_frame s frame") (auto simp: stream_inv_def reject_frame_def)

lemma flush_arm_no_panic: "flush_arm net now st \<noteq> Panicked"
  by (simp add: flush_arm_def fail_loop_def split: prod.split sum.split)

lemma and_then_no_panic:
  "x \<noteq> Panicked \<Longrightarrow> (\<And>st. f st \<noteq> Panicked) \<Longrightarrow> and_then x f \<noteq> Panicked"
  by (cases x) (simp_all add: and_then_def)

lemma flush_then_no_panic [simp]:
  "and_then (flush_arm net now st) (\<lambda>st2. Running (g st2)) \<noteq> Panicked"
  by (rule and_then_no_panic) (simp_all add: flush_arm_no_panic)

lemma report_stream_no_panic [simp]: "report_stream net ck ty op st \<noteq> Panicked"
  by (simp add: report_stream_def fail_loop_def Let_def split: option.split prod.split sum.split)

lemma enqueue_command_no_panic:
  assumes "\<And>s. get_stream ty (streams st) = Some s \<Longrightarrow> snd (enqueue_frame ap s frame) \<noteq> Inl Panic"
  shows "fst (enqueue_command ap net ck ty frame st) \<noteq> Panicked"
proof (cases "get_stream ty (streams st)")
  case (Some s)
  obtain s1 r where e: "enqueue_frame ap s frame = (s1, r)" by fastforce
  then have "r \<noteq> Inl Panic" using assms [OF Some] by simp
  then show ?thesis
    using Some e by (auto simp: enqueue_command_def Let_def split: sum.splits fault.splits)
qed (simp add: enqueue_command_def)

text \<open>
  C15. The loop never panics: in a reachable state, no command, no timer and no datagram of at
  most the receive buffer's 2048 bytes, whatever its content and sender, makes an arm panic, as
  long as no stream has used up the \<open>2 ^ 63\<close> frame identifiers.
\<close>

theorem loop_no_panic:
  assumes "loop_reach ap net remote st"
    and "\<And>ty s. get_stream ty (streams st) = Some s \<Longrightarrow> next_frame_id s < 2 ^ 63 - 1"
    and "\<And>data address. i = Received (Inr (data, address)) \<Longrightarrow> length data \<le> RECEIVE_BUFFER_SIZE"
  shows "run_step ap net remote ck i st \<noteq> Panicked"
proof (cases i)
  case (Command c)
  have "stream_inv s" if "get_stream ty (streams st) = Some s" for ty s
    using loop_inv_reach [OF assms(1)] that by (auto simp: loop_inv_def intro: streams_okD stream_inv_reach)
  then have "fst (enqueue_command ap net ck ty frame st) \<noteq> Panicked" for ty frame
    using assms(2) by (intro enqueue_command_no_panic enqueue_frame_no_panic)
  then show ?thesis
    unfolding Command run_step.simps
    by (auto simp: command_arm_def delay_command_def Let_def split: option.splits stream_command.splits prod.splits)
next
  case (Received r)
  have "feedback_arm net ck compound st \<noteq> Panicked" for compound
    by (simp add: feedback_arm_def Let_def split_def)
  moreover have "parse_compound data \<noteq> Inl Panic" for data
    using parse_compound_never_panics [of data] by (simp add: no_panic_def)
  ultimately show ?thesis
    using assms(3) Received
    by (auto simp: receive_arm_def fail_loop_def not_le [symmetric] split: sum.splits io_error.splits
        packet_type.splits fault.splits)
next
  case RtcpTick
  then show ?thesis by (simp add: rtcp_arm_def and_then_no_panic)
qed (auto simp: burst_arm_def flush_arm_no_panic statistics_arm_def timeout_arm_def Let_def split: prod.splits)

theorem loop_no_panic_witness:
  "run_step xor_cipher example_net (V4 1 2) example_clock (Received (Inr ([0x81, 206, 0, 0, 0, 0, 0, 0], V4 1 2)))
     example_loop \<noteq> Panicked"
proof (rule loop_no_panic [OF example_loop_reach])
  fix ty s assume "get_stream ty (streams example_loop) = Some s"
  then show "next_frame_id s < 2 ^ 63 - 1"
    by (auto simp: example_loop_def loop_start_def get_stream_def stream_new_def frame_id_first_def
        split: stream_type.splits)
qed (simp add: RECEIVE_BUFFER_SIZE_def)

subsection \<open>Who can change a stream\<close>

lemma feedback_names_stream:
  assumes "process_cast_feedback fb (ss, ch, progress) = (ss', ch', progress')"
    and "get_stream ty ss' \<noteq> get_stream ty ss"
  shows "\<exists>s. get_stream ty ss = Some s \<and> sender_sync_source s = cf_sender_sync_source fb \<and>
      receiver_sync_source s = cf_receiver_sync_source fb"
    and "\<forall>ty'. ty' \<noteq> ty \<longrightarrow> get_stream ty' ss' = get_stream ty' ss"
proof -
  obtain ty1 so where f: "find_stream_by_sender_sync_source (cf_sender_sync_source fb) ss = (ty1, so)"
    by fastforce
  with assms obtain s where s: "so = Some s"
    "accepts_receiver_sync_source s (cf_receiver_sync_source fb)"
    by (auto simp: process_cast_feedback_def split: option.splits if_splits)
  obtain s1 ch1 acked where a: "apply_cast_feedback ty1 fb s ch = (s1, ch1, acked)" by (metis prod.exhaust)
  have ss': "ss' = put_stream ty1 s1 ss"
    using assms(1) f s a by (simp add: process_cast_feedback_def)
  then have ty: "ty = ty1" using assms(2) by (auto simp: get_put_stream split: if_splits)
  show "\<exists>s. get_stream ty ss = Some s \<and> sender_sync_source s = cf_sender_sync_source fb \<and>
      receiver_sync_source s = cf_receiver_sync_source fb"
    using find_by_sender [OF f [unfolded s(1)]] s(2) ty by (auto simp: accepts_receiver_sync_source_def)
  show "\<forall>ty'. ty' \<noteq> ty \<longrightarrow> get_stream ty' ss' = get_stream ty' ss"
    by (simp add: ss' ty get_put_stream)
qed


definition example_feedback :: cast_feedback where
  "example_feedback =
     \<lparr>cf_receiver_sync_source = 50002, cf_sender_sync_source = 50001, checkpoint_frame_id = 255,
      playout_delay_ms = 400, nacks = [], cf_ack_bitvector = None\<rparr>"


subsection \<open>Flushing sends the queues in order\<close>

definition waiting :: "stream_state \<Rightarrow> outbound_packet list" where
  "waiting s = outbound True (retransmit_queue s) @ outbound False (send_queue s)"

lemma waiting_next_None: "next_packet s = (t, None) \<longleftrightarrow> t = s \<and> waiting s = []"
  by (auto simp: next_packet_def waiting_def outbound_def split: list.splits)

lemma waiting_next_Some:
  "next_packet s = (t, Some out) \<Longrightarrow> waiting s = out # waiting t"
  by (auto simp: next_packet_def waiting_def outbound_def split: list.splits)

lemma waiting_record [simp]: "waiting (record_packet_sent s n r) = waiting s"
  by (simp add: record_packet_sent_def waiting_def)

lemma send_datagram_accepting:
  "(\<And>n d. net n d = Inr (length d)) \<Longrightarrow> send_datagram net sent d m = (sent @ [d], Inr ())"
  by (simp add: send_datagram_def)

definition flushed :: "stream_state \<Rightarrow> burst_budget \<Rightarrow> bytes list \<Rightarrow> flush_state \<times> (sender_error + unit) \<Rightarrow> bool" where
  "flushed s b sent res \<longleftrightarrow>
     (case res of ((s', _, b', sent'), r) \<Rightarrow>
        r = Inr () \<and>
        (\<exists>k. sent' = sent @ map op_packet (take k (waiting s)) \<and> waiting s' = drop k (waiting s) \<and>
             b' = fold (\<lambda>d c. consume c (length d)) (map op_packet (take k (waiting s))) b) \<and>
        (waiting s' = [] \<or> \<not> has_credit b'))"

lemma flushed_step:
  assumes "flushed t (consume b (length (op_packet out))) (sent @ [op_packet out]) res"
    and "waiting s = out # waiting t"
  shows "flushed s b sent res"
proof -
  obtain s' w' b' sent' r where res: "res = ((s', w', b', sent'), r)" by (metis surj_pair)
  obtain k where "sent' = (sent @ [op_packet out]) @ map op_packet (take k (waiting t))"
    "waiting s' = drop k (waiting t)"
    "b' = fold (\<lambda>d c. consume c (length d)) (map op_packet (take k (waiting t)))
       (consume b (length (op_packet out)))"
    and rest: "r = Inr ()" "waiting s' = [] \<or> \<not> has_credit b'"
    using assms(1) unfolding flushed_def res prod.case by blast
  then have "sent' = sent @ map op_packet (take (Suc k) (waiting s)) \<and> waiting s' = drop (Suc k) (waiting s) \<and>
      b' = fold (\<lambda>d c. consume c (length d)) (map op_packet (take (Suc k) (waiting s))) b"
    by (simp add: assms(2))
  with rest show ?thesis unfolding flushed_def res prod.case by blast
qed

lemma flush_stream_order:
  assumes "\<And>n d. net n d = Inr (length d)"
  shows "flushed s b sent (flush_stream_packets net now op (s, w, b, sent))"
proof (induction s w b sent rule: flush_induct)
  case (no_credit s w b sent)
  then show ?case unfolding flushed_def prod.case by (intro conjI exI [of _ 0]) simp_all
next
  case (empty s w b sent t)
  then show ?case unfolding flushed_def prod.case by (intro conjI exI [of _ 0]) (simp_all add: waiting_next_None)
next
  case (error s w b sent t out sent1 e)
  then show ?case using send_datagram_accepting [OF assms] by simp
next
  case (send s w b sent t out sent1 res)
  have "sent1 = sent @ [op_packet out]"
    using send(3) send_datagram_accepting [OF assms, where sent = sent and m = op] by simp
  moreover have "waiting s =
      out # waiting (record_packet_sent t (length (op_packet out)) (op_retransmission out))"
    using waiting_next_Some [OF send(2)] by simp
  ultimately show ?case using send(4) flushed_step by blast
qed

text \<open>
  A flush empties the queues in order as far as the budget allows: with a transport that
  accepts every datagram, the bytes handed to it are the waiting packets from the front,
  retransmissions first, unchanged and without gaps; what remains waiting is the rest; each
  packet is charged to the budget; and it stops only when nothing is waiting or no credit is left.
\<close>

theorem flush_sends_in_order:
  assumes "\<And>n d. net n d = Inr (length d)"
    and "flush_stream_packets net now op (s, w, b, sent) = ((s', w', b', sent'), r)"
  shows "r = Inr () \<and>
    (\<exists>k. sent' = sent @ map op_packet (take k (waiting s)) \<and> waiting s' = drop k (waiting s) \<and>
         b' = fold (\<lambda>d c. consume c (length d)) (map op_packet (take k (waiting s))) b) \<and>
    (waiting s' = [] \<or> \<not> has_credit b')"
  using flush_stream_order [where net = net and now = now and op = op, of s b sent w] assms
  by (simp add: flushed_def)

theorem flush_sends_in_order_witness:
  "\<exists>s' w' b' sent'. flush_stream_packets example_net 0 ''send''
       (stream_new 7 example_parameters, watchdog_default, burst_budget_new 0, []) = ((s', w', b', sent'), Inr ()) \<and>
     waiting s' = []"
proof -
  obtain s' w' b' sent' r where f: "flush_stream_packets example_net 0 ''send''
      (stream_new 7 example_parameters, watchdog_default, burst_budget_new 0, []) = ((s', w', b', sent'), r)"
    by (metis prod.exhaust)
  have "waiting (stream_new 7 example_parameters) = []"
    by (simp add: waiting_def outbound_def stream_new_def)
  then show ?thesis
    using flush_sends_in_order [OF _ f] f by (auto simp: example_net_def)
qed

end
