(* ===== verification/Delivery.thy ===== *)
theory Delivery
  imports Event_Loop_Correct
begin

text \<open>
  From the application to the wire: a frame handed to the sender loop, the stream it enters, the
  pacing of its packets over later ticks of the burst timer, and the receiver that picks the
  packets of the frame out of everything the transport carried. Composes the stream, the burst
  budget, the loop, packetisation and encryption.
\<close>

subsection \<open>Every packet in flight is labelled with its stream and frame\<close>

definition labelled :: "sync_source \<Rightarrow> frame_id \<Rightarrow> bytes \<Rightarrow> bool" where
  "labelled source i d \<longleftrightarrow>
     rv_sync_source (read_rtp d) = source \<and> rv_frame_id (read_rtp d) = frame_id_truncate i"

definition slots_labelled :: "stream_state \<Rightarrow> bool" where
  "slots_labelled s \<longleftrightarrow>
     rp_sync_source (packetizer s) = sender_sync_source s \<and>
     (\<forall>f. Some f \<in> set (pending s) \<longrightarrow>
        list_all (labelled (sender_sync_source s) (pf_frame_id f)) (pf_packets f))"

definition slots_shrink :: "stream_state \<Rightarrow> stream_state \<Rightarrow> bool" where
  "slots_shrink s t \<longleftrightarrow>
     set (pending t) \<subseteq> insert None (set (pending s)) \<and> sender_sync_source t = sender_sync_source s \<and>
     rp_sync_source (packetizer t) = rp_sync_source (packetizer s)"

lemma slots_shrink_labelled: "slots_shrink s t \<Longrightarrow> slots_labelled s \<Longrightarrow> slots_labelled t"
  by (auto simp: slots_shrink_def slots_labelled_def)

lemma slots_shrink_refl [simp]: "slots_shrink s s"
  by (auto simp: slots_shrink_def)

lemma slots_shrink_trans: "slots_shrink s t \<Longrightarrow> slots_shrink t u \<Longrightarrow> slots_shrink s u"
  by (auto simp: slots_shrink_def)

lemma slots_shrink_cong:
  "pending t = pending s \<Longrightarrow> sender_sync_source t = sender_sync_source s \<Longrightarrow> packetizer t = packetizer s \<Longrightarrow>
     slots_shrink s t"
  by (auto simp: slots_shrink_def)

lemma release_frame_shrinks: "slots_shrink (fst sa) (fst (release_frame i sa))"
proof (cases sa)
  case (Pair s acknowledged)
  have "set ((pending s)[slot_of i := None]) \<subseteq> insert None (set (pending s))" by (rule set_update_subset_insert)
  then show ?thesis
    by (auto simp: Pair release_frame_def cancel_queued_frame_def slots_shrink_def Let_def)
qed

lemma fold_shrinks:
  "(\<And>i sa. slots_shrink (fst sa) (fst (f i sa))) \<Longrightarrow> slots_shrink (fst sa) (fst (fold f ids sa))"
  by (induction ids arbitrary: sa) (simp, metis fold_simps(2) slots_shrink_trans)

lemma count_acked_shrinks: "slots_shrink (fst sa) (fst (count_acked sa))"
  by (cases sa) (simp add: count_acked_def slots_shrink_cong)

lemma acknowledge_up_to_shrinks: "slots_shrink s (fst (acknowledge_up_to s i))"
proof -
  let ?r = "fold release_frame [checkpoint s + 1..i] (s, [])"
  have "slots_shrink s (fst ?r)" using fold_shrinks [OF release_frame_shrinks, of "(s, [])"] by simp
  moreover have "slots_shrink (fst ?r) (fst (count_acked ((fst ?r)\<lparr>checkpoint := i\<rparr>, snd ?r)))"
    by (simp add: count_acked_def slots_shrink_cong)
  ultimately show ?thesis
    by (auto simp: acknowledge_up_to_def split_def Let_def intro: slots_shrink_trans)
qed

lemma acknowledge_bitvector_shrinks: "slots_shrink s (fst (acknowledge_bitvector s cp ack))"
proof (cases ack)
  case None
  then show ?thesis by (simp add: acknowledge_bitvector_def slots_shrink_cong)
next
  case (Some a)
  let ?s = "s\<lparr>last_ack_feedback_count := Some (feedback_count a), last_ack_bitvector_bytes := Some (length (ack_data a))\<rparr>"
  let ?r = "fold release_sent_frame (bitvector_ids cp (ack_data a)) (?s, [])"
  have "slots_shrink (fst sa) (fst (release_sent_frame i sa))" for i sa
    by (simp add: release_sent_frame_def release_frame_shrinks)
  then have "slots_shrink ?s (fst ?r)" using fold_shrinks [of release_sent_frame "(?s, [])"] by simp
  moreover have "slots_shrink s ?s" by (simp add: slots_shrink_cong)
  ultimately have "slots_shrink s (fst (count_acked ?r))"
    using count_acked_shrinks [of ?r] slots_shrink_trans by blast
  then show ?thesis by (simp add: acknowledge_bitvector_def Some)
qed

lemma other_steps_shrink:
  "slots_shrink s (fst (handle_nack s i packet_id))" "slots_shrink s (fst (next_packet s))"
  "slots_shrink s (record_packet_sent s n retransmission)" "slots_shrink s (record_sender_report s ntp at)"
  "slots_shrink s (update_receiver_report s report at)" "slots_shrink s (update_playout_delay s delay_ms)"
  "slots_shrink s (update_receiver_reference_time s rrt)" "slots_shrink s (set_stream_playout_delay s delay)"
  by (rule slots_shrink_cong;
      simp add: handle_nack_def next_packet_def record_packet_sent_def record_sender_report_def
        update_receiver_report_def update_playout_delay_def update_receiver_reference_time_def
        set_stream_playout_delay_def Let_def split: option.split list.split)+

lemma frame_packets_labelled:
  assumes "rp_sync_source (packetizer s) = sender_sync_source s"
  shows "list_all (labelled (sender_sync_source s) (next_frame_id s)) (frame_packets ap s frame)"
  using assms
  by (auto simp: list_all_iff frame_packets_def Let_def labelled_def read_packet_at packet_view_def frame_header_def)

lemma accepted_labelled:
  assumes "slots_labelled s"
  shows "slots_labelled (accepted_state ap s frame)"
proof -
  have "set ((pending s)[slot_of (next_frame_id s) := Some (frame_pending ap s frame)]) \<subseteq>
      insert (Some (frame_pending ap s frame)) (set (pending s))"
    by (rule set_update_subset_insert)
  then show ?thesis
    using assms frame_packets_labelled [of s ap frame]
    by (auto simp: slots_labelled_def accepted_state_def queue_frame_def frame_pending_def)
qed

lemma enqueue_frame_labelled:
  assumes "stream_inv s" and "slots_labelled s"
  shows "slots_labelled (fst (enqueue_frame ap s frame))"
proof -
  have "slots_labelled (fst (reject_frame s e))" for e
    using assms(2) by (simp add: reject_frame_def slots_labelled_def)
  moreover have "0 < max_payload_size (packetizer s)" using assms(1) by (simp add: stream_inv_def)
  ultimately show ?thesis
    using assms(2) accepted_labelled [OF assms(2)] enqueue_frame_rejects [of s frame ap]
      enqueue_frame_accepts [of s frame ap] enqueue_frame_overflows [of s frame ap]
    by (cases "accepts_frame s frame"; cases "next_frame_id s < 2 ^ 63 - 1") auto
qed

lemma slots_labelled_step:
  "stream_step ap s t \<Longrightarrow> stream_inv s \<Longrightarrow> slots_labelled s \<Longrightarrow> slots_labelled t"
  by (induction rule: stream_step.induct)
     (auto intro: enqueue_frame_labelled slots_shrink_labelled [OF acknowledge_up_to_shrinks]
       slots_shrink_labelled [OF acknowledge_bitvector_shrinks] other_steps_shrink [THEN slots_shrink_labelled])

lemma slots_labelled_reach: "stream_reach ap s \<Longrightarrow> slots_labelled s"
proof (induction rule: stream_reach.induct)
  case (reach_new ps seq)
  show ?case by (auto simp: slots_labelled_def stream_new_def rtp_packetizer_new_def)
next
  case (reach_step s t)
  then show ?case using slots_labelled_step stream_inv_reach by blast
qed

lemma window_slot:
  assumes "ring_inv s" and "window s i = Some f"
  shows "pf_frame_id f = i \<and> Some f \<in> set (pending s)"
proof -
  have "slot_of i < length (pending s)"
    using ring_invD(1) [OF assms(1)] by (simp add: slot_of_def MAX_UNACKED_FRAMES_def)
  then show ?thesis
    using assms(2)
    by (auto simp: window_def ring_lookup_def in_set_conv_nth split: option.splits if_splits)
qed

lemma queued_labelled:
  assumes "stream_reach ap s" and "q \<in> set (send_queue s) \<union> set (retransmit_queue s)"
  shows "labelled (sender_sync_source s) (qp_frame_id q) (qp_packet q)"
proof -
  have inv: "ring_inv s" "queue_inv s" using stream_inv_reach [OF assms(1)] by (simp_all add: stream_inv_def)
  obtain f where f: "window s (qp_frame_id q) = Some f" "qp_packet q \<in> set (pf_packets f)"
    using inv(2) assms(2) by (auto simp: queue_inv_def)
  then show ?thesis
    using window_slot [OF inv(1) f(1)] slots_labelled_reach [OF assms(1)]
    by (auto simp: slots_labelled_def list_all_iff)
qed

text \<open>Packets of different frames in flight carry different frame numbers: at most 120 are in
  flight and the number has eight bits. So the label picks exactly the packets of a frame.\<close>

lemma label_picks_frame:
  assumes "stream_reach ap s" and "accepts_frame s frame" and "next_frame_id s < 2 ^ 63 - 1"
    and "t = accepted_state ap s frame"
  shows "{d \<in> qp_packet ` (set (send_queue t) \<union> set (retransmit_queue t)).
      labelled (sender_sync_source s) (next_frame_id s) d} = set (frame_packets ap s frame)"
proof (intro equalityI subsetI)
  fix d
  assume "d \<in> set (frame_packets ap s frame)"
  then show "d \<in> {d \<in> qp_packet ` (set (send_queue t) \<union> set (retransmit_queue t)).
      labelled (sender_sync_source s) (next_frame_id s) d}"
    using frame_packets_labelled [of s ap frame] slots_labelled_reach [OF assms(1)]
    by (force simp: assms(4) accepted_state_def queue_frame_def list_all_iff slots_labelled_def)
next
  have inv: "stream_inv s" using assms(1) by (rule stream_inv_reach)
  then have "enqueue_frame ap s frame = (t, Inr (next_frame_id s))"
    using enqueue_frame_accepts [OF assms(2) _ assms(3), of ap] assms(4) by (simp add: stream_inv_def)
  then have "stream_step ap s t" using step_enqueue [of ap s frame] by simp
  then have t: "stream_reach ap t" using assms(1) by (rule reach_step [rotated])
  have invt: "stream_inv t" using t by (rule stream_inv_reach)
  have same: "sender_sync_source t = sender_sync_source s" "next_frame_id t = next_frame_id s + 1"
    by (simp_all add: assms(4) accepted_state_def queue_frame_def)
  have w: "window t = (window s)(next_frame_id s \<mapsto> frame_pending ap s frame)"
    using accepted_ring(2) [OF _ assms(2,3), of ap] inv assms(4) by (simp add: stream_inv_def)
  fix d
  assume "d \<in> {d \<in> qp_packet ` (set (send_queue t) \<union> set (retransmit_queue t)).
      labelled (sender_sync_source s) (next_frame_id s) d}"
  then obtain q where q: "q \<in> set (send_queue t) \<union> set (retransmit_queue t)" "d = qp_packet q"
    and l: "labelled (sender_sync_source s) (next_frame_id s) d" by blast
  have "\<bar>qp_frame_id q - next_frame_id s\<bar> \<le> 255"
    using queued_after_checkpoint [OF invt q(1)] same ring_invD(5) [of t] invt
    by (auto simp: stream_inv_def MAX_UNACKED_FRAMES_def)
  then have "qp_frame_id q = next_frame_id s"
    using l queued_labelled [OF t q(1)] frame_id_truncate_inj by (auto simp: labelled_def q(2) same)
  moreover obtain f where "window t (qp_frame_id q) = Some f" "qp_packet q \<in> set (pf_packets f)"
    using invt q(1) by (auto simp: stream_inv_def queue_inv_def)
  ultimately show "d \<in> set (frame_packets ap s frame)"
    by (simp add: w q(2)) (auto simp: frame_pending_def)
qed

subsection \<open>Flushing makes progress\<close>

definition datagrams :: "stream_state option \<Rightarrow> bytes list" where
  "datagrams so = (case so of None \<Rightarrow> [] | Some s \<Rightarrow> map op_packet (waiting s))"

definition queued :: "loop_state \<Rightarrow> bytes list" where
  "queued st = datagrams (fst (streams st)) @ datagrams (snd (streams st))"

lemma set_datagrams: "set (datagrams (Some s)) = qp_packet ` (set (send_queue s) \<union> set (retransmit_queue s))"
  by (auto simp: datagrams_def waiting_def outbound_def)

lemma last_refill_fold_consume: "last_refill (fold (\<lambda>d c. consume c (length d)) ds b) = last_refill b"
  by (induction ds arbitrary: b) (simp_all add: consume_def)

lemma flush_option_order:
  assumes "\<And>n d. net n d = Inr (length d)"
    and "flush_stream_option net now op so w b sent = ((so', w', b', sent'), r)"
  shows "\<exists>ds. r = Inr () \<and> sent' = sent @ ds \<and> datagrams so = ds @ datagrams so' \<and>
    last_refill b' = last_refill b \<and> (datagrams so' = [] \<or> \<not> has_credit b') \<and> (ds = [] \<longrightarrow> b' = b)"
proof (cases so)
  case None
  then show ?thesis using assms(2) by (auto simp: flush_stream_option_def datagrams_def)
next
  case (Some s)
  obtain s1 w1 b1 sent1 r1 where f: "flush_stream_packets net now op (s, w, b, sent) = ((s1, w1, b1, sent1), r1)"
    by (metis prod.exhaust)
  then have so': "so' = Some s1" "b' = b1" "sent' = sent1" "r = r1"
    using assms(2) Some by (simp_all add: flush_stream_option_def)
  obtain k where k: "r1 = Inr ()" "sent1 = sent @ map op_packet (take k (waiting s))"
    "waiting s1 = drop k (waiting s)" "waiting s1 = [] \<or> \<not> has_credit b1"
    "b1 = fold (\<lambda>d c. consume c (length d)) (map op_packet (take k (waiting s))) b"
    using flush_stream_order [where net = net and now = now and op = op, of s b sent w] assms(1) unfolding f flushed_def prod.case by blast
  have "map op_packet (waiting s) = map op_packet (take k (waiting s)) @ map op_packet (waiting s1)"
    by (simp only: k(3) map_append [symmetric] append_take_drop_id)
  moreover have "last_refill b1 = last_refill b" unfolding k(5) by (rule last_refill_fold_consume)
  moreover have "map op_packet (take k (waiting s)) = [] \<longrightarrow> b1 = b" unfolding k(5) by simp
  ultimately show ?thesis
    using k(1,2,4) by (intro exI [of _ "map op_packet (take k (waiting s))"]) (simp add: so' Some datagrams_def)
qed

lemma flush_queued_order:
  assumes "\<And>n d. net n d = Inr (length d)" and "flush_queued_packets net now st = (st', r)"
  shows "\<exists>ds. r = Inr () \<and> wire st' = wire st @ ds \<and> set (queued st) = set ds \<union> set (queued st') \<and>
    length (queued st) = length ds + length (queued st') \<and> last_refill (burst_budget st') = now \<and>
    (has_credit (refill (burst_budget st) now) \<longrightarrow> queued st \<noteq> [] \<longrightarrow> ds \<noteq> [])"
proof -
  let ?b = "refill (burst_budget st) now"
  obtain audio aw b1 sent1 r1 where a: "flush_stream_option net now ''send audio RTP packet'' (fst (streams st))
      (audio_watchdog st) ?b (wire st) = ((audio, aw, b1, sent1), r1)"
    by (metis prod.exhaust)
  obtain video vw b2 sent2 r2 where v: "flush_stream_option net now ''send video RTP packet'' (snd (streams st))
      (video_watchdog st) b1 sent1 = ((video, vw, b2, sent2), r2)"
    by (metis prod.exhaust)
  obtain da where da: "r1 = Inr ()" "sent1 = wire st @ da" "datagrams (fst (streams st)) = da @ datagrams audio"
    "last_refill b1 = last_refill ?b" "datagrams audio = [] \<or> \<not> has_credit b1" "da = [] \<longrightarrow> b1 = ?b"
    using flush_option_order [OF assms(1) a] by blast
  obtain dv where dv: "r2 = Inr ()" "sent2 = sent1 @ dv" "datagrams (snd (streams st)) = dv @ datagrams video"
    "last_refill b2 = last_refill b1" "datagrams video = [] \<or> \<not> has_credit b2" "dv = [] \<longrightarrow> b2 = b1"
    using flush_option_order [OF assms(1) v] by blast
  have st': "r = Inr ()" "wire st' = sent2" "streams st' = (audio, video)" "burst_budget st' = b2"
    using assms(2) a v da(1) dv(1) by (auto simp: flush_queued_packets_def Let_def)
  have "last_refill ?b = now" by (simp add: refill_def Let_def)
  moreover have "has_credit ?b \<longrightarrow> queued st \<noteq> [] \<longrightarrow> da @ dv \<noteq> []"
    using da(3,5,6) dv(3,5,6) by (auto simp: queued_def)
  ultimately show ?thesis
    using da(2-4) dv(2-4) by (intro exI [of _ "da @ dv"]) (auto simp: st' queued_def)
qed

lemma refill_has_credit:
  assumes "budget_inv b" and "last_refill b + BURST_INTERVAL \<le> now" and "now < 2 ^ 96"
  shows "has_credit (refill b now)"
proof -
  have "BURST_INTERVAL * BYTES_PER_SECOND \<le> (now - last_refill b) * BYTES_PER_SECOND"
    using assms(2) by (intro mult_le_mono1) simp
  moreover have "1000000000 \<le> BURST_INTERVAL * BYTES_PER_SECOND"
    by (simp add: BURST_INTERVAL_def from_millis_def BYTES_PER_SECOND_def MAX_BURST_BITRATE_def)
  ultimately have "1000000000 \<le> credit b + (now - last_refill b) * BYTES_PER_SECOND" by linarith
  then have "0 < (credit b + (now - last_refill b) * BYTES_PER_SECOND) div 1000000000"
    by (simp add: div_greater_zero_iff)
  then show ?thesis
    using assms refill_eq [OF assms(1), of now] by (auto simp: has_credit_def budget_inv_def Let_def)
qed

text \<open>Ticks of the burst timer, each at least its interval after the one before.\<close>

fun burst_ticks :: "instant \<Rightarrow> clock list \<Rightarrow> bool" where
  "burst_ticks since [] \<longleftrightarrow> True"
| "burst_ticks since (ck # cks) \<longleftrightarrow>
     since + BURST_INTERVAL \<le> ck_instant ck \<and> ck_instant ck < 2 ^ 96 \<and> burst_ticks (ck_instant ck) cks"

lemma burst_ticks_drain:
  assumes "\<And>n d. net n d = Inr (length d)"
    and "loop_inv ap st" and "burst_ticks (last_refill (burst_budget st)) cks"
  shows "\<exists>st' ds. run ap net remote (map (\<lambda>ck. (ck, BurstTick)) cks) st = Running st' \<and> wire st' = wire st @ ds \<and>
    set (queued st) = set ds \<union> set (queued st') \<and> length (queued st') \<le> length (queued st) - length cks"
  using assms(2,3)
proof (induction cks arbitrary: st)
  case Nil
  show ?case by (intro exI [of _ st] exI [of _ "[]"]) simp
next
  case (Cons ck cks)
  let ?now = "ck_instant ck"
  obtain st1 r where f: "flush_queued_packets net ?now st = (st1, r)" by fastforce
  obtain ds1 where ds1: "r = Inr ()" "wire st1 = wire st @ ds1" "set (queued st) = set ds1 \<union> set (queued st1)"
    "length (queued st) = length ds1 + length (queued st1)" "last_refill (burst_budget st1) = ?now"
    "has_credit (refill (burst_budget st) ?now) \<longrightarrow> queued st \<noteq> [] \<longrightarrow> ds1 \<noteq> []"
    using flush_queued_order [OF assms(1) f] by blast
  have t: "last_refill (burst_budget st) + BURST_INTERVAL \<le> ?now" "?now < 2 ^ 96" "burst_ticks ?now cks"
    using Cons.prems(2) by simp_all
  have "has_credit (refill (burst_budget st) ?now)"
    using Cons.prems(1) t by (intro refill_has_credit) (simp_all add: loop_inv_def)
  then have less: "length (queued st1) \<le> length (queued st) - 1"
    using ds1(4,6) by (cases "queued st"; cases ds1) auto
  have "loop_inv ap st1"
    using flush_queued_keeps [OF Cons.prems(1) _ f] t(2) by simp
  then obtain st2 ds2 where "run ap net remote (map (\<lambda>ck. (ck, BurstTick)) cks) st1 = Running st2"
    "wire st2 = wire st1 @ ds2" "set (queued st1) = set ds2 \<union> set (queued st2)"
    "length (queued st2) \<le> length (queued st1) - length cks"
    using Cons.IH [of st1] t(3) ds1(5) by auto
  then show ?case
    using f ds1(1-3) less
    by (intro exI [of _ st2] exI [of _ "ds1 @ ds2"]) (auto simp: burst_arm_def flush_arm_def and_then_def)
qed

subsection \<open>From a frame to the receiver\<close>

definition receives_as :: "sync_source \<Rightarrow> frame_id \<Rightarrow> bytes list \<Rightarrow> rtp_view list" where
  "receives_as source i ds =
     filter (\<lambda>v. rv_sync_source v = source \<and> rv_frame_id v = frame_id_truncate i) (map read_rtp ds)"

lemma set_receives_as: "set (receives_as source i ds) = read_rtp ` {d \<in> set ds. labelled source i d}"
  by (auto simp: receives_as_def labelled_def)

lemma wire_trigger [simp]: "wire (trigger_statistics now st) = wire st" "queued (trigger_statistics now st) = queued st"
  by (simp_all add: trigger_statistics_def queued_def Let_def)

lemma length_frame_packets:
  "stream_cipher ap \<Longrightarrow> length (frame_packets ap s frame) = packet_count (packetizer s) (frame_data frame)"
  using length_encrypt [of ap "crypto s" "next_frame_id s" "frame_data frame"]
  by (auto simp: frame_packets_def Let_def packet_count_def)

definition other :: "stream_type \<Rightarrow> stream_type" where
  "other ty = (case ty of Audio \<Rightarrow> Video | Video \<Rightarrow> Audio)"

lemma queued_split:
  "set (queued st) = set (datagrams (get_stream ty (streams st))) \<union> set (datagrams (get_stream (other ty) (streams st)))"
  "length (queued st) =
     length (datagrams (get_stream ty (streams st))) + length (datagrams (get_stream (other ty) (streams st)))"
  by (cases ty; auto simp: queued_def get_stream_def other_def)+

lemma enqueue_step_flushes:
  assumes "get_stream ty (streams st) = Some s" and "enqueue_frame ap s frame = (t, Inr i)"
    and "\<And>n d. net n d = Inr (length d)"
  defines "st1 \<equiv> st\<lparr>streams := put_stream ty t (streams st)\<rparr>"
  shows "\<exists>st2 ds. run_step ap net remote ck (Command (Some (EnqueueFrame ty frame))) st = Running st2 \<and>
    wire st2 = wire st @ ds \<and> set (queued st1) = set ds \<union> set (queued st2) \<and>
    length (queued st2) \<le> length (queued st1) \<and> last_refill (burst_budget st2) = ck_instant ck"
proof -
  obtain st' r where f: "flush_queued_packets net (ck_instant ck) st1 = (st', r)" by fastforce
  obtain ds where ds: "r = Inr ()" "wire st' = wire st1 @ ds" "set (queued st1) = set ds \<union> set (queued st')"
    "length (queued st1) = length ds + length (queued st')" "last_refill (burst_budget st') = ck_instant ck"
    using flush_queued_order [OF assms(3) f] by blast
  let ?publish = "stream_feedback_state ty (streams st) \<noteq> stream_feedback_state ty (streams st1)"
  let ?st2 = "if ?publish then trigger_statistics (ck_instant ck) st' else st'"
  have "run_step ap net remote ck (Command (Some (EnqueueFrame ty frame))) st = Running ?st2"
    using assms(1,2) f ds(1)
    by (simp add: command_arm_def enqueue_command_def flush_arm_def and_then_def st1_def Let_def)
  moreover have "wire ?st2 = wire st @ ds" "queued ?st2 = queued st'" "last_refill (burst_budget ?st2) = ck_instant ck"
    using ds by (simp_all add: st1_def)
  ultimately show ?thesis
    using ds(3,4) by (intro exI [of _ ?st2] exI [of _ ds]) simp
qed

lemma put_stream_queued:
  assumes "get_stream ty (streams st) = Some s" and "t = accepted_state ap s frame" and "stream_cipher ap"
  shows "length (queued (st\<lparr>streams := put_stream ty t (streams st)\<rparr>)) =
    length (queued st) + packet_count (packetizer s) (frame_data frame)"
  using assms queued_split(2) [of st ty] queued_split(2) [of "st\<lparr>streams := put_stream ty t (streams st)\<rparr>" ty]
  by (cases ty)
     (simp_all add: get_put_stream other_def datagrams_def waiting_def outbound_def accepted_state_def queue_frame_def
       length_frame_packets)

lemma label_picks_queued:
  assumes "stream_reach ap s" and "accepts_frame s frame" and "next_frame_id s < 2 ^ 63 - 1"
    and "t = accepted_state ap s frame"
    and "\<And>s'. get_stream (other ty) (streams st) = Some s' \<Longrightarrow>
      stream_reach ap s' \<and> sender_sync_source s' \<noteq> sender_sync_source s"
  shows "{d \<in> set (queued (st\<lparr>streams := put_stream ty t (streams st)\<rparr>)).
      labelled (sender_sync_source s) (next_frame_id s) d} = set (frame_packets ap s frame)"
proof -
  let ?st = "st\<lparr>streams := put_stream ty t (streams st)\<rparr>"
  have "ty \<noteq> other ty" "other ty \<noteq> ty" by (cases ty; simp add: other_def)+
  then have "set (queued ?st) = set (datagrams (Some t)) \<union> set (datagrams (get_stream (other ty) (streams st)))"
    using queued_split(1) [of ?st ty] by (simp add: get_put_stream)
  moreover have "\<not> labelled (sender_sync_source s) (next_frame_id s) d"
    if "d \<in> set (datagrams (get_stream (other ty) (streams st)))" for d
  proof (cases "get_stream (other ty) (streams st)")
    case None
    then show ?thesis using that by (simp add: datagrams_def)
  next
    case (Some s')
    have "d \<in> qp_packet ` (set (send_queue s') \<union> set (retransmit_queue s'))"
      using that unfolding Some set_datagrams .
    then obtain q where q: "q \<in> set (send_queue s') \<union> set (retransmit_queue s')" "d = qp_packet q" by blast
    then show ?thesis
      using assms(5) [OF Some] queued_labelled [of ap s' q] by (auto simp: labelled_def)
  qed
  ultimately show ?thesis
    using label_picks_frame [OF assms(1-4)] unfolding set_datagrams by blast
qed

text \<open>
  C1. A frame handed to the sender loop reaches the receiver. From any reachable state of the loop,
  with a transport that carries every datagram, the loop accepts the frame, keeps running, and
  after as many ticks of the burst timer as there are packets waiting has put on the wire datagrams
  from which a receiver that picks the packets with the stream's source and the eight-bit number of
  the frame reassembles and decrypts exactly the application's bytes: pacing delays packets but
  loses none, and neither the other stream nor older frames in flight can be confused with them.
\<close>

theorem frame_reaches_receiver:
  assumes "loop_reach ap net remote st" and "stream_cipher ap" and "\<And>n d. net n d = Inr (length d)"
    and "get_stream ty (streams st) = Some s" and "accepts_frame s frame" and "next_frame_id s < 2 ^ 63 - 1"
    and "\<And>s'. get_stream (other ty) (streams st) = Some s' \<Longrightarrow> sender_sync_source s' \<noteq> sender_sync_source s"
    and "packet_count (packetizer s) (frame_data frame) \<le> 65536"
    and "last_refill (burst_budget st) \<le> ck_instant ck" and "ck_instant ck < 2 ^ 96"
    and "burst_ticks (ck_instant ck) cks"
    and "length (queued st) + packet_count (packetizer s) (frame_data frame) \<le> length cks"
  shows "\<exists>st' ds. run ap net remote
      ((ck, Command (Some (EnqueueFrame ty frame))) # map (\<lambda>ck. (ck, BurstTick)) cks) st = Running st' \<and>
    wire st' = wire st @ ds \<and>
    map_option (decrypt ap (crypto s) (next_frame_id s))
      (reassemble (receives_as (sender_sync_source s) (next_frame_id s) ds)) = Some (frame_data frame)"
proof -
  have reach: "stream_reach ap s'" if "get_stream ty' (streams st) = Some s'" for ty' s'
    using loop_inv_reach [OF assms(1)] that by (auto simp: loop_inv_def intro: streams_okD)
  have m: "0 < max_payload_size (packetizer s)"
    using stream_inv_reach [OF reach [OF assms(4)]] by (simp add: stream_inv_def)
  define t where "t = accepted_state ap s frame"
  define st1 where "st1 = st\<lparr>streams := put_stream ty t (streams st)\<rparr>"
  have e: "enqueue_frame ap s frame = (t, Inr (next_frame_id s))"
    using enqueue_frame_accepts [OF assms(5) m assms(6)] by (simp add: t_def)
  obtain st2 ds1 where step: "run_step ap net remote ck (Command (Some (EnqueueFrame ty frame))) st = Running st2"
    and a: "wire st2 = wire st @ ds1" "set (queued st1) = set ds1 \<union> set (queued st2)"
      "length (queued st2) \<le> length (queued st1)" "last_refill (burst_budget st2) = ck_instant ck"
    using enqueue_step_flushes [where net = net and remote = remote and ck = ck, OF assms(4) e assms(3)] unfolding st1_def by blast
  have "loop_inv ap st2"
    using loop_reach_step [OF assms(1,9,10) step] by (rule loop_inv_reach)
  then obtain st3 ds2 where b: "run ap net remote (map (\<lambda>ck. (ck, BurstTick)) cks) st2 = Running st3"
    "wire st3 = wire st2 @ ds2" "set (queued st2) = set ds2 \<union> set (queued st3)"
    "length (queued st3) \<le> length (queued st2) - length cks"
    using burst_ticks_drain [where net = net and remote = remote, OF assms(3), of ap st2 cks] assms(11) a(4) by auto
  have "length (queued st1) \<le> length cks"
    using put_stream_queued [OF assms(4) t_def assms(2)] assms(12) by (simp add: st1_def)
  then have "queued st3 = []" using a(3) b(4) by (cases "queued st3") simp_all
  then have "set (ds1 @ ds2) = set (queued st1)" using a(2) b(3) by simp
  then have "set (receives_as (sender_sync_source s) (next_frame_id s) (ds1 @ ds2)) =
      read_rtp ` set (frame_packets ap s frame)"
    using label_picks_queued [OF reach [OF assms(4)] assms(5,6) t_def, of ty st] reach assms(7)
    unfolding set_receives_as st1_def by simp
  then have "map_option (decrypt ap (crypto s) (next_frame_id s))
      (reassemble (receives_as (sender_sync_source s) (next_frame_id s) (ds1 @ ds2))) = Some (frame_data frame)"
    by (rule frame_packets_decrypt [OF assms(2) m assms(8)])
  then show ?thesis
    using step a(1) b(1,2) by (intro exI [of _ st3] exI [of _ "ds1 @ ds2"]) (simp add: and_then_def)
qed

definition example_ticks :: "clock list" where
  "example_ticks = [\<lparr>ck_instant = 30000000, ck_system = 1700000000010000000\<rparr>]"

theorem frame_reaches_receiver_witness:
  "\<exists>st' ds. run xor_cipher example_net (V4 1 2)
      ((example_clock, Command (Some (EnqueueFrame Video example_frame))) # map (\<lambda>ck. (ck, BurstTick)) example_ticks)
      example_loop = Running st' \<and> wire st' = wire example_loop @ ds \<and>
    map_option (decrypt xor_cipher (crypto (stream_new 7 example_parameters)) 0)
      (reassemble (receives_as 50001 0 ds)) = Some [1, 2, 3]"
proof -
  let ?s = "stream_new 7 example_parameters"
  have s: "next_frame_id ?s = 0" "sender_sync_source ?s = 50001" "waiting ?s = []"
    by (simp_all add: stream_new_def frame_id_first_def example_parameters_def waiting_def outbound_def)
  have l: "get_stream Video (streams example_loop) = Some ?s" "get_stream (other Video) (streams example_loop) = None"
    "queued example_loop = []"
    using s(3) by (simp_all add: example_loop_def loop_start_def get_stream_def other_def queued_def datagrams_def)
  have c: "packet_count (packetizer ?s) (frame_data example_frame) = 1"
    by (simp add: packet_count_def div_ceil_def stream_new_def rtp_packetizer_new_def example_parameters_def
        example_frame_def rtp_sizes)
  have t: "last_refill (burst_budget example_loop) \<le> ck_instant example_clock" "ck_instant example_clock < 2 ^ 96"
    "burst_ticks (ck_instant example_clock) example_ticks" "length example_ticks = 1"
    by (simp_all add: example_loop_def loop_start_def example_clock_def burst_budget_new_eq example_ticks_def
        BURST_INTERVAL_def from_millis_def)
  have "frame_data example_frame = [1, 2, 3]" by (simp add: example_frame_def)
  moreover have "example_net n d = Inr (length d)" for n d by (simp add: example_net_def)
  ultimately show ?thesis
    using frame_reaches_receiver [where net = example_net and remote = "V4 1 2" and ck = example_clock
        and cks = example_ticks, OF example_loop_reach stream_cipher_xor_cipher _ l(1) example_accepts]
      s(1,2) l(2,3) c t by simp
qed

end
