(* ===== verification/Json.thy ===== *)
theory Json
  imports Text
begin

text \<open>
  JSON values as \<open>serde_json::Value\<close> has them and the accessors the sources call on them
  (\<open>get\<close>, \<open>as_str\<close>, \<open>as_u64\<close>, \<open>as_bool\<close>, \<open>as_array\<close>), the crate's error type
  (\<open>src/error.rs\<close>), and hexadecimal text. The members of an object are listed in the order in
  which the serialiser writes them. A floating-point number is its 64-bit pattern: no modelled
  code computes with one.
\<close>

datatype json = JNull | JBool bool | JInt int | JFloat u64 | JString string
  | JArray "json list" | JObject "(string \<times> json) list"

fun json_get :: "json \<Rightarrow> string \<Rightarrow> json option" where
  "json_get (JObject ms) key = map_of ms key"
| "json_get _ key = None"

fun as_str :: "json \<Rightarrow> string option" where
  "as_str (JString s) = Some s"
| "as_str _ = None"

fun as_u64 :: "json \<Rightarrow> nat option" where
  "as_u64 (JInt i) = (if 0 \<le> i \<and> i < 2 ^ 64 then Some (nat i) else None)"
| "as_u64 _ = None"

fun as_bool :: "json \<Rightarrow> bool option" where
  "as_bool (JBool b) = Some b"
| "as_bool _ = None"

fun as_array :: "json \<Rightarrow> json list option" where
  "as_array (JArray xs) = Some xs"
| "as_array _ = None"

definition json_nat :: "nat \<Rightarrow> json" where
  "json_nat n = JInt (int n)"

definition get_str :: "json \<Rightarrow> string \<Rightarrow> string option" where
  "get_str v key = Option.bind (json_get v key) as_str"

definition get_u64 :: "json \<Rightarrow> string \<Rightarrow> nat option" where
  "get_u64 v key = Option.bind (json_get v key) as_u64"

definition get_bool :: "json \<Rightarrow> string \<Rightarrow> bool option" where
  "get_bool v key = Option.bind (json_get v key) as_bool"

lemma as_u64_json_nat [simp]: "n < 2 ^ 64 \<Longrightarrow> as_u64 (json_nat n) = Some n"
  by (simp add: json_nat_def)

lemma as_u64_word [simp]:
  "as_u64 (json_nat (unat (b :: u8))) = Some (unat b)"
  "as_u64 (json_nat (unat (h :: u16))) = Some (unat h)"
  "as_u64 (json_nat (unat (w :: u32))) = Some (unat w)"
  using unat_lt [of b] unat_lt [of h] unat_lt [of w] by simp_all

subsection \<open>Errors of the crate\<close>

datatype error = InvalidPacket string | CryptoFailed string | NegotiationFailed string
  | NoAcceptedStreams | ConnectionFailed string | AuthenticationFailed string
  | ProtocolError string | SetupFailed string | AppLaunchFailed string | Io string
  | JsonFailed string

subsection \<open>Hexadecimal text\<close>

definition HEX :: string where
  "HEX = ''0123456789ABCDEF''"

primrec hex_encode :: "bytes \<Rightarrow> string" where
  "hex_encode [] = []"
| "hex_encode (b # bs) =
     HEX ! unat (drop_bit 4 b) # HEX ! unat (b AND 0x0f) # hex_encode bs"

text \<open>The reader's side: two digits make a byte.\<close>

definition hex_value :: "char \<Rightarrow> nat option" where
  "hex_value c =
     (case find (\<lambda>i. HEX ! i = c) [0..<16] of None \<Rightarrow> None | Some i \<Rightarrow> Some i)"

fun hex_decode :: "string \<Rightarrow> bytes option" where
  "hex_decode [] = Some []"
| "hex_decode [c] = None"
| "hex_decode (c # d # cs) =
     (case (hex_value c, hex_value d, hex_decode cs) of
        (Some h, Some l, Some bs) \<Rightarrow> Some (of_nat (16 * h + l) # bs)
      | _ \<Rightarrow> None)"

lemma hex_value_HEX [simp]: "i < 16 \<Longrightarrow> hex_value (HEX ! i) = Some i"
proof -
  assume "i < 16"
  then have "i \<in> set [0,1,2,3,4,5,6,7,8,9,10,11,12,13,14,15]"
    by simp presburger
  then show ?thesis by (auto simp: hex_value_def HEX_def upt_rec)
qed

lemma high_nibble: "unat (drop_bit 4 (b :: u8)) = unat b div 16"
  by (simp add: drop_bit_eq_div unat_div)

lemma low_nibble: "unat (b AND 0x0f :: u8) = unat b mod 16"
proof -
  have "b AND 0x0f = take_bit 4 b" by (simp add: take_bit_eq_mask mask_eq_exp_minus_1)
  then show ?thesis by (simp add: take_bit_eq_mod unat_mod)
qed

lemma nibbles_less: "unat (drop_bit 4 (b :: u8)) < 16" "unat (b AND 0x0f) < 16"
  using unat_lt [of b] unfolding high_nibble low_nibble by simp_all

lemma nibbles_join: "of_nat (16 * unat (drop_bit 4 (b :: u8)) + unat (b AND 0x0f)) = b"
  unfolding high_nibble low_nibble mult_div_mod_eq by simp

lemma hex_decode_encode [simp]: "hex_decode (hex_encode bs) = Some bs"
  by (induction bs) (simp_all add: nibbles_less nibbles_join del: of_nat_add of_nat_mult)

lemma length_hex_encode [simp]: "length (hex_encode bs) = 2 * length bs"
  by (induction bs) simp_all

end
