(* ===== verification/Offer.thy ===== *)
theory Offer
  imports Json Codec Crypto "HOL-Library.Monad_Syntax"
begin

text \<open>
  The OFFER (\<open>src/offer.rs\<close>): the configurations a caller puts in, the builder with its
  checks, the accessors the session start uses, and the JSON the receiver gets. The random draws
  of the builder (synchronisation sources, AES keys and IV masks) are the parameter \<open>draws\<close>:
  for each stream index what the operating system's generator returns.
\<close>

subsection \<open>Data\<close>

definition DEFAULT_TARGET_PLAYOUT_DELAY :: duration where
  "DEFAULT_TARGET_PLAYOUT_DELAY = from_millis 400"
definition ADAPTIVE_PLAYOUT_DELAY_EXTENSION :: string where
  "ADAPTIVE_PLAYOUT_DELAY_EXTENSION = ''adaptive_playout_delay''"
definition DEFAULT_VIDEO_MAX_BIT_RATE :: u32 where "DEFAULT_VIDEO_MAX_BIT_RATE = 10000000"
definition DEFAULT_AUDIO_SAMPLE_RATE :: u32 where "DEFAULT_AUDIO_SAMPLE_RATE = 48000"
definition DEFAULT_AUDIO_CHANNELS :: u8 where "DEFAULT_AUDIO_CHANNELS = 2"
definition RTP_VIDEO_TIMEBASE :: u32 where "RTP_VIDEO_TIMEBASE = 90000"
definition DEFAULT_FRAME_RATE :: u32 where "DEFAULT_FRAME_RATE = 30"

record audio_stream_config =
  ac_codec :: audio_codec
  ac_bit_rate :: u32
  ac_sample_rate :: u32
  ac_channels :: u8
  ac_target_delay :: duration

record video_stream_config =
  vc_codec :: video_codec
  vc_max_bit_rate :: u32
  vc_max_frame_rate :: framerate
  vc_resolutions :: "resolution list"
  vc_target_delay :: duration

datatype stream_offer_type = AudioSource | VideoSource

record audio_extra =
  ae_bit_rate :: u32

record video_extra =
  ve_max_frame_rate :: framerate
  ve_max_bit_rate :: u32
  ve_resolutions :: "resolution list"

record stream_offer =
  so_index :: nat
  so_stream_type :: stream_offer_type
  so_channels :: u8
  so_rtp_payload_type :: u8
  so_sync_source :: sync_source
  so_target_delay :: duration
  so_aes_key :: bytes
  so_aes_iv_mask :: bytes
  so_rtp_timebase :: u32
  so_codec_name :: string
  so_rtp_extensions :: "string list"
  so_audio_extra :: "audio_extra option"
  so_video_extra :: "video_extra option"

record offer =
  of_cast_mode :: cast_mode
  of_streams :: "stream_offer list"

record offer_builder =
  ob_cast_mode :: cast_mode
  ob_audio :: "audio_stream_config list"
  ob_video :: "video_stream_config list"

datatype offer_error = NoStreams | InvalidAudioStream nat string | InvalidVideoStream nat string

record draws =
  draw_sync_source :: "nat \<Rightarrow> u32 \<Rightarrow> u32 \<Rightarrow> u32"
  draw_key :: "nat \<Rightarrow> bytes \<Rightarrow> bytes"
  draw_iv_mask :: "nat \<Rightarrow> bytes \<Rightarrow> bytes"

subsection \<open>Defaults and accessors\<close>

definition audio_stream_config_default :: audio_stream_config where
  "audio_stream_config_default =
     \<lparr>ac_codec = Opus, ac_bit_rate = 128000, ac_sample_rate = DEFAULT_AUDIO_SAMPLE_RATE,
      ac_channels = DEFAULT_AUDIO_CHANNELS, ac_target_delay = DEFAULT_TARGET_PLAYOUT_DELAY\<rparr>"

text \<open>The two \<open>expect\<close> calls make the default a result that may panic.\<close>

definition expect :: "'b + 'a \<Rightarrow> ('a, 'e) result" where
  "expect r = (case r of Inl _ \<Rightarrow> Inl Panic | Inr a \<Rightarrow> Inr a)"

definition video_stream_config_default :: "(video_stream_config, 'e) result" where
  "video_stream_config_default =
     bindR (expect (framerate_new DEFAULT_FRAME_RATE 1)) (\<lambda>rate.
     bindR (expect (resolution_new 1920 1080)) (\<lambda>resolution.
       Inr \<lparr>vc_codec = H264, vc_max_bit_rate = DEFAULT_VIDEO_MAX_BIT_RATE,
            vc_max_frame_rate = rate, vc_resolutions = [resolution],
            vc_target_delay = DEFAULT_TARGET_PLAYOUT_DELAY\<rparr>))"

definition find_offered :: "offer \<Rightarrow> nat \<Rightarrow> stream_offer option" where
  "find_offered ofr index = find (\<lambda>s. so_index s = index) (of_streams ofr)"

definition stream_aes_key :: "offer \<Rightarrow> nat \<Rightarrow> bytes option" where
  "stream_aes_key ofr index = map_option so_aes_key (find_offered ofr index)"

definition stream_aes_iv_mask :: "offer \<Rightarrow> nat \<Rightarrow> bytes option" where
  "stream_aes_iv_mask ofr index = map_option so_aes_iv_mask (find_offered ofr index)"

definition stream_sync_source :: "offer \<Rightarrow> nat \<Rightarrow> sync_source option" where
  "stream_sync_source ofr index = map_option so_sync_source (find_offered ofr index)"

definition stream_rtp_timebase :: "offer \<Rightarrow> nat \<Rightarrow> u32 option" where
  "stream_rtp_timebase ofr index = map_option so_rtp_timebase (find_offered ofr index)"

definition stream_rtp_payload_type :: "offer \<Rightarrow> nat \<Rightarrow> u8 option" where
  "stream_rtp_payload_type ofr index = map_option so_rtp_payload_type (find_offered ofr index)"

definition stream_target_delay :: "offer \<Rightarrow> nat \<Rightarrow> duration option" where
  "stream_target_delay ofr index = map_option so_target_delay (find_offered ofr index)"

fun offered_type :: "stream_offer_type \<Rightarrow> stream_type" where
  "offered_type AudioSource = Audio"
| "offered_type VideoSource = Video"

definition stream_type_at :: "offer \<Rightarrow> nat \<Rightarrow> stream_type option" where
  "stream_type_at ofr index =
     map_option (\<lambda>s. offered_type (so_stream_type s)) (find_offered ofr index)"

definition has_video :: "offer \<Rightarrow> bool" where
  "has_video ofr = list_ex (\<lambda>s. so_stream_type s = VideoSource) (of_streams ofr)"

subsection \<open>The builder\<close>

definition offer_builder_new :: offer_builder where
  "offer_builder_new = \<lparr>ob_cast_mode = Mirroring, ob_audio = [], ob_video = []\<rparr>"

definition builder_cast_mode :: "offer_builder \<Rightarrow> cast_mode \<Rightarrow> offer_builder" where
  "builder_cast_mode b mode = b\<lparr>ob_cast_mode := mode\<rparr>"

definition builder_audio :: "offer_builder \<Rightarrow> audio_stream_config \<Rightarrow> offer_builder" where
  "builder_audio b config = b\<lparr>ob_audio := ob_audio b @ [config]\<rparr>"

definition builder_video :: "offer_builder \<Rightarrow> video_stream_config \<Rightarrow> offer_builder" where
  "builder_video b config = b\<lparr>ob_video := ob_video b @ [config]\<rparr>"

definition valid_target_delay :: "duration \<Rightarrow> bool" where
  "valid_target_delay delay =
     (let milliseconds = as_millis delay
      in 1 \<le> milliseconds \<and> milliseconds \<le> 2 ^ 32 - 1 \<and> delay = from_millis milliseconds)"

definition TARGET_DELAY_REASON :: string where
  "TARGET_DELAY_REASON =
     ''target delay must be a whole number of milliseconds between 1 and 4294967295''"

definition audio_reason :: "audio_stream_config \<Rightarrow> string option" where
  "audio_reason audio =
     (if ac_bit_rate audio = 0 then Some ''bit rate must be nonzero''
      else if ac_sample_rate audio = 0 then Some ''sample rate must be nonzero''
      else if ac_channels audio = 0 then Some ''channel count must be nonzero''
      else if \<not> valid_target_delay (ac_target_delay audio) then Some TARGET_DELAY_REASON
      else None)"

definition video_reason :: "video_stream_config \<Rightarrow> string option" where
  "video_reason video =
     (if vc_max_bit_rate video = 0 then Some ''maximum bit rate must be nonzero''
      else if vc_resolutions video = [] then Some ''at least one resolution is required''
      else if \<not> valid_target_delay (vc_target_delay video) then Some TARGET_DELAY_REASON
      else None)"

fun first_reason :: "('c \<Rightarrow> string option) \<Rightarrow> nat \<Rightarrow> 'c list \<Rightarrow> (nat \<times> string) option" where
  "first_reason reason index [] = None"
| "first_reason reason index (c # cs) =
     (case reason c of
        Some r \<Rightarrow> Some (index, r)
      | None \<Rightarrow> first_reason reason (index + 1) cs)"

definition audio_offer :: "draws \<Rightarrow> nat \<Rightarrow> audio_stream_config \<Rightarrow> stream_offer" where
  "audio_offer d index audio =
     \<lparr>so_index = index, so_stream_type = AudioSource, so_channels = ac_channels audio,
      so_rtp_payload_type = audio_rtp_payload_type (ac_codec audio),
      so_sync_source = generate_audio (draw_sync_source d index),
      so_target_delay = ac_target_delay audio,
      so_aes_key = generate_key (draw_key d index),
      so_aes_iv_mask = generate_iv_mask (draw_iv_mask d index),
      so_rtp_timebase = ac_sample_rate audio,
      so_codec_name = audio_codec_name (ac_codec audio),
      so_rtp_extensions = [ADAPTIVE_PLAYOUT_DELAY_EXTENSION],
      so_audio_extra = Some \<lparr>ae_bit_rate = ac_bit_rate audio\<rparr>, so_video_extra = None\<rparr>"

definition video_offer :: "draws \<Rightarrow> nat \<Rightarrow> video_stream_config \<Rightarrow> stream_offer" where
  "video_offer d index video =
     \<lparr>so_index = index, so_stream_type = VideoSource, so_channels = 1,
      so_rtp_payload_type = video_rtp_payload_type (vc_codec video),
      so_sync_source = generate_video (draw_sync_source d index),
      so_target_delay = vc_target_delay video,
      so_aes_key = generate_key (draw_key d index),
      so_aes_iv_mask = generate_iv_mask (draw_iv_mask d index),
      so_rtp_timebase = RTP_VIDEO_TIMEBASE,
      so_codec_name = video_codec_name (vc_codec video),
      so_rtp_extensions = [ADAPTIVE_PLAYOUT_DELAY_EXTENSION],
      so_audio_extra = None,
      so_video_extra = Some \<lparr>ve_max_frame_rate = vc_max_frame_rate video,
                             ve_max_bit_rate = vc_max_bit_rate video,
                             ve_resolutions = vc_resolutions video\<rparr>\<rparr>"

fun push_streams ::
  "(nat \<Rightarrow> 'c \<Rightarrow> stream_offer) \<Rightarrow> 'c list \<Rightarrow> stream_offer list \<times> nat \<Rightarrow> stream_offer list \<times> nat" where
  "push_streams mk [] (acc, index) = (acc, index)"
| "push_streams mk (c # cs) (acc, index) = push_streams mk cs (acc @ [mk index c], index + 1)"

definition build :: "draws \<Rightarrow> offer_builder \<Rightarrow> offer_error + offer" where
  "build d b =
     (if ob_audio b = [] \<and> ob_video b = [] then Inl NoStreams
      else case first_reason audio_reason 0 (ob_audio b) of
        Some (index, reason) \<Rightarrow> Inl (InvalidAudioStream index reason)
      | None \<Rightarrow>
          (case first_reason video_reason 0 (ob_video b) of
             Some (index, reason) \<Rightarrow> Inl (InvalidVideoStream index reason)
           | None \<Rightarrow>
               Inr \<lparr>of_cast_mode = ob_cast_mode b,
                    of_streams = fst (push_streams (video_offer d) (ob_video b)
                      (push_streams (audio_offer d) (ob_audio b) ([], 0)))\<rparr>))"

subsection \<open>The JSON of an OFFER\<close>

fun cast_mode_name :: "cast_mode \<Rightarrow> string" where
  "cast_mode_name Mirroring = ''mirroring''"
| "cast_mode_name Remoting = ''remoting''"

definition json_word :: "'a :: len word \<Rightarrow> json" where
  "json_word w = json_nat (unat w)"

definition resolution_serialize :: "resolution \<Rightarrow> json" where
  "resolution_serialize r =
     JObject [(''width'', json_word (width r)), (''height'', json_word (height r))]"

definition stream_offer_serialize :: "stream_offer \<Rightarrow> json" where
  "stream_offer_serialize s = JObject
     ([(''index'', json_nat (so_index s)),
       (''type'', JString (case so_stream_type s of AudioSource \<Rightarrow> ''audio_source''
                             | VideoSource \<Rightarrow> ''video_source'')),
       (''codecName'', JString (so_codec_name s)),
       (''rtpProfile'', JString ''cast''),
       (''rtpPayloadType'', json_word (so_rtp_payload_type s)),
       (''ssrc'', json_word (so_sync_source s)),
       (''timeBase'', JString (''1/'' @ show_nat (unat (so_rtp_timebase s)))),
       (''targetDelay'', json_word (of_nat (as_millis (so_target_delay s)) :: u32)),
       (''aesKey'', JString (hex_encode (so_aes_key s))),
       (''aesIvMask'', JString (hex_encode (so_aes_iv_mask s))),
       (''channels'', json_word (so_channels s)),
       (''rtpExtensions'', JArray (map JString (so_rtp_extensions s)))] @
      (case so_audio_extra s of
         None \<Rightarrow> []
       | Some audio \<Rightarrow> [(''bitRate'', json_word (ae_bit_rate audio))]) @
      (case so_video_extra s of
         None \<Rightarrow> []
       | Some video \<Rightarrow>
           [(''maxFrameRate'', JString (framerate_serialize (ve_max_frame_rate video))),
            (''maxBitRate'', json_word (ve_max_bit_rate video)),
            (''resolutions'', JArray (map resolution_serialize (ve_resolutions video)))]))"

definition offer_serialize :: "offer \<Rightarrow> json" where
  "offer_serialize ofr = JObject
     [(''castMode'', JString (cast_mode_name (of_cast_mode ofr))),
      (''supportedStreams'', JArray (map stream_offer_serialize (of_streams ofr)))]"

subsection \<open>What the builder promises\<close>

definition good_draws :: "draws \<Rightarrow> bool" where
  "good_draws d \<longleftrightarrow>
     (\<forall>i. range_generator (draw_sync_source d i)) \<and>
     (\<forall>i bs. length (draw_key d i bs) = length bs) \<and>
     (\<forall>i bs. length (draw_iv_mask d i bs) = length bs)"

definition whole_milliseconds :: "nat \<Rightarrow> duration \<Rightarrow> bool" where
  "whole_milliseconds limit delay \<longleftrightarrow> (\<exists>ms. 0 < ms \<and> ms < limit \<and> delay = from_millis ms)"

definition valid_builder :: "offer_builder \<Rightarrow> bool" where
  "valid_builder b \<longleftrightarrow>
     (ob_audio b \<noteq> [] \<or> ob_video b \<noteq> []) \<and>
     (\<forall>a\<in>set (ob_audio b). ac_bit_rate a \<noteq> 0 \<and> ac_sample_rate a \<noteq> 0 \<and> ac_channels a \<noteq> 0 \<and>
        whole_milliseconds (2 ^ 32) (ac_target_delay a)) \<and>
     (\<forall>v\<in>set (ob_video b). vc_max_bit_rate v \<noteq> 0 \<and> vc_resolutions v \<noteq> [] \<and>
        whole_milliseconds (2 ^ 32) (vc_target_delay v))"

lemma valid_target_delay_iff: "valid_target_delay d \<longleftrightarrow> whole_milliseconds (2 ^ 32) d"
proof -
  have "valid_target_delay d \<longleftrightarrow> (\<exists>ms. ms = as_millis d \<and> 0 < ms \<and> ms < 2 ^ 32 \<and> d = from_millis ms)"
    by (auto simp: valid_target_delay_def Let_def)
  then show ?thesis unfolding whole_milliseconds_def by (metis as_millis_from_millis)
qed

lemma first_reason_None: "first_reason reason i cs = None \<longleftrightarrow> (\<forall>c\<in>set cs. reason c = None)"
  by (induction cs arbitrary: i) (auto split: option.splits)

lemma push_streams_eq:
  "push_streams mk cs (acc, i) = (acc @ map2 mk [i..<i + length cs] cs, i + length cs)"
  by (induction cs arbitrary: acc i) (simp_all add: upt_conv_Cons del: upt_Suc)

definition built_streams :: "draws \<Rightarrow> offer_builder \<Rightarrow> stream_offer list" where
  "built_streams d b =
     map2 (audio_offer d) [0..<length (ob_audio b)] (ob_audio b) @
     map2 (video_offer d) [length (ob_audio b)..<length (ob_audio b) + length (ob_video b)] (ob_video b)"

lemma build_eq:
  "valid_builder b \<Longrightarrow>
     build d b = Inr \<lparr>of_cast_mode = ob_cast_mode b, of_streams = built_streams d b\<rparr>"
  "(\<exists>e. build d b = Inl e) \<longleftrightarrow> \<not> valid_builder b"
proof -
  have audio: "first_reason audio_reason 0 (ob_audio b) = None \<longleftrightarrow>
      (\<forall>a\<in>set (ob_audio b). ac_bit_rate a \<noteq> 0 \<and> ac_sample_rate a \<noteq> 0 \<and> ac_channels a \<noteq> 0 \<and>
        whole_milliseconds (2 ^ 32) (ac_target_delay a))"
    by (auto simp: first_reason_None audio_reason_def valid_target_delay_iff)
  have video: "first_reason video_reason 0 (ob_video b) = None \<longleftrightarrow>
      (\<forall>v\<in>set (ob_video b). vc_max_bit_rate v \<noteq> 0 \<and> vc_resolutions v \<noteq> [] \<and>
        whole_milliseconds (2 ^ 32) (vc_target_delay v))"
    by (auto simp: first_reason_None video_reason_def valid_target_delay_iff)
  have valid: "valid_builder b \<longleftrightarrow> \<not> (ob_audio b = [] \<and> ob_video b = []) \<and>
      first_reason audio_reason 0 (ob_audio b) = None \<and>
      first_reason video_reason 0 (ob_video b) = None"
    unfolding audio video valid_builder_def by blast
  show "valid_builder b \<Longrightarrow>
      build d b = Inr \<lparr>of_cast_mode = ob_cast_mode b, of_streams = built_streams d b\<rparr>"
    unfolding valid by (auto simp: build_def push_streams_eq built_streams_def)
  show "(\<exists>e. build d b = Inl e) \<longleftrightarrow> \<not> valid_builder b"
    unfolding valid by (auto simp: build_def split: option.splits)
qed

lemma build_Inr:
  "build d b = Inr ofr \<longleftrightarrow>
     valid_builder b \<and> ofr = \<lparr>of_cast_mode = ob_cast_mode b, of_streams = built_streams d b\<rparr>"
  using build_eq [where d = d and b = b] by (cases "build d b") (auto split: if_splits)

lemma length_built_streams [simp]:
  "length (built_streams d b) = length (ob_audio b) + length (ob_video b)"
  by (simp add: built_streams_def)

lemma nth_built_streams:
  "i < length (ob_audio b) \<Longrightarrow> built_streams d b ! i = audio_offer d i (ob_audio b ! i)"
  "length (ob_audio b) \<le> i \<Longrightarrow> i < length (ob_audio b) + length (ob_video b) \<Longrightarrow>
     built_streams d b ! i = video_offer d i (ob_video b ! (i - length (ob_audio b)))"
  by (simp_all add: built_streams_def nth_append)

lemma so_index_built:
  "i < length (ob_audio b) + length (ob_video b) \<Longrightarrow> so_index (built_streams d b ! i) = i"
  by (cases "i < length (ob_audio b)")
    (simp_all add: nth_built_streams audio_offer_def video_offer_def)

lemma find_index:
  assumes "\<And>i. i < length xs \<Longrightarrow> f (xs ! i) = i"
  shows "find (\<lambda>x. f x = k) xs = (if k < length xs then Some (xs ! k) else None)"
proof (cases "find (\<lambda>x. f x = k) xs")
  case None
  then show ?thesis using assms by (auto simp: find_None_iff dest: nth_mem)
next
  case (Some x)
  then obtain i where "i < length xs" "f (xs ! i) = k" "x = xs ! i"
    by (auto simp: find_Some_iff)
  then show ?thesis using assms Some by auto
qed

lemma find_offered_built:
  "build d b = Inr ofr \<Longrightarrow>
     find_offered ofr i = (if i < length (of_streams ofr) then Some (of_streams ofr ! i) else None)"
  using find_index [of "built_streams d b" so_index i]
  by (auto simp: find_offered_def build_Inr so_index_built)


lemma built_stream_cases:
  assumes "build d b = Inr ofr" and "i < length (of_streams ofr)"
  obtains (audio) "i < length (ob_audio b)"
      and "of_streams ofr ! i = audio_offer d i (ob_audio b ! i)"
    | (video) "length (ob_audio b) \<le> i" and "i - length (ob_audio b) < length (ob_video b)"
      and "of_streams ofr ! i = video_offer d i (ob_video b ! (i - length (ob_audio b)))"
  using assms nth_built_streams [where i = i and d = d and b = b] by (cases "i < length (ob_audio b)") (auto simp: build_Inr)

lemma generated_bytes:
  "good_draws d \<Longrightarrow> length (generate_key (draw_key d i)) = 16"
  "good_draws d \<Longrightarrow> length (generate_iv_mask (draw_iv_mask d i)) = 16"
  by (simp_all add: good_draws_def generate_key_def generate_iv_mask_def)

lemma built_delay:
  assumes "build d b = Inr ofr" and "i < length (of_streams ofr)"
  shows "whole_milliseconds (2 ^ 32) (so_target_delay (of_streams ofr ! i))"
  using assms(1)
  by (cases rule: built_stream_cases [OF assms])
    (simp_all add: build_Inr valid_builder_def audio_offer_def video_offer_def)

lemma built_sync_source:
  assumes "good_draws d" and "build d b = Inr ofr" and "find_offered ofr i = Some so"
  shows "is_audio (so_sync_source so) = (so_stream_type so = AudioSource)"
proof -
  have i: "i < length (of_streams ofr)" and so: "so = of_streams ofr ! i"
    using assms(3) by (auto simp: find_offered_built [OF assms(2)] split: if_splits)
  have "range_generator (draw_sync_source d i)" using assms(1) by (simp add: good_draws_def)
  from generated_sync_sources [OF this] show ?thesis
    by (cases rule: built_stream_cases [OF assms(2) i]) (simp_all add: so audio_offer_def video_offer_def)
qed

text \<open>
  C29. The builder accepts exactly the configurations with at least one stream, nonzero rates and
  channels, a resolution per video stream and delays of 1 to 4294967295 whole milliseconds. The
  offer it returns lists the audio streams and then the video streams, indexed by position, and
  every accessor looks up by that index; each stream has its configuration's codec and clock, a
  16-byte key and mask, and a synchronisation source of the range of its type, so that an audio
  and a video stream never share one.
\<close>

theorem build_offer:
  assumes "good_draws d"
  shows "case build d b of
      Inl e \<Rightarrow> \<not> valid_builder b
    | Inr ofr \<Rightarrow> valid_builder b \<and>
        length (of_streams ofr) = length (ob_audio b) + length (ob_video b) \<and>
        find_offered ofr (length (of_streams ofr)) = None \<and>
        (\<forall>i<length (of_streams ofr). \<exists>s. find_offered ofr i = Some s \<and>
           s = (if i < length (ob_audio b) then audio_offer d i (ob_audio b ! i)
                else video_offer d i (ob_video b ! (i - length (ob_audio b)))) \<and>
           so_index s = i \<and> length (so_aes_key s) = 16 \<and> length (so_aes_iv_mask s) = 16 \<and>
           is_audio (so_sync_source s) = (so_stream_type s = AudioSource))"
proof (cases "build d b")
  case (Inl e)
  then show ?thesis using build_eq(2) [where d = d and b = b] by auto
next
  case (Inr ofr)
  have "\<exists>s. find_offered ofr i = Some s \<and>
      s = (if i < length (ob_audio b) then audio_offer d i (ob_audio b ! i)
           else video_offer d i (ob_video b ! (i - length (ob_audio b)))) \<and>
      so_index s = i \<and> length (so_aes_key s) = 16 \<and> length (so_aes_iv_mask s) = 16 \<and>
      is_audio (so_sync_source s) = (so_stream_type s = AudioSource)"
    if i: "i < length (of_streams ofr)" for i
    using find_offered_built [OF Inr, of i] i generated_bytes [OF assms, of i]
      generated_sync_sources [of "draw_sync_source d i"] assms
    by (cases rule: built_stream_cases [OF Inr i])
      (simp_all add: audio_offer_def video_offer_def good_draws_def)
  moreover have "valid_builder b" "length (of_streams ofr) = length (ob_audio b) + length (ob_video b)"
    using Inr by (simp_all add: build_Inr)
  moreover have "find_offered ofr (length (of_streams ofr)) = None"
    using find_offered_built [OF Inr] by simp
  ultimately show ?thesis unfolding Inr sum.case by blast
qed

text \<open>A concrete caller: the default audio and video streams, and a generator.\<close>

definition example_draws :: draws where
  "example_draws =
     \<lparr>draw_sync_source = (\<lambda>i lo hi. lo), draw_key = (\<lambda>i bs. map (\<lambda>_. of_nat (i + 1)) bs),
      draw_iv_mask = (\<lambda>i bs. map (\<lambda>_. of_nat (i + 17)) bs)\<rparr>"

definition example_video :: video_stream_config where
  "example_video =
     \<lparr>vc_codec = H264, vc_max_bit_rate = DEFAULT_VIDEO_MAX_BIT_RATE,
      vc_max_frame_rate = \<lparr>numerator = 30, denominator = 1\<rparr>,
      vc_resolutions = [\<lparr>width = 1920, height = 1080\<rparr>],
      vc_target_delay = DEFAULT_TARGET_PLAYOUT_DELAY\<rparr>"

definition example_builder :: offer_builder where
  "example_builder =
     builder_video (builder_audio offer_builder_new audio_stream_config_default) example_video"

definition example_offer :: offer where
  "example_offer = \<lparr>of_cast_mode = Mirroring, of_streams =
     [audio_offer example_draws 0 audio_stream_config_default, video_offer example_draws 1 example_video]\<rparr>"

lemma good_example_draws: "good_draws example_draws"
  by (simp add: good_draws_def example_draws_def range_generator_def)

lemma example_build: "build example_draws example_builder = Inr example_offer"
proof -
  have "whole_milliseconds (2 ^ 32) DEFAULT_TARGET_PLAYOUT_DELAY"
    unfolding whole_milliseconds_def DEFAULT_TARGET_PLAYOUT_DELAY_def by (rule exI [of _ 400]) simp
  then show ?thesis
    by (simp add: build_Inr valid_builder_def example_builder_def builder_video_def builder_audio_def
        offer_builder_new_def audio_stream_config_default_def example_video_def example_offer_def
        built_streams_def DEFAULT_VIDEO_MAX_BIT_RATE_def DEFAULT_AUDIO_SAMPLE_RATE_def
        DEFAULT_AUDIO_CHANNELS_def)
qed

theorem build_offer_witness:
  "good_draws example_draws \<and> valid_builder example_builder \<and>
   find_offered example_offer 2 = None \<and>
   (\<exists>s. find_offered example_offer 1 = Some s \<and> length (so_aes_key s) = 16)"
proof -
  have "length (of_streams example_offer) = 2" and "(1 :: nat) < 2"
    by (simp_all add: example_offer_def)
  then show ?thesis
    using build_offer [OF good_example_draws, of example_builder] good_example_draws
    unfolding example_build sum.case by metis
qed

subsection \<open>What the receiver reads\<close>

text \<open>The members of a stream object that a receiver needs to play the stream, read from the
  JSON value.\<close>

record received_stream =
  rs_index :: nat
  rs_type :: string
  rs_payload_type :: nat
  rs_sync_source :: nat
  rs_timebase :: u32
  rs_target_delay :: duration
  rs_key :: bytes
  rs_iv_mask :: bytes

definition read_timebase :: "string \<Rightarrow> u32 option" where
  "read_timebase t =
     (case split_once (CHR ''/'') t of Some (n, d) \<Rightarrow> if n = ''1'' then parse_u32 d else None
        | None \<Rightarrow> None)"

definition read_stream :: "json \<Rightarrow> received_stream option" where
  "read_stream v = do {
     index \<leftarrow> get_u64 v ''index'';
     type \<leftarrow> get_str v ''type'';
     pt \<leftarrow> get_u64 v ''rtpPayloadType'';
     ssrc \<leftarrow> get_u64 v ''ssrc'';
     timebase \<leftarrow> Option.bind (get_str v ''timeBase'') read_timebase;
     delay \<leftarrow> get_u64 v ''targetDelay'';
     key \<leftarrow> Option.bind (get_str v ''aesKey'') hex_decode;
     mask \<leftarrow> Option.bind (get_str v ''aesIvMask'') hex_decode;
     Some \<lparr>rs_index = index, rs_type = type, rs_payload_type = pt, rs_sync_source = ssrc,
           rs_timebase = timebase, rs_target_delay = from_millis delay, rs_key = key,
           rs_iv_mask = mask\<rparr> }"

definition read_offer :: "json \<Rightarrow> received_stream list option" where
  "read_offer v =
     Option.bind (json_get v ''supportedStreams'') (\<lambda>streams.
     Option.bind (as_array streams) (\<lambda>xs. those (map read_stream xs)))"

definition received :: "stream_offer \<Rightarrow> received_stream" where
  "received s =
     \<lparr>rs_index = so_index s,
      rs_type = (case so_stream_type s of AudioSource \<Rightarrow> ''audio_source'' | VideoSource \<Rightarrow> ''video_source''),
      rs_payload_type = unat (so_rtp_payload_type s), rs_sync_source = unat (so_sync_source s),
      rs_timebase = so_rtp_timebase s, rs_target_delay = so_target_delay s,
      rs_key = so_aes_key s, rs_iv_mask = so_aes_iv_mask s\<rparr>"

lemma read_timebase_show [simp]: "read_timebase (''1/'' @ show_nat (unat w)) = Some w"
  using split_once_append [of "CHR ''/''" "''1''" "show_nat (unat w)"]
  by (simp add: read_timebase_def)

lemma delay_word:
  "whole_milliseconds (2 ^ 32) t \<Longrightarrow> from_millis (unat (of_nat (as_millis t) :: u32)) = t"
  by (auto simp: whole_milliseconds_def unat_of_nat)

lemma read_stream_serialize:
  assumes "so_index s < 2 ^ 64" and "whole_milliseconds (2 ^ 32) (so_target_delay s)"
  shows "read_stream (stream_offer_serialize s) = Some (received s)"
  using assms delay_word [OF assms(2)] read_timebase_show [of "so_rtp_timebase s"]
  by (simp add: read_stream_def stream_offer_serialize_def received_def get_u64_def get_str_def
      json_word_def)

lemma read_built_offer:
  assumes "build d b = Inr ofr" and "length (of_streams ofr) \<le> 2 ^ 64"
  shows "read_offer (offer_serialize ofr) = Some (map received (of_streams ofr))"
proof -
  have "read_stream (stream_offer_serialize s) = Some (received s)" if "s \<in> set (of_streams ofr)" for s
  proof -
    from that obtain i where i: "i < length (of_streams ofr)" "s = of_streams ofr ! i"
      by (auto simp: in_set_conv_nth)
    then have "so_index s = i"
      using assms(1) by (auto simp: build_Inr so_index_built)
    with i assms built_delay [OF assms(1) i(1)] show ?thesis
      by (intro read_stream_serialize) auto
  qed
  then have "those (map (\<lambda>s. read_stream (stream_offer_serialize s)) (of_streams ofr))
      = Some (map received (of_streams ofr))" by (rule those_map_Some)
  then show ?thesis by (simp add: read_offer_def offer_serialize_def comp_def)
qed



end
