(* ===== verification/Answer.thy ===== *)
theory Answer
  imports Json Codec
begin

text \<open>
  The receiver's ANSWER and its validation (\<open>src/answer.rs\<close>). The JSON deserialiser of the
  record is derived by the serialisation library; a value of the record type is what it returns.
\<close>

record dimensions =
  dm_width :: u32
  dm_height :: u32
  dm_frame_rate :: "framerate option"

record display_description =
  dd_dimensions :: "dimensions option"
  dd_aspect_ratio :: "string option"
  dd_scaling :: "string option"

record audio_constraints =
  acn_max_sample_rate :: "u32 option"
  acn_max_channels :: "u8 option"
  acn_min_bit_rate :: "u32 option"
  acn_max_bit_rate :: "u32 option"
  acn_max_delay :: "u32 option"

record video_constraints =
  vcn_max_pixels_per_second :: "u64 option"
  vcn_min_resolution :: "resolution option"
  vcn_max_dimensions :: "dimensions option"
  vcn_min_bit_rate :: "u32 option"
  vcn_max_bit_rate :: "u32 option"
  vcn_max_delay :: "u32 option"

record constraints =
  cn_audio :: "audio_constraints option"
  cn_video :: "video_constraints option"

record answer =
  an_udp_port :: u16
  an_send_indexes :: "nat list"
  an_sync_sources :: "sync_source list"
  an_constraints :: "constraints option"
  an_display :: "display_description option"
  an_rtp_extensions :: "string list list option"

definition zero_dimension :: "dimensions \<Rightarrow> bool" where
  "zero_dimension d \<longleftrightarrow> dm_width d = 0 \<or> dm_height d = 0"

definition max_dimensions :: "answer \<Rightarrow> dimensions option" where
  "max_dimensions a =
     Option.bind (Option.bind (an_constraints a) cn_video) vcn_max_dimensions"

definition display_dimensions :: "answer \<Rightarrow> dimensions option" where
  "display_dimensions a = Option.bind (an_display a) dd_dimensions"

text \<open>The size of the hash set of a list is the length of the list without its duplicates.\<close>

definition validate :: "answer \<Rightarrow> string + unit" where
  "validate a =
     (if an_send_indexes a = [] then Inl ''no streams accepted''
      else if length (an_send_indexes a) \<noteq> length (an_sync_sources a) then
        Inl (''sendIndexes length ('' @ show_nat (length (an_send_indexes a)) @
             '') != sync_sources length ('' @ show_nat (length (an_sync_sources a)) @ '')'')
      else if (case an_rtp_extensions a of None \<Rightarrow> False
                 | Some e \<Rightarrow> length e \<noteq> length (an_send_indexes a)) then
        Inl (''rtpExtensions length ('' @ show_nat (case_option 0 length (an_rtp_extensions a)) @
             '') != sendIndexes length ('' @ show_nat (length (an_send_indexes a)) @ '')'')
      else if an_udp_port a = 0 then Inl ''udpPort is 0''
      else if 0 \<in> set (an_sync_sources a) then Inl ''receiver SSRC must not be zero''
      else if length (remdups (an_send_indexes a)) \<noteq> length (an_send_indexes a) then
        Inl ''sendIndexes contains a duplicate stream''
      else if length (remdups (an_sync_sources a)) \<noteq> length (an_sync_sources a) then
        Inl ''ssrcs contains a duplicate receiver SSRC''
      else if case_option False zero_dimension (max_dimensions a) then
        Inl ''video maxDimensions contains a zero dimension''
      else if case_option False zero_dimension (display_dimensions a) then
        Inl ''display dimensions contains a zero dimension''
      else Inr ())"

definition valid_answer :: "answer \<Rightarrow> bool" where
  "valid_answer a \<longleftrightarrow>
     an_send_indexes a \<noteq> [] \<and> length (an_sync_sources a) = length (an_send_indexes a) \<and>
     (\<forall>e. an_rtp_extensions a = Some e \<longrightarrow> length e = length (an_send_indexes a)) \<and>
     an_udp_port a \<noteq> 0 \<and> 0 \<notin> set (an_sync_sources a) \<and>
     distinct (an_send_indexes a) \<and> distinct (an_sync_sources a) \<and>
     (\<forall>m. max_dimensions a = Some m \<longrightarrow> \<not> zero_dimension m) \<and>
     (\<forall>m. display_dimensions a = Some m \<longrightarrow> \<not> zero_dimension m)"

lemma length_remdups_iff: "length (remdups xs) = length xs \<longleftrightarrow> distinct xs"
  by (metis distinct_card length_remdups_card_conv card_distinct)

lemma validate_iff: "validate a = Inr () \<longleftrightarrow> valid_answer a"
  unfolding validate_def valid_answer_def length_remdups_iff
  by (auto split: option.splits)

end
