(* ===== verification/Negotiation.thy ===== *)
theory Negotiation
  imports Offer Answer Event_Loop_Correct
begin

text \<open>
  The start of a sending session from an OFFER and an ANSWER, and the operations of the session
  and of its stream handles (\<open>src/sender/mod.rs\<close>). The session sends commands to the sender loop
  and waits for the reply; an operation here is the request it makes and what it returns for a
  reply, \<open>None\<close> standing for a closed channel. The random initial RTP sequence number of the
  k-th accepted stream is \<open>seqs k\<close>.
\<close>

record sender_session =
  ss_has_audio :: bool
  ss_has_video :: bool
  ss_supports_adaptive_playout_delay :: bool

fun media_address :: "socket_addr \<Rightarrow> u16 \<Rightarrow> socket_addr" where
  "media_address (V4 ip _) port = V4 ip port"
| "media_address (V6 ip _ flow scope) port = V6 ip port flow scope"

fun is_ipv6 :: "socket_addr \<Rightarrow> bool" where
  "is_ipv6 (V4 _ _) = False"
| "is_ipv6 (V6 _ _ _ _) = True"

definition ok_or_else :: "'a option \<Rightarrow> string \<Rightarrow> ('a, error) result" where
  "ok_or_else x message =
     (case x of None \<Rightarrow> Inl (Err (NegotiationFailed message)) | Some a \<Rightarrow> Inr a)"

definition offers_adaptive_delay :: "answer \<Rightarrow> nat \<Rightarrow> bool" where
  "offers_adaptive_delay ans k =
     (case an_rtp_extensions ans of
        None \<Rightarrow> False
      | Some exts \<Rightarrow>
          k < length exts \<and> list_ex (\<lambda>e. e = ADAPTIVE_PLAYOUT_DELAY_EXTENSION) (exts ! k))"

definition accept_stream ::
  "offer \<Rightarrow> answer \<Rightarrow> nat \<Rightarrow> (nat \<Rightarrow> u16) \<Rightarrow> nat \<Rightarrow> nat \<Rightarrow> streams \<Rightarrow> (streams, error) result" where
  "accept_stream ofr ans mps seqs k i ss =
     bindR (ok_or_else (stream_sync_source ofr i)
              (''send_index '' @ show_nat i @ '' not found in offer'')) (\<lambda>ssrc.
     bindR (ok_or_else (stream_aes_key ofr i)
              (''stream '' @ show_nat i @ '' omitted its AES key'')) (\<lambda>key.
     bindR (ok_or_else (stream_aes_iv_mask ofr i)
              (''stream '' @ show_nat i @ '' omitted its AES IV mask'')) (\<lambda>mask.
     bindR (ok_or_else (stream_rtp_timebase ofr i)
              (''stream '' @ show_nat i @ '' omitted its RTP timebase'')) (\<lambda>timebase.
     bindR (ok_or_else (stream_rtp_payload_type ofr i)
              (''stream '' @ show_nat i @ '' omitted its RTP payload type'')) (\<lambda>pt.
     bindR (ok_or_else (stream_target_delay ofr i)
              (''stream '' @ show_nat i @ '' omitted its target delay'')) (\<lambda>delay.
     bindR (ok_or_else (stream_type_at ofr i)
              (''send_index '' @ show_nat i @ '' not found in offer'')) (\<lambda>ty.
     bindR (indexR (an_sync_sources ans) k) (\<lambda>rssrc.
       if rssrc = ssrc then
         Inl (Err (NegotiationFailed
           (''stream '' @ show_nat i @ '' uses the same sender and receiver SSRC'')))
       else
         let s = stream_new (seqs k)
               \<lparr>sp_sender_sync_source = ssrc, sp_receiver_sync_source = rssrc,
                sp_rtp_payload_type = pt, sp_rtp_timebase = timebase,
                sp_target_playout_delay = delay,
                sp_adaptive_playout_delay = offers_adaptive_delay ans k,
                sp_aes_key = key, sp_aes_iv_mask = mask, sp_max_packet_size = mps\<rparr>
         in if get_stream ty ss \<noteq> None then
              Inl (Err (NegotiationFailed (''receiver accepted more than one '' @
                (case ty of Audio \<Rightarrow> ''audio'' | Video \<Rightarrow> ''video'') @ '' stream'')))
            else Inr (put_stream ty s ss)))))))))"

fun accept_streams ::
  "offer \<Rightarrow> answer \<Rightarrow> nat \<Rightarrow> (nat \<Rightarrow> u16) \<Rightarrow> nat \<Rightarrow> nat list \<Rightarrow> streams \<Rightarrow> (streams, error) result" where
  "accept_streams ofr ans mps seqs k [] ss = Inr ss"
| "accept_streams ofr ans mps seqs k (i # is) ss =
     bindR (accept_stream ofr ans mps seqs k i ss) (accept_streams ofr ans mps seqs (k + 1) is)"

definition start_address ::
  "(nat \<Rightarrow> u16) \<Rightarrow> offer \<Rightarrow> answer \<Rightarrow> socket_addr \<Rightarrow>
     (sender_session \<times> socket_addr \<times> streams, error) result" where
  "start_address seqs ofr ans endpoint =
     bindR (case validate ans of Inl e \<Rightarrow> Inl (Err (NegotiationFailed e)) | Inr u \<Rightarrow> Inr u) (\<lambda>_.
     let remote = media_address endpoint (an_udp_port ans);
         mps = (if is_ipv6 remote then MAX_RTP_PACKET_SIZE_IPV6 else MAX_RTP_PACKET_SIZE_IPV4)
     in bindR (accept_streams ofr ans mps seqs 0 (an_send_indexes ans) (None, None)) (\<lambda>ss.
          if fst ss = None \<and> snd ss = None then Inl (Err NoAcceptedStreams)
          else Inr (\<lparr>ss_has_audio = fst ss \<noteq> None, ss_has_video = snd ss \<noteq> None,
                     ss_supports_adaptive_playout_delay =
                       list_all adaptive_playout_delay
                         (case_option [] (\<lambda>s. [s]) (fst ss) @ case_option [] (\<lambda>s. [s]) (snd ss))\<rparr>,
                    remote, ss)))"

datatype ip_addr = IpV4 u32 | IpV6 "128 word"

fun socket_addr_new :: "ip_addr \<Rightarrow> u16 \<Rightarrow> socket_addr" where
  "socket_addr_new (IpV4 ip) port = V4 ip port"
| "socket_addr_new (IpV6 ip) port = V6 ip port 0 0"

definition start ::
  "(nat \<Rightarrow> u16) \<Rightarrow> offer \<Rightarrow> answer \<Rightarrow> ip_addr \<Rightarrow>
     (sender_session \<times> socket_addr \<times> streams, error) result" where
  "start seqs ofr ans ip = start_address seqs ofr ans (socket_addr_new ip (an_udp_port ans))"

subsection \<open>The operations of a session\<close>

definition session_audio :: "sender_session \<Rightarrow> stream_type option" where
  "session_audio sess = (if ss_has_audio sess then Some Audio else None)"

definition session_video :: "sender_session \<Rightarrow> stream_type option" where
  "session_video sess = (if ss_has_video sess then Some Video else None)"

definition valid_playout_delay :: "duration \<Rightarrow> bool" where
  "valid_playout_delay delay =
     (let milliseconds = as_millis delay
      in 1 \<le> milliseconds \<and> milliseconds \<le> 2 ^ 16 - 1 \<and> delay = from_millis milliseconds)"

definition request_playout_delay ::
  "sender_session \<Rightarrow> duration \<Rightarrow> playout_delay_error + stream_command" where
  "request_playout_delay sess delay =
     (if \<not> valid_playout_delay delay then Inl InvalidDelay
      else if \<not> ss_supports_adaptive_playout_delay sess then Inl Unsupported
      else Inr (SetTargetPlayoutDelay delay))"

fun playout_delay_result :: "command_reply option \<Rightarrow> playout_delay_error + unit" where
  "playout_delay_result (Some (DelayReply r)) = r"
| "playout_delay_result _ = Inl DelaySessionClosed"

fun statistics_result :: "command_reply option \<Rightarrow> sender_error + session_statistics_record" where
  "statistics_result (Some (StatisticsReply r)) = Inr r"
| "statistics_result _ = Inl SessionClosed"

text \<open>\<open>StreamHandle::send\<close> asks for \<open>EnqueueFrame\<close>.\<close>

definition send_request :: "stream_type \<Rightarrow> encoded_frame \<Rightarrow> stream_command" where
  "send_request handle frame = EnqueueFrame handle frame"

fun send_result :: "command_reply option \<Rightarrow> enqueue_error + frame_id" where
  "send_result (Some (FrameReply r)) = r"
| "send_result _ = Inl EnqueueSessionClosed"

text \<open>\<open>shutdown\<close> waits for the task: \<open>None\<close> is a task that panicked or was cancelled.\<close>

definition shutdown_result :: "string \<Rightarrow> (sender_error + unit) option \<Rightarrow> sender_error + unit" where
  "shutdown_result message task =
     (case task of None \<Rightarrow> Inl (TaskFailed message) | Some r \<Rightarrow> r)"

subsection \<open>Which streams a session starts with\<close>

definition negotiated_parameters :: "answer \<Rightarrow> nat \<Rightarrow> nat \<Rightarrow> stream_offer \<Rightarrow> stream_parameters" where
  "negotiated_parameters ans mps k so =
     \<lparr>sp_sender_sync_source = so_sync_source so, sp_receiver_sync_source = an_sync_sources ans ! k,
      sp_rtp_payload_type = so_rtp_payload_type so, sp_rtp_timebase = so_rtp_timebase so,
      sp_target_playout_delay = so_target_delay so,
      sp_adaptive_playout_delay = offers_adaptive_delay ans k,
      sp_aes_key = so_aes_key so, sp_aes_iv_mask = so_aes_iv_mask so, sp_max_packet_size = mps\<rparr>"

abbreviation offer_type :: "stream_offer \<Rightarrow> stream_type" where
  "offer_type so \<equiv> offered_type (so_stream_type so)"

text \<open>\<open>accepted\<close> is when the answer and the offer agree on the streams \<open>sos\<close>.\<close>

definition accepted :: "offer \<Rightarrow> answer \<Rightarrow> stream_offer list \<Rightarrow> bool" where
  "accepted ofr ans sos \<longleftrightarrow>
     valid_answer ans \<and> map (find_offered ofr) (an_send_indexes ans) = map Some sos \<and>
     (\<forall>k<length sos. an_sync_sources ans ! k \<noteq> so_sync_source (sos ! k)) \<and>
     distinct (map offer_type sos)"

fun join_streams ::
  "answer \<Rightarrow> nat \<Rightarrow> (nat \<Rightarrow> u16) \<Rightarrow> nat \<Rightarrow> stream_offer list \<Rightarrow> streams \<Rightarrow> streams" where
  "join_streams ans mps seqs k [] ss = ss"
| "join_streams ans mps seqs k (so # sos) ss =
     join_streams ans mps seqs (k + 1) sos
       (put_stream (offer_type so) (stream_new (seqs k) (negotiated_parameters ans mps k so)) ss)"

fun joinable :: "answer \<Rightarrow> nat \<Rightarrow> stream_offer list \<Rightarrow> streams \<Rightarrow> bool" where
  "joinable ans k [] ss \<longleftrightarrow> True"
| "joinable ans k (so # sos) ss \<longleftrightarrow>
     an_sync_sources ans ! k \<noteq> so_sync_source so \<and> get_stream (offer_type so) ss = None \<and>
     offer_type so \<notin> offer_type ` set sos \<and> joinable ans (k + 1) sos ss"

lemmas offer_accessors = stream_sync_source_def stream_aes_key_def stream_aes_iv_mask_def
  stream_rtp_timebase_def stream_rtp_payload_type_def stream_target_delay_def stream_type_at_def

lemma accept_stream_Inr:
  assumes "k < length (an_sync_sources ans)"
  shows "accept_stream ofr ans mps seqs k i ss = Inr ss' \<longleftrightarrow>
    (\<exists>so. find_offered ofr i = Some so \<and> an_sync_sources ans ! k \<noteq> so_sync_source so \<and>
       get_stream (offer_type so) ss = None \<and>
       ss' = put_stream (offer_type so) (stream_new (seqs k) (negotiated_parameters ans mps k so)) ss)"
  using assms
  by (cases "find_offered ofr i")
    (auto simp: accept_stream_def offer_accessors ok_or_else_def negotiated_parameters_def Let_def)

lemma no_panic_accept_stream:
  assumes "k < length (an_sync_sources ans)"
  shows "no_panic (accept_stream ofr ans mps seqs k i ss)"
  using assms
  by (cases "find_offered ofr i")
    (auto simp: accept_stream_def offer_accessors ok_or_else_def no_panic_def Let_def)

lemma joinable_put:
  "ty \<notin> offer_type ` set sos \<Longrightarrow> joinable ans k sos (put_stream ty s ss) = joinable ans k sos ss"
  by (induction sos arbitrary: k) (auto simp: get_put_stream)

lemma joinable_types: "joinable ans k sos ss \<Longrightarrow> so \<in> set sos \<Longrightarrow> get_stream (offer_type so) ss = None"
  by (induction sos arbitrary: k) auto

lemma joinable_put_type: "joinable ans k sos (put_stream ty s ss) \<Longrightarrow> ty \<notin> offer_type ` set sos"
  using joinable_types by (fastforce simp: get_put_stream)

lemma accept_streams_Inr:
  "k + length is \<le> length (an_sync_sources ans) \<Longrightarrow>
   accept_streams ofr ans mps seqs k is ss = Inr ss' \<longleftrightarrow>
    (\<exists>sos. map (find_offered ofr) is = map Some sos \<and> joinable ans k sos ss \<and>
       ss' = join_streams ans mps seqs k sos ss)"
proof (induction "is" arbitrary: k ss)
  case (Cons i "is")
  show ?case (is "?l \<longleftrightarrow> ?r")
  proof
    assume ?l
    with Cons.prems obtain so sos where so: "find_offered ofr i = Some so"
      "an_sync_sources ans ! k \<noteq> so_sync_source so" "get_stream (offer_type so) ss = None"
      "map (find_offered ofr) is = map Some sos"
      "joinable ans (k + 1) sos
         (put_stream (offer_type so) (stream_new (seqs k) (negotiated_parameters ans mps k so)) ss)"
      "ss' = join_streams ans mps seqs k (so # sos) ss"
      by (auto simp: bindR_eq_Inr_iff accept_stream_Inr Cons.IH)
    from joinable_put_type [OF so(5)] so show ?r
      by (intro exI [of _ "so # sos"]) (simp add: joinable_put)
  next
    assume ?r
    then obtain so sos where so: "find_offered ofr i = Some so"
      "map (find_offered ofr) is = map Some sos" "joinable ans k (so # sos) ss"
      "ss' = join_streams ans mps seqs k (so # sos) ss"
      by (auto simp: Cons_eq_map_conv)
    moreover have "accept_streams ofr ans mps seqs (k + 1) is
        (put_stream (offer_type so) (stream_new (seqs k) (negotiated_parameters ans mps k so)) ss) = Inr ss'"
      using Cons.prems so by (subst Cons.IH) (auto simp: joinable_put)
    ultimately show ?l
      using Cons.prems by (auto simp: bindR_eq_Inr_iff accept_stream_Inr)
  qed
qed auto

lemma no_panic_accept_streams:
  "k + length is \<le> length (an_sync_sources ans) \<Longrightarrow> no_panic (accept_streams ofr ans mps seqs k is ss)"
  by (induction "is" arbitrary: k ss) (auto intro!: no_panic_bindR no_panic_accept_stream)

lemma joinable_iff:
  "joinable ans k sos ss \<longleftrightarrow>
     (\<forall>j<length sos. an_sync_sources ans ! (k + j) \<noteq> so_sync_source (sos ! j)) \<and>
     distinct (map offer_type sos) \<and> (\<forall>so\<in>set sos. get_stream (offer_type so) ss = None)"
  by (induction sos arbitrary: k) (auto simp: All_less_Suc2)

lemma get_join_other:
  "ty \<notin> offer_type ` set sos \<Longrightarrow> get_stream ty (join_streams ans mps seqs k sos ss) = get_stream ty ss"
  by (induction sos arbitrary: k ss) (auto simp: get_put_stream)

lemma get_join:
  "distinct (map offer_type sos) \<Longrightarrow> j < length sos \<Longrightarrow>
   get_stream (offer_type (sos ! j)) (join_streams ans mps seqs k sos ss) =
     Some (stream_new (seqs (k + j)) (negotiated_parameters ans mps (k + j) (sos ! j)))"
proof (induction sos arbitrary: k ss j)
  case (Cons so sos)
  then show ?case
  proof (cases j)
    case 0
    with Cons.prems show ?thesis by (simp add: get_join_other get_put_stream)
  next
    case (Suc j')
    with Cons.prems Cons.IH [of j' "k + 1"] show ?thesis by simp
  qed
qed simp

definition session_of :: "streams \<Rightarrow> sender_session" where
  "session_of ss =
     \<lparr>ss_has_audio = get_stream Audio ss \<noteq> None, ss_has_video = get_stream Video ss \<noteq> None,
      ss_supports_adaptive_playout_delay =
        (\<forall>ty s. get_stream ty ss = Some s \<longrightarrow> adaptive_playout_delay s)\<rparr>"

definition packet_size_for :: "socket_addr \<Rightarrow> nat" where
  "packet_size_for a = (if is_ipv6 a then MAX_RTP_PACKET_SIZE_IPV6 else MAX_RTP_PACKET_SIZE_IPV4)"

lemma start_address_eq:
  assumes "validate ans = Inr ()"
  shows "start_address seqs ofr ans ep =
    bindR (accept_streams ofr ans (packet_size_for (media_address ep (an_udp_port ans))) seqs 0
             (an_send_indexes ans) (None, None))
      (\<lambda>ss. if \<forall>ty. get_stream ty ss = None then Inl (Err NoAcceptedStreams)
            else Inr (session_of ss, media_address ep (an_udp_port ans), ss))"
proof -
  have adaptive: "list_all adaptive_playout_delay
        (case_option [] (\<lambda>s. [s]) (fst x) @ case_option [] (\<lambda>s. [s]) (snd x)) \<longleftrightarrow>
      (\<forall>ty s. get_stream ty x = Some s \<longrightarrow> adaptive_playout_delay s)" for x
    by (auto simp: get_stream_def split: option.splits stream_type.splits)
  have none: "fst x = None \<and> snd x = None \<longleftrightarrow> (\<forall>ty. get_stream ty x = None)" for x :: streams
    by (auto simp: get_stream_def split: stream_type.splits)
  have streams: "get_stream Audio x = fst x" "get_stream Video x = snd x" for x
    by (simp_all add: get_stream_def)
  show ?thesis
    unfolding start_address_def session_of_def packet_size_for_def Let_def adaptive none streams
    using assms by simp
qed

lemma accept_streams_accepted:
  assumes "valid_answer ans"
  shows "accept_streams ofr ans mps seqs 0 (an_send_indexes ans) (None, None) = Inr ss \<longleftrightarrow>
    (\<exists>sos. accepted ofr ans sos \<and> ss = join_streams ans mps seqs 0 sos (None, None))"
proof -
  have "length (an_send_indexes ans) = length (an_sync_sources ans)"
    using assms by (simp add: valid_answer_def)
  moreover have "get_stream ty (None, None) = None" for ty
    by (simp add: get_stream_def split: stream_type.splits)
  ultimately show ?thesis using assms by (auto simp: accept_streams_Inr joinable_iff accepted_def)
qed

lemma accepted_nonempty:
  assumes "accepted ofr ans sos"
  shows "\<exists>ty. get_stream ty (join_streams ans mps seqs 0 sos (None, None)) \<noteq> None"
proof -
  have "0 < length sos" using assms by (cases sos) (auto simp: accepted_def valid_answer_def)
  then show ?thesis using assms get_join [of sos 0] by (metis accepted_def option.distinct(1))
qed

lemma start_address_Inr:
  "start_address seqs ofr ans ep = Inr (sess, remote, ss) \<longleftrightarrow>
     (\<exists>sos. accepted ofr ans sos \<and> remote = media_address ep (an_udp_port ans) \<and>
        ss = join_streams ans (packet_size_for remote) seqs 0 sos (None, None) \<and>
        sess = session_of ss)"
proof (cases "valid_answer ans")
  case True
  with validate_iff have valid: "validate ans = Inr ()" by blast
  let ?remote = "media_address ep (an_udp_port ans)"
  define J where "J sos = join_streams ans (packet_size_for ?remote) seqs 0 sos (None, None)" for sos
  have some: "(\<forall>ty. get_stream ty (J sos) = None) = False" if "accepted ofr ans sos" for sos
    using accepted_nonempty [OF that, of "packet_size_for ?remote" seqs] unfolding J_def by auto
  define K :: "streams \<Rightarrow> (sender_session \<times> socket_addr \<times> streams, error) result"
    where "K ss = (if \<forall>ty. get_stream ty ss = None then Inl (Err NoAcceptedStreams)
                   else Inr (session_of ss, ?remote, ss))" for ss
  have K: "K (J sos) = Inr (session_of (J sos), ?remote, J sos)" if "accepted ofr ans sos" for sos
    using some [OF that] by (simp add: K_def)
  have "start_address seqs ofr ans ep = Inr (sess, remote, ss) \<longleftrightarrow>
      (\<exists>x. (\<exists>sos. accepted ofr ans sos \<and> x = J sos) \<and> K x = Inr (sess, remote, ss))"
    unfolding start_address_eq [OF valid] bindR_eq_Inr_iff accept_streams_accepted [OF True]
      J_def [symmetric] K_def [symmetric] ..
  also have "\<dots> \<longleftrightarrow>
      (\<exists>sos. accepted ofr ans sos \<and> (session_of (J sos), ?remote, J sos) = (sess, remote, ss))"
    using K by (metis Inr_inject)
  finally have "start_address seqs ofr ans ep = Inr (sess, remote, ss) \<longleftrightarrow>
      (\<exists>sos. accepted ofr ans sos \<and> (session_of (J sos), ?remote, J sos) = (sess, remote, ss))" .
  then show ?thesis unfolding J_def by auto
next
  case False
  then obtain e where "validate ans = Inl e"
    using validate_iff [of ans] by (cases "validate ans") auto
  with False show ?thesis by (simp add: start_address_def accepted_def)
qed

lemma no_panic_start_address: "no_panic (start_address seqs ofr ans ep)"
proof (cases "validate ans")
  case (Inr u)
  then have "length (an_send_indexes ans) \<le> length (an_sync_sources ans)"
    using validate_iff [of ans] by (simp add: valid_answer_def)
  then show ?thesis
    by (auto simp: start_address_def Let_def Inr intro!: no_panic_bindR no_panic_accept_streams)
qed (simp add: start_address_def)

text \<open>
  C11. A session starts exactly when the answer is valid and agrees with the offer: every accepted
  index is offered, no receiver source equals the sender source of its stream, and at most one
  audio and one video stream are accepted. It then holds, for every accepted stream, a fresh
  stream state with the offered keys, sources, clock, delay and payload type and the receiver's
  source and extension of that position, and no other stream; it never panics.
\<close>

theorem start_outcome:
  "case start_address seqs ofr ans ep of
     Inl Panic \<Rightarrow> False
   | Inl (Err e) \<Rightarrow> \<not> (\<exists>sos. accepted ofr ans sos)
   | Inr (sess, remote, ss) \<Rightarrow>
       remote = media_address ep (an_udp_port ans) \<and> sess = session_of ss \<and>
       (\<exists>sos. accepted ofr ans sos \<and>
         (\<forall>k<length sos. get_stream (offer_type (sos ! k)) ss =
            Some (stream_new (seqs k) (negotiated_parameters ans (packet_size_for remote) k (sos ! k)))) \<and>
         (\<forall>ty. ty \<notin> offer_type ` set sos \<longrightarrow> get_stream ty ss = None))"
proof (cases "start_address seqs ofr ans ep")
  case (Inl x)
  then have "x \<noteq> Panic" using no_panic_start_address [of seqs ofr ans ep] by (auto simp: no_panic_def)
  moreover have "start_address seqs ofr ans ep \<noteq> Inl x" if "accepted ofr ans sos" for sos
    using that start_address_Inr [of seqs ofr ans ep] by (metis sum.distinct(1))
  ultimately show ?thesis using Inl by (cases x) auto
next
  case (Inr y)
  obtain sess remote ss where y: "y = (sess, remote, ss)" by (cases y)
  with Inr obtain sos where sos: "accepted ofr ans sos" "remote = media_address ep (an_udp_port ans)"
    "sess = session_of ss" "ss = join_streams ans (packet_size_for remote) seqs 0 sos (None, None)"
    by (auto simp: start_address_Inr)
  moreover have "get_stream ty (None, None) = None" for ty
    by (simp add: get_stream_def split: stream_type.splits)
  ultimately show ?thesis
    using get_join [of sos _ ans "packet_size_for remote" seqs 0] get_join_other [of _ sos] Inr y
    by (auto simp: accepted_def intro!: exI [of _ sos])
qed

definition example_answer :: answer where
  "example_answer =
     \<lparr>an_udp_port = 2344, an_send_indexes = [0, 1], an_sync_sources = [7, 8],
      an_constraints = None, an_display = None,
      an_rtp_extensions = Some [[''adaptive_playout_delay''], [''adaptive_playout_delay'']]\<rparr>"

lemma example_accepted: "accepted example_offer example_answer (of_streams example_offer)"
  by (simp add: accepted_def valid_answer_def example_answer_def example_offer_def find_offered_def
      audio_offer_def video_offer_def max_dimensions_def display_dimensions_def less_Suc_eq
      generate_audio_def generate_video_def example_draws_def MINIMUM_AUDIO_SYNC_SOURCE_def
      MINIMUM_VIDEO_SYNC_SOURCE_def)

lemma example_start:
  "start_address (\<lambda>_. 7) example_offer example_answer (V4 1 8009) =
     Inr (session_of (join_streams example_answer MAX_RTP_PACKET_SIZE_IPV4 (\<lambda>_. 7) 0
            (of_streams example_offer) (None, None)), V4 1 2344,
          join_streams example_answer MAX_RTP_PACKET_SIZE_IPV4 (\<lambda>_. 7) 0
            (of_streams example_offer) (None, None))"
  unfolding start_address_Inr using example_accepted
  by (auto simp: packet_size_for_def example_answer_def intro!: exI [of _ "of_streams example_offer"])

theorem start_outcome_witness:
  "accepted example_offer example_answer (of_streams example_offer) \<and>
   (\<exists>sess ss. start_address (\<lambda>_. 7) example_offer example_answer (V4 1 8009) = Inr (sess, V4 1 2344, ss) \<and>
      sess = session_of ss)"
  using start_outcome [where seqs = "\<lambda>_. 7" and ofr = example_offer and ans = example_answer
      and ep = "V4 1 8009"] example_accepted
  by (auto simp: example_start)

subsection \<open>The receiver and the sender agree\<close>

lemma started_stream:
  assumes "start_address seqs ofr ans ep = Inr (sess, remote, ss)" and "get_stream ty ss = Some s"
  obtains k so where "k < length (an_send_indexes ans)"
    and "find_offered ofr (an_send_indexes ans ! k) = Some so" and "offer_type so = ty"
    and "s = stream_new (seqs k) (negotiated_parameters ans (packet_size_for remote) k so)"
proof -
  obtain sos where sos: "accepted ofr ans sos"
    "ss = join_streams ans (packet_size_for remote) seqs 0 sos (None, None)"
    using assms(1) by (auto simp: start_address_Inr)
  have "get_stream ty (None, None) = None" by (simp add: get_stream_def split: stream_type.splits)
  then have "ty \<in> offer_type ` set sos"
    using assms(2) get_join_other [of ty sos] sos(2) by fastforce
  then obtain k where k: "k < length sos" "offer_type (sos ! k) = ty" by (auto simp: in_set_conv_nth)
  have s: "s = stream_new (seqs k) (negotiated_parameters ans (packet_size_for remote) k (sos ! k))"
    using get_join [of sos k ans _ seqs 0 "(None, None)"] sos k assms(2) by (auto simp: accepted_def)
  have found: "map (find_offered ofr) (an_send_indexes ans) = map Some sos"
    using sos(1) by (simp add: accepted_def)
  from arg_cong [OF found, of length] k(1) have len: "k < length (an_send_indexes ans)" by simp
  moreover from arg_cong [OF found, of "\<lambda>xs. xs ! k"] len k(1)
  have "find_offered ofr (an_send_indexes ans ! k) = Some (sos ! k)" by simp
  ultimately show thesis using that k(2) s by blast
qed

text \<open>
  Sender and receiver agree on a started stream: what the receiver reads from the JSON of the
  offer at the index it accepted is the stream's type, AES key and IV mask, synchronisation
  source, clock rate, payload type and target delay, and the source the stream expects feedback
  from is the one the receiver answered at the same position.
\<close>

theorem session_agrees_with_offer:
  assumes "build d b = Inr ofr" and "length (of_streams ofr) \<le> 2 ^ 64"
    and "start_address seqs ofr ans ep = Inr (sess, remote, ss)" and "get_stream ty ss = Some s"
  shows "\<exists>k rs r. k < length (an_send_indexes ans) \<and>
    read_offer (offer_serialize ofr) = Some rs \<and> an_send_indexes ans ! k < length rs \<and>
    r = rs ! (an_send_indexes ans ! k) \<and>
    rs_type r = (case ty of Audio \<Rightarrow> ''audio_source'' | Video \<Rightarrow> ''video_source'') \<and>
    crypto s = frame_crypto_new (rs_key r) (rs_iv_mask r) \<and>
    rs_sync_source r = unat (sender_sync_source s) \<and> rs_timebase r = rtp_timebase s \<and>
    rs_payload_type r = unat (rp_payload_type (packetizer s)) \<and>
    rs_target_delay r = target_playout_delay s \<and>
    receiver_sync_source s = an_sync_sources ans ! k"
proof -
  obtain k so where k: "k < length (an_send_indexes ans)"
    "find_offered ofr (an_send_indexes ans ! k) = Some so" "offer_type so = ty"
    "s = stream_new (seqs k) (negotiated_parameters ans (packet_size_for remote) k so)"
    using started_stream [OF assms(3, 4)] .
  then have so: "an_send_indexes ans ! k < length (of_streams ofr)"
    "of_streams ofr ! (an_send_indexes ans ! k) = so"
    using find_offered_built [OF assms(1)] by (auto split: if_splits)
  have "rs_type (received so) = (case ty of Audio \<Rightarrow> ''audio_source'' | Video \<Rightarrow> ''video_source'')"
    unfolding k(3) [symmetric] by (cases "so_stream_type so") (simp_all add: received_def)
  then show ?thesis
    using k so read_built_offer [OF assms(1, 2)]
    by (intro exI [of _ k] exI [of _ "map received (of_streams ofr)"] exI [of _ "received so"])
      (simp add: received_def stream_new_def negotiated_parameters_def rtp_packetizer_new_def)
qed

theorem session_agrees_with_offer_witness:
  "\<exists>s. get_stream Video (join_streams example_answer MAX_RTP_PACKET_SIZE_IPV4 (\<lambda>_. 7) 0
         (of_streams example_offer) (None, None)) = Some s \<and> receiver_sync_source s \<in> {7, 8}"
proof -
  obtain s where s: "get_stream Video (join_streams example_answer MAX_RTP_PACKET_SIZE_IPV4 (\<lambda>_. 7) 0
         (of_streams example_offer) (None, None)) = Some s"
    by (simp add: example_offer_def audio_offer_def video_offer_def get_stream_def put_stream_def)
  have "length (of_streams example_offer) \<le> 2 ^ 64" by (simp add: example_offer_def)
  from session_agrees_with_offer [OF example_build this example_start s] s show ?thesis
    by (auto simp: example_answer_def less_Suc_eq)
qed

lemma negotiated_sources [simp]:
  "sender_sync_source (stream_new q (negotiated_parameters ans m k so)) = so_sync_source so"
  "receiver_sync_source (stream_new q (negotiated_parameters ans m k so)) = an_sync_sources ans ! k"
  by (simp_all add: stream_new_def negotiated_parameters_def)

lemma started_receivers_distinct:
  assumes "start_address seqs ofr ans ep = Inr (sess, remote, ss)"
    and "get_stream Audio ss = Some s1" and "get_stream Video ss = Some s2"
  shows "receiver_sync_source s1 \<noteq> receiver_sync_source s2"
proof -
  obtain k1 so1 where 1: "k1 < length (an_send_indexes ans)"
    "find_offered ofr (an_send_indexes ans ! k1) = Some so1" "offer_type so1 = Audio"
    "receiver_sync_source s1 = an_sync_sources ans ! k1"
    using started_stream [OF assms(1, 2)] by (metis negotiated_sources(2))
  obtain k2 so2 where 2: "k2 < length (an_send_indexes ans)"
    "find_offered ofr (an_send_indexes ans ! k2) = Some so2" "offer_type so2 = Video"
    "receiver_sync_source s2 = an_sync_sources ans ! k2"
    using started_stream [OF assms(1, 3)] by (metis negotiated_sources(2))
  have "k1 \<noteq> k2" using 1 2 by auto
  moreover have "distinct (an_sync_sources ans)" "length (an_sync_sources ans) = length (an_send_indexes ans)"
    using assms(1) by (auto simp: start_address_Inr accepted_def valid_answer_def)
  ultimately show ?thesis using 1 2 by (simp add: nth_eq_iff_index_eq)
qed

lemma started_source_type:
  assumes "good_draws d" and "build d b = Inr ofr"
    and "start_address seqs ofr ans ep = Inr (sess, remote, ss)" and "get_stream ty ss = Some s"
  shows "is_audio (sender_sync_source s) = (ty = Audio)"
proof -
  obtain k so where k: "find_offered ofr (an_send_indexes ans ! k) = Some so" "offer_type so = ty"
    "sender_sync_source s = so_sync_source so"
    using started_stream [OF assms(3, 4)] by (metis negotiated_sources(1))
  then show ?thesis
    using built_sync_source [OF assms(1, 2) k(1)] by (cases "so_stream_type so") auto
qed

text \<open>
  In a started session feedback finds its stream: the two sender sources differ, and so do
  the two receiver sources, so that looking a stream up by its sender source, or by its receiver
  source, returns exactly that stream.
\<close>

theorem feedback_finds_stream:
  assumes "good_draws d" and "build d b = Inr ofr"
    and "start_address seqs ofr ans ep = Inr (sess, remote, ss)" and "get_stream ty ss = Some s"
  shows "find_stream_by_sender_sync_source (sender_sync_source s) ss = (ty, Some s) \<and>
    find_stream_by_receiver_sync_source (receiver_sync_source s) ss = Some ty"
  using assms(4) started_source_type [OF assms(1-3), of Audio] started_source_type [OF assms(1-3), of Video]
    started_receivers_distinct [OF assms(3)]
  by (cases ty)
    (auto simp: find_stream_by_sender_sync_source_def find_stream_by_receiver_sync_source_def
      get_stream_def split: option.splits)

theorem feedback_finds_stream_witness:
  "\<exists>s ss. get_stream Audio ss = Some s \<and>
     find_stream_by_sender_sync_source (sender_sync_source s) ss = (Audio, Some s)"
proof -
  let ?ss = "join_streams example_answer MAX_RTP_PACKET_SIZE_IPV4 (\<lambda>_. 7) 0
         (of_streams example_offer) (None, None)"
  obtain s where "get_stream Audio ?ss = Some s"
    by (simp add: example_offer_def audio_offer_def video_offer_def get_stream_def put_stream_def)
  with feedback_finds_stream [OF good_example_draws example_build example_start this] show ?thesis
    by blast
qed

subsection \<open>Changing the playout delay\<close>

lemma valid_playout_delay_iff: "valid_playout_delay d \<longleftrightarrow> whole_milliseconds (2 ^ 16) d"
proof -
  have "valid_playout_delay d \<longleftrightarrow> (\<exists>ms. ms = as_millis d \<and> 0 < ms \<and> ms < 2 ^ 16 \<and> d = from_millis ms)"
    by (auto simp: valid_playout_delay_def Let_def)
  then show ?thesis unfolding whole_milliseconds_def by (metis as_millis_from_millis)
qed

lemma delay_command_streams:
  assumes "delay_command ck delay st = (Running st', Some (DelayReply (Inr ())))"
  shows "streams st' = map_prod (map_option (\<lambda>s. set_stream_playout_delay s delay))
      (map_option (\<lambda>s. set_stream_playout_delay s delay)) (streams st)"
  using assms
  by (cases "streams st")
    (auto simp: delay_command_def set_target_playout_delay_def trigger_statistics_def Let_def
      split: if_splits prod.splits)

lemma announced_delay:
  assumes "stream_inv s" and "pending_playout_delay s = Some delay" and "valid_playout_delay delay"
    and "enqueue_frame ap s frame = (s', Inr i)"
  shows "\<exists>p ps ms. map qp_packet (send_queue s') = map qp_packet (send_queue s) @ p # ps \<and>
    rv_delay_ms (read_rtp p) = Some ms \<and> from_millis (unat ms) = delay \<and>
    (\<forall>q\<in>set ps. rv_delay_ms (read_rtp q) = None)"
proof -
  have m: "0 < max_payload_size (packetizer s)" using assms(1) by (simp add: stream_inv_def)
  have "accepts_frame s frame"
    using assms(4) enqueue_frame_rejects [of s frame ap] by (force simp: reject_frame_def)
  with m assms(4) have s': "s' = accepted_state ap s frame"
    using enqueue_frame_accepts enqueue_frame_overflows by (metis Inl_Inr_False fst_conv snd_conv)
  define data where "data = encrypt ap (crypto s) (next_frame_id s) (frame_data frame)"
  define n where "n = packet_count (packetizer s) data"
  define at where "at = packet_at (packetizer s) (frame_header s frame) data"
  have n: "0 < n" unfolding n_def using m by (rule packet_count_pos)
  have packets: "frame_packets ap s frame = at 0 # map at [1..<n]"
    using n by (simp add: frame_packets_def at_def n_def data_def Let_def upt_conv_Cons)
  have view: "rv_delay_ms (read_rtp (at i)) =
      (if i = 0 then Some (of_nat (as_millis delay)) else None)" if "i < n" for i
    using that assms(2)
    by (simp add: at_def n_def read_packet_at packet_view_def frame_header_def)
  have "from_millis (unat (of_nat (as_millis delay) :: u16)) = delay"
    using assms(3) by (auto simp: valid_playout_delay_iff whole_milliseconds_def unat_of_nat)
  then show ?thesis
    using view n by (intro exI [of _ "at 0"] exI [of _ "map at [1..<n]"]
        exI [of _ "of_nat (as_millis delay)"]) (simp add: s' packets comp_def)
qed

text \<open>
  A change of the playout delay reaches the receiver exactly: when the session accepts a
  delay and the loop confirms it, the next frame accepted on each stream carries that very delay,
  in whole milliseconds, in the extension of its first packet and of no other; the stream's
  target is the new delay and the announcement is not repeated.
\<close>

theorem playout_delay_announced:
  assumes "loop_reach ap net remote st"
    and "request_playout_delay sess delay = Inr command"
    and "command_arm ap net ck (Some command) st = (Running st', reply)"
    and "playout_delay_result reply = Inr ()"
    and "get_stream ty (streams st') = Some s" and "enqueue_frame ap s frame = (s', Inr i)"
  shows "\<exists>p ps ms. map qp_packet (send_queue s') = map qp_packet (send_queue s) @ p # ps \<and>
    rv_delay_ms (read_rtp p) = Some ms \<and> from_millis (unat ms) = delay \<and>
    (\<forall>q\<in>set ps. rv_delay_ms (read_rtp q) = None) \<and>
    target_playout_delay s = delay \<and> pending_playout_delay s' = None"
proof -
  have valid: "valid_playout_delay delay" and c: "command = SetTargetPlayoutDelay delay"
    using assms(2) by (auto simp: request_playout_delay_def split: if_splits)
  have "reply = Some (DelayReply (Inr ()))"
    using assms(4) by (cases reply rule: playout_delay_result.cases) auto
  with assms(3) c have st': "streams st' = map_prod (map_option (\<lambda>s. set_stream_playout_delay s delay))
      (map_option (\<lambda>s. set_stream_playout_delay s delay)) (streams st)"
    by (intro delay_command_streams [of ck]) (simp add: command_arm_def)
  then obtain s0 where s0: "get_stream ty (streams st) = Some s0" "s = set_stream_playout_delay s0 delay"
    using assms(5) by (cases ty) (auto simp: get_stream_def)
  have "stream_inv s0"
    using loop_inv_reach [OF assms(1)] s0(1) by (auto simp: loop_inv_def intro: streams_okD stream_inv_reach)
  then have inv: "stream_inv s"
    unfolding s0(2) using stream_inv_cong [of "set_stream_playout_delay s0 delay" s0]
    by (simp add: set_stream_playout_delay_def)
  have "pending_playout_delay s' = None"
    using assms(6)
    by (auto simp: enqueue_frame_def reject_frame_def queue_frame_def Let_def
        split: if_splits sum.splits option.splits prod.splits)
  then show ?thesis
    using announced_delay [OF inv _ valid assms(6)] by (simp add: s0(2) set_stream_playout_delay_def)
qed

definition example_session :: sender_session where
  "example_session =
     \<lparr>ss_has_audio = False, ss_has_video = True, ss_supports_adaptive_playout_delay = True\<rparr>"

theorem playout_delay_announced_witness:
  "\<exists>s' p ps ms. enqueue_frame xor_cipher
       (set_stream_playout_delay (stream_new 7 example_parameters) (from_millis 500)) example_frame = (s', Inr 0) \<and>
     map qp_packet (send_queue s') = p # ps \<and> rv_delay_ms (read_rtp p) = Some ms \<and>
     from_millis (unat ms) = from_millis 500"
proof -
  let ?s = "set_stream_playout_delay (stream_new 7 example_parameters) (from_millis 500)"
  obtain s' where e: "enqueue_frame xor_cipher ?s example_frame = (s', Inr 0)"
    using enqueue_frame_accepts [of ?s example_frame xor_cipher]
    by (simp add: set_stream_playout_delay_def stream_new_def accepts_frame_def example_frame_def
        rtp_packetizer_new_def example_parameters_def rtp_sizes frame_id_first_def in_flight_id_span_def
        frame_id_as_usize_def MAX_UNACKED_FRAMES_def)
  have r: "request_playout_delay example_session (from_millis 500) = Inr (SetTargetPlayoutDelay (from_millis 500))"
    by (simp add: request_playout_delay_def valid_playout_delay_def example_session_def)
  obtain st' where c: "command_arm xor_cipher example_net example_clock
      (Some (SetTargetPlayoutDelay (from_millis 500))) example_loop = (Running st', Some (DelayReply (Inr ())))"
    and st': "get_stream Video (streams st') = Some ?s"
    by (simp add: command_arm_def delay_command_def Let_def set_target_playout_delay_def example_loop_def
        loop_start_def stream_new_def example_parameters_def trigger_statistics_def get_stream_def)
  have "send_queue ?s = []" by (simp add: set_stream_playout_delay_def stream_new_def)
  with playout_delay_announced [OF example_loop_reach r c _ st' e] e show ?thesis by auto
qed

end
