(* ===== verification/Byte_Source.thy ===== *)
theory Byte_Source
  imports Prelude
begin

text \<open>
  A byte stream as an asynchronous reader sees it. What has arrived is a list of chunks, of the
  end of the stream and of failures; a read takes bytes of the first chunk only, waits when
  nothing has arrived, and leaves what it did not take. A call that waits can be cancelled and
  repeated later: it left its progress in the reader's own state. The locale \<open>frame_reader\<close> is
  what a length-prefixed reader promises about one call; from it follows that every message
  comes out once and in order, however the stream is cut into chunks and calls are cancelled.
\<close>

datatype io_fault = UnexpectedEof string | InvalidData string | OtherIo string

datatype arrival = Chunk bytes | Eof | ReadFailed io_fault

datatype read_result = Blocked | Got bytes "arrival list" | ReadError io_fault

fun read_some :: "nat \<Rightarrow> arrival list \<Rightarrow> read_result" where
  "read_some n [] = Blocked"
| "read_some n (Chunk c # src) =
     (if c = [] then read_some n src
      else Got (take n c) (if drop n c = [] then src else Chunk (drop n c) # src))"
| "read_some n (Eof # src) = Got [] (Eof # src)"
| "read_some n (ReadFailed e # src) = ReadError e"

text \<open>What a call to a reader does: it waits, or it ends with an error or a value.\<close>

datatype 'm read_outcome = Waiting | Failed io_fault | Panicking | Read 'm

definition chunks :: "arrival list \<Rightarrow> bool" where
  "chunks src \<longleftrightarrow> (\<forall>a\<in>set src. \<exists>c. a = Chunk c)"

fun stream :: "arrival list \<Rightarrow> bytes" where
  "stream [] = []"
| "stream (Chunk c # src) = c @ stream src"
| "stream (_ # src) = stream src"

lemma chunks_simps [simp]:
  "chunks []" "chunks (Chunk c # src) = chunks src" "chunks (xs @ ys) \<longleftrightarrow> chunks xs \<and> chunks ys"
  "\<not> chunks (Eof # src)" "\<not> chunks (ReadFailed e # src)"
  by (auto simp: chunks_def)

lemma stream_append [simp]: "stream (xs @ ys) = stream xs @ stream ys"
  by (induction xs rule: stream.induct) auto

lemma read_some_chunks:
  "chunks src \<Longrightarrow> 0 < n \<Longrightarrow>
     (case read_some n src of
        Blocked \<Rightarrow> stream src = []
      | Got bs src' \<Rightarrow> bs \<noteq> [] \<and> length bs \<le> n \<and> chunks src' \<and> stream src = bs @ stream src'
      | ReadError e \<Rightarrow> False)"
  by (induction n src rule: read_some.induct) (auto split: read_result.splits)

subsection \<open>Filling a buffer\<close>

text \<open>
  The loop that both framed readers use: read into the part of a buffer from \<open>filled\<close> to
  \<open>limit\<close> until it is full. The slice of the buffer panics when the buffer is too short.
\<close>

datatype fill_status = Full | Wait | Closed | Broken io_fault | OutOfRange

definition blit :: "bytes \<Rightarrow> nat \<Rightarrow> bytes \<Rightarrow> bytes" where
  "blit buf off bs = take off buf @ bs @ drop (off + length bs) buf"

function fill :: "nat \<Rightarrow> bytes \<Rightarrow> nat \<Rightarrow> arrival list \<Rightarrow> bytes \<times> nat \<times> arrival list \<times> fill_status" where
  "fill limit buf filled src =
     (if filled < limit then
        if length buf < limit then (buf, filled, src, OutOfRange)
        else case read_some (limit - filled) src of
               Blocked \<Rightarrow> (buf, filled, [], Wait)
             | ReadError e \<Rightarrow> (buf, filled, src, Broken e)
             | Got bs src' \<Rightarrow>
                 if bs = [] then (buf, filled, src', Closed)
                 else fill limit (blit buf filled bs) (filled + length bs) src'
      else (buf, filled, src, Full))"
  by pat_completeness auto

termination
  by (relation "measure (\<lambda>(limit, _, filled, _). limit - filled)") (auto simp: neq_Nil_conv)

declare fill.simps [simp del]

lemma length_blit [simp]: "off + length bs \<le> length buf \<Longrightarrow> length (blit buf off bs) = length buf"
  by (simp add: blit_def)

lemma take_blit: "off + length bs \<le> length buf \<Longrightarrow> take (off + length bs) (blit buf off bs) = take off buf @ bs"
  by (simp add: blit_def)

text \<open>With only chunks arriving, a fill takes exactly what it needs, or takes everything and waits.\<close>

lemma fill_chunks:
  assumes "chunks src" and "filled \<le> limit" and "limit \<le> length buf"
  shows "\<exists>buf' new src' status. fill limit buf filled src = (buf', filled + length new, src', status) \<and>
    length buf' = length buf \<and> chunks src' \<and> stream src = new @ stream src' \<and>
    take (filled + length new) buf' = take filled buf @ new \<and>
    (if limit \<le> filled + length (stream src) then status = Full \<and> filled + length new = limit
     else status = Wait \<and> stream src' = [])"
  using assms
proof (induction limit buf filled src rule: fill.induct)
  case (1 limit buf filled src)
  show ?case
  proof (cases "filled < limit")
    case False
    with 1 show ?thesis by (subst fill.simps) (auto intro!: exI [of _ "[]"])
  next
    case True
    then have n: "0 < limit - filled" by simp
    note rs = read_some_chunks [OF 1(2) n]
    show ?thesis
    proof (cases "read_some (limit - filled) src")
      case Blocked
      with True rs 1(4) show ?thesis by (subst fill.simps) (auto intro!: exI [of _ "[]"])
    next
      case (ReadError e)
      with rs show ?thesis by simp
    next
      case (Got bs src1)
      with rs have bs: "bs \<noteq> []" "length bs \<le> limit - filled" "chunks src1" "stream src = bs @ stream src1"
        by auto
      let ?buf = "blit buf filled bs" and ?filled = "filled + length bs"
      have len: "length ?buf = length buf" using bs(2) True 1(4) by simp
      obtain buf' new src' status where ih: "fill limit ?buf ?filled src1 = (buf', ?filled + length new, src', status)"
        "length buf' = length ?buf" "chunks src'" "stream src1 = new @ stream src'"
        "take (?filled + length new) buf' = take ?filled ?buf @ new"
        "if limit \<le> ?filled + length (stream src1) then status = Full \<and> ?filled + length new = limit
         else status = Wait \<and> stream src' = []"
        using 1(1) [OF True _ Got bs(1)] bs 1(4) True len by fastforce
      have "fill limit buf filled src = (buf', filled + length (bs @ new), src', status)"
        using ih(1) True 1(4) Got bs(1) by (subst fill.simps) (simp add: add.assoc)
      moreover have "take ?filled ?buf = take filled buf @ bs" using bs(2) True 1(4) by (intro take_blit) simp
      ultimately show ?thesis
        using ih bs(4) len by (intro exI [of _ buf'] exI [of _ "bs @ new"] exI [of _ src'] exI [of _ status])
          (auto simp: add.assoc split: if_splits)
    qed
  qed
qed

subsection \<open>Reading all messages\<close>

text \<open>
  \<open>serves rd s src batches ms\<close>: a loop that calls the reader in state \<open>s\<close> with \<open>src\<close>
  arrived, while the \<open>batches\<close> arrive whenever it waits, gets the messages \<open>ms\<close>.
\<close>

inductive serves ::
  "('s \<Rightarrow> arrival list \<Rightarrow> 's \<times> arrival list \<times> 'm read_outcome) \<Rightarrow>
     's \<Rightarrow> arrival list \<Rightarrow> arrival list list \<Rightarrow> 'm list \<Rightarrow> bool"
  for rd where
  serves_end: "rd s src = (s', src', Waiting) \<Longrightarrow> serves rd s src [] []"
| serves_wait: "rd s src = (s', src', Waiting) \<Longrightarrow> serves rd s' (src' @ batch) batches ms \<Longrightarrow>
    serves rd s src (batch # batches) ms"
| serves_message: "rd s src = (s', src', Read m) \<Longrightarrow> serves rd s' src' batches ms \<Longrightarrow>
    serves rd s src batches (m # ms)"

locale frame_reader =
  fixes rd :: "'s \<Rightarrow> arrival list \<Rightarrow> 's \<times> arrival list \<times> 'm read_outcome"
    and frame :: "'m \<Rightarrow> bytes"
    and fits :: "'m \<Rightarrow> bool"
    and holds :: "'s \<Rightarrow> bytes \<Rightarrow> bool"
  assumes complete: "holds s got \<Longrightarrow> fits m \<Longrightarrow> chunks src \<Longrightarrow> got @ stream src = frame m @ rest \<Longrightarrow>
      length got < length (frame m) \<Longrightarrow>
      \<exists>s' src'. rd s src = (s', src', Read m) \<and> holds s' [] \<and> chunks src' \<and> stream src' = rest"
    and incomplete: "holds s got \<Longrightarrow> fits m \<Longrightarrow> chunks src \<Longrightarrow> got @ stream src @ more = frame m \<Longrightarrow>
      more \<noteq> [] \<Longrightarrow>
      \<exists>s' src'. rd s src = (s', src', Waiting) \<and> holds s' (got @ stream src) \<and> chunks src' \<and> stream src' = []"
    and idle: "holds s [] \<Longrightarrow> chunks src \<Longrightarrow> stream src = [] \<Longrightarrow>
      \<exists>s' src'. rd s src = (s', src', Waiting) \<and> holds s' [] \<and> chunks src' \<and> stream src' = []"
    and frame_neq_Nil: "fits m \<Longrightarrow> frame m \<noteq> []"
begin

lemma serves_idle:
  assumes "holds s []" and "chunks src" and "stream src = []"
    and "list_all chunks batches" and "concat (map stream batches) = []"
  shows "serves rd s src batches []"
  using assms
proof (induction batches arbitrary: s src)
  case Nil
  then show ?case using idle by (meson serves_end)
next
  case (Cons b bs)
  from idle [OF Cons.prems(1-3)] obtain s' src' where "rd s src = (s', src', Waiting)"
    "holds s' []" "chunks src'" "stream src' = []" by blast
  with Cons.IH [of s' "src' @ b"] Cons.prems(4, 5) show ?case by (intro serves_wait) auto
qed

text \<open>The progress measure: the messages still to come, then the batches still to come.\<close>

lemma serves_all:
  assumes "holds s got" and "list_all fits ms" and "chunks src" and "list_all chunks batches"
    and "got @ stream src @ concat (map stream batches) = concat (map frame ms)"
    and "ms \<noteq> [] \<longrightarrow> length got < length (frame (hd ms))" and "ms = [] \<longrightarrow> got = []"
  shows "serves rd s src batches ms"
  using assms
proof (induction "length ms + length batches" arbitrary: s got src batches ms rule: less_induct)
  case less
  show ?case
  proof (cases ms)
    case Nil
    with less.prems show ?thesis by (auto intro: serves_idle)
  next
    case (Cons m ms')
    let ?tail = "concat (map stream batches)"
    have fits: "fits m" and total: "(got @ stream src) @ ?tail = frame m @ concat (map frame ms')"
      and short: "length got < length (frame m)" using less.prems Cons by auto
    show ?thesis
    proof (cases "length (frame m) \<le> length (got @ stream src)")
      case True
      then obtain rest where rest: "got @ stream src = frame m @ rest"
        using total by (metis append_eq_append_conv_if append_eq_conv_conj)
      obtain s' src' where rd: "rd s src = (s', src', Read m)" and *: "holds s' []" "chunks src'" "stream src' = rest"
        using complete [OF less.prems(1) fits less.prems(3) rest short] by blast
      have "rest @ ?tail = concat (map frame ms')" using total rest by simp
      with * less.prems(2, 4) Cons have "serves rd s' src' batches ms'"
        by (intro less.hyps [where got = "[]"]) (auto simp: frame_neq_Nil list_all_iff hd_in_set)
      with rd Cons show ?thesis by (simp add: serves_message)
    next
      case False
      then obtain more where more: "got @ stream src @ more = frame m" "more \<noteq> []"
        "?tail = more @ concat (map frame ms')"
        using total by (auto simp: append_eq_append_conv2 dest: sym)
      then obtain b bs where b: "batches = b # bs" by (cases batches) auto
      obtain s' src' where rd: "rd s src = (s', src', Waiting)"
        and *: "holds s' (got @ stream src)" "chunks src'" "stream src' = []"
        using incomplete [OF less.prems(1) fits less.prems(3) more(1, 2)] by blast
      have "serves rd s' (src' @ b) bs ms"
        using * less.prems(2, 4) total b Cons False
        by (intro less.hyps [where got = "got @ stream src"]) auto
      with rd b show ?thesis by (simp add: serves_wait)
    qed
  qed
qed

end

end
