(* ===== verification/Wire.thy ===== *)
theory Wire
  imports Text
begin

text \<open>
  The parts of the protocol-buffer wire format that the crate implements itself
  (\<open>src/control/proto.rs\<close>): variable-length integers, length-delimited fields and strings, and
  the skipping of unknown fields. A Rust \<open>String\<close> is the list of its UTF-8 bytes, each as a
  character. A decoder reads at a position and returns the value and the next position; the
  locale \<open>prefix_codec\<close> is the contract of such a decoder with its encoder.
\<close>

subsection \<open>UTF-8\<close>

definition as_bytes :: "string \<Rightarrow> bytes" where
  "as_bytes s = map (\<lambda>c. of_nat (of_char c)) s"

definition continuation :: "u8 \<Rightarrow> bool" where
  "continuation b \<longleftrightarrow> 0x80 \<le> b \<and> b \<le> 0xBF"

text \<open>The first byte of a sequence fixes its length and the range of the second byte.\<close>

fun valid_utf8 :: "bytes \<Rightarrow> bool" where
  "valid_utf8 [] = True"
| "valid_utf8 (a # bs) =
     (if a < 0x80 then valid_utf8 bs
      else case bs of
        [] \<Rightarrow> False
      | b # cs \<Rightarrow>
          if 0xC2 \<le> a \<and> a \<le> 0xDF then continuation b \<and> valid_utf8 cs
          else (case cs of
            [] \<Rightarrow> False
          | c # ds \<Rightarrow>
              if 0xE0 \<le> a \<and> a \<le> 0xEF
              then continuation b \<and> (a = 0xE0 \<longrightarrow> 0xA0 \<le> b) \<and> (a = 0xED \<longrightarrow> b \<le> 0x9F) \<and>
                   continuation c \<and> valid_utf8 ds
              else (case ds of
                [] \<Rightarrow> False
              | d # es \<Rightarrow>
                  0xF0 \<le> a \<and> a \<le> 0xF4 \<and> continuation b \<and> (a = 0xF0 \<longrightarrow> 0x90 \<le> b) \<and>
                  (a = 0xF4 \<longrightarrow> b \<le> 0x8F) \<and> continuation c \<and> continuation d \<and> valid_utf8 es)))"

definition from_utf8 :: "bytes \<Rightarrow> string option" where
  "from_utf8 bs = (if valid_utf8 bs then Some (map (\<lambda>b. char_of (unat b)) bs) else None)"

definition utf8_string :: "string \<Rightarrow> bool" where
  "utf8_string s \<longleftrightarrow> valid_utf8 (as_bytes s)"

lemma length_as_bytes [simp]: "length (as_bytes s) = length s"
  by (simp add: as_bytes_def)

lemma as_bytes_append [simp]: "as_bytes (s @ t) = as_bytes s @ as_bytes t"
  by (simp add: as_bytes_def)

lemma char_byte [simp]: "char_of (unat (of_nat (of_char c) :: u8)) = c"
  by (simp add: unat_of_nat)

lemma from_utf8_as_bytes [simp]: "utf8_string s \<Longrightarrow> from_utf8 (as_bytes s) = Some s"
  by (simp add: from_utf8_def utf8_string_def) (simp add: as_bytes_def comp_def)

lemma as_bytes_from_utf8: "from_utf8 bs = Some s \<Longrightarrow> as_bytes s = bs \<and> utf8_string s"
proof -
  assume a: "from_utf8 bs = Some s"
  have "of_nat (of_char (char_of (unat b))) = b" for b :: u8
    using unat_lt [of b] by (simp add: of_char_of)
  with a have "as_bytes s = bs" by (auto simp: from_utf8_def as_bytes_def comp_def split: if_splits)
  with a show ?thesis by (auto simp: from_utf8_def utf8_string_def split: if_splits)
qed

subsection \<open>Variable-length integers\<close>

datatype decode_error = Truncated | InvalidVarint | InvalidUtf8 | UnknownWireType u8
  | MissingField string

fun decode_error_display :: "decode_error \<Rightarrow> string" where
  "decode_error_display Truncated = ''truncated protobuf''"
| "decode_error_display InvalidVarint = ''invalid varint''"
| "decode_error_display InvalidUtf8 = ''invalid UTF-8 in string field''"
| "decode_error_display (UnknownWireType wt) = ''unknown wire type '' @ show_nat (unat wt)"
| "decode_error_display (MissingField name) = ''missing required field: '' @ name"

lemma drop_bit_7_less: "\<not> v < 0x80 \<Longrightarrow> unat (drop_bit 7 (v :: u64)) < unat v"
  by (auto simp: drop_bit_eq_div unat_div word_less_nat_alt not_less)

function encode_varint :: "u64 \<Rightarrow> bytes" where
  "encode_varint value =
     (if value < 0x80 then [ucast value]
      else ((ucast value AND 0x7F) OR 0x80) # encode_varint (drop_bit 7 value))"
  by pat_completeness auto

termination
  by (relation "measure unat") (auto dest: drop_bit_7_less)

declare encode_varint.simps [simp del]

function decode_varint_loop ::
  "bytes \<Rightarrow> nat \<Rightarrow> u64 \<Rightarrow> nat \<Rightarrow> (u64 \<times> nat, decode_error) result" where
  "decode_varint_loop data pos value shift =
     (if length data \<le> pos then Inl (Err Truncated)
      else
        let byte = data ! pos
        in if shift = 63 \<and> 1 < byte then Inl (Err InvalidVarint)
           else
             let value' = value OR push_bit shift (ucast (byte AND 0x7F))
             in if byte AND 0x80 = 0 then Inr (value', pos + 1)
                else if 64 \<le> shift + 7 then Inl (Err InvalidVarint)
                else decode_varint_loop data (pos + 1) value' (shift + 7))"
  by pat_completeness auto

termination
  by (relation "measure (\<lambda>(data, pos, _). length data - pos)") auto

declare decode_varint_loop.simps [simp del]

definition decode_varint :: "bytes \<Rightarrow> nat \<Rightarrow> (u64 \<times> nat, decode_error) result" where
  "decode_varint data pos = decode_varint_loop data pos 0 0"

definition decode_bytes :: "bytes \<Rightarrow> nat \<Rightarrow> (bytes \<times> nat, decode_error) result" where
  "decode_bytes data pos =
     bindR (decode_varint data pos) (\<lambda>(len, pos1).
       if 2 ^ 64 \<le> pos1 + unat len then Inl (Err Truncated)
       else case get_range data pos1 (pos1 + unat len) of
              None \<Rightarrow> Inl (Err Truncated)
            | Some bs \<Rightarrow> Inr (bs, pos1 + unat len))"

definition skip_bytes :: "bytes \<Rightarrow> nat \<Rightarrow> nat \<Rightarrow> (nat, decode_error) result" where
  "skip_bytes data pos len =
     (if 2 ^ 64 \<le> pos + len then Inl (Err Truncated)
      else if length data < pos + len then Inl (Err Truncated)
      else Inr (pos + len))"

definition decode_string :: "bytes \<Rightarrow> nat \<Rightarrow> (string \<times> nat, decode_error) result" where
  "decode_string data pos =
     bindR (decode_bytes data pos) (\<lambda>(bs, pos1).
       case from_utf8 bs of None \<Rightarrow> Inl (Err InvalidUtf8) | Some s \<Rightarrow> Inr (s, pos1))"

definition encode_varint_field :: "u32 \<Rightarrow> u64 \<Rightarrow> bytes" where
  "encode_varint_field field value = encode_varint (push_bit 3 (ucast field)) @ encode_varint value"

definition encode_bytes_field :: "u32 \<Rightarrow> bytes \<Rightarrow> bytes" where
  "encode_bytes_field field data =
     encode_varint (push_bit 3 (ucast field) OR 2) @ encode_varint (of_nat (length data)) @ data"

definition encode_string_field :: "u32 \<Rightarrow> string \<Rightarrow> bytes" where
  "encode_string_field field s = encode_bytes_field field (as_bytes s)"

subsection \<open>Decoders that undo their encoders\<close>

text \<open>
  A codec writes values and reads them back wherever they stand in a larger buffer, stopping at
  their end. From this, encodings are prefix free.
\<close>

locale prefix_codec =
  fixes enc :: "'a \<Rightarrow> bytes"
    and dec :: "bytes \<Rightarrow> nat \<Rightarrow> ('a \<times> nat, 'e) result"
    and fits :: "'a \<Rightarrow> bool"
  assumes dec_enc: "fits a \<Longrightarrow> length xs + length (enc a) + length ys < 2 ^ 64 \<Longrightarrow>
    dec (xs @ enc a @ ys) (length xs) = Inr (a, length xs + length (enc a))"
begin

lemma dec_at:
  assumes "fits a" and "drop pos data = enc a @ ys" and "pos \<le> length data" and "length data < 2 ^ 64"
  shows "dec data pos = Inr (a, pos + length (enc a))"
proof -
  have data: "take pos data @ enc a @ ys = data"
    using append_take_drop_id [of pos data] unfolding assms(2) .
  from arg_cong [OF this, of length]
  have "length (take pos data) + length (enc a) + length ys = length data" by simp
  with assms(4) have "dec (take pos data @ enc a @ ys) (length (take pos data))
      = Inr (a, length (take pos data) + length (enc a))"
    by (intro dec_enc [OF assms(1)]) simp
  moreover have "length (take pos data) = pos" using assms(3) by simp
  ultimately show ?thesis unfolding data by (simp only:)
qed

lemma prefix_free:
  assumes "fits a" "fits b" and "enc a @ ys = enc b @ zs" and "length (enc a @ ys) < 2 ^ 64"
  shows "a = b \<and> ys = zs"
proof -
  have "dec (enc a @ ys) 0 = Inr (a, length (enc a))"
    using dec_enc [OF assms(1), of "[]" ys] assms(4) by simp
  moreover have "dec (enc b @ zs) 0 = Inr (b, length (enc b))"
    using dec_enc [OF assms(2), of "[]" zs] assms(3, 4) by (metis add.left_neutral append_Nil length_append list.size(3))
  ultimately show ?thesis using assms(3) by simp
qed

end

text \<open>The contracts of the varint and of the length-delimited decoders.\<close>

lemma seven_bits: "(0x7F :: 'a :: len word) = mask 7"
  by (simp add: mask_eq_exp_minus_1)

lemma bit_high: "bit (0x80 :: int) n \<longleftrightarrow> n = 7"
proof -
  have "(0x80 :: int) = push_bit 7 1" by simp
  then show ?thesis by (simp only: bit_push_bit_iff bit_1_iff) auto
qed

lemma varint_low_bits: "ucast ((ucast v :: u8) AND 0x7F) = take_bit 7 (v :: u64)"
  unfolding seven_bits by (rule bit_word_eqI) (auto simp: bit_simps)

lemma varint_small: "v < 0x80 \<Longrightarrow> take_bit 7 v = (v :: u64)"
  by (simp add: take_bit_eq_mod word_unat_eq_iff unat_mod word_less_nat_alt)

lemma varint_high_byte:
  fixes v :: u64
  shows "ucast ((((ucast v :: u8) AND 0x7F) OR 0x80) AND 0x7F) = take_bit 7 v"
    and "(((ucast v :: u8) AND 0x7F) OR 0x80) AND 0x80 \<noteq> 0"
proof -
  show "ucast ((((ucast v :: u8) AND 0x7F) OR 0x80) AND 0x7F) = take_bit 7 v"
    unfolding seven_bits by (rule bit_word_eqI) (auto simp: bit_simps bit_high)
  have "bit ((((ucast v :: u8) AND 0x7F) OR 0x80) AND 0x80) 7"
    unfolding seven_bits by (simp add: bit_simps bit_high)
  then show "(((ucast v :: u8) AND 0x7F) OR 0x80) AND 0x80 \<noteq> 0" by force
qed

lemma varint_last_byte: "v < 0x80 \<Longrightarrow> (ucast (v :: u64) :: u8) AND 0x80 = 0"
proof -
  assume "v < 0x80"
  then have v: "take_bit 7 v = v" by (rule varint_small)
  have "\<not> bit v 7" using v by (metis bit_take_bit_iff less_irrefl)
  then show ?thesis by (intro bit_word_eqI) (auto simp: bit_simps bit_high)
qed

lemma varint_join:
  fixes v :: u64
  shows "(value OR push_bit shift (take_bit 7 v)) OR push_bit (shift + 7) (drop_bit 7 v)
    = value OR push_bit shift v"
proof -
  have "push_bit shift (take_bit 7 v) OR push_bit (shift + 7) (drop_bit 7 v)
      = push_bit shift (take_bit 7 v OR push_bit 7 (drop_bit 7 v))"
    by (simp add: push_bit_or push_bit_push_bit)
  also have "take_bit 7 v OR push_bit 7 (drop_bit 7 v) = v"
  proof (rule bit_word_eqI)
    fix n assume "n < LENGTH(64)"
    then show "bit (take_bit 7 v OR push_bit 7 (drop_bit 7 v)) n = bit v n"
      by (cases "n < 7") (auto simp: bit_simps)
  qed
  finally show ?thesis by (simp add: or.assoc)
qed

lemma decode_varint_loop_encode:
  assumes "unat v < 2 ^ (64 - shift)" and "shift \<le> 63"
  shows "decode_varint_loop (xs @ encode_varint v @ ys) (length xs) acc shift
    = Inr (acc OR push_bit shift v, length xs + length (encode_varint v))"
  using assms
proof (induction v arbitrary: xs acc shift rule: encode_varint.induct)
  case (1 v)
  show ?case
  proof (cases "v < 0x80")
    case True
    have "\<not> (shift = 63 \<and> 1 < (ucast v :: u8))"
      using 1(2) by (auto simp: word_less_nat_alt unat_ucast_down)
    with True show ?thesis
      by (simp add: encode_varint.simps [of v] decode_varint_loop.simps [of _ "length xs"] nth_append
          Let_def varint_last_byte varint_low_bits varint_small)
  next
    case False
    then have big: "2 ^ 7 \<le> unat v" by (simp add: word_less_nat_alt)
    then have "(2 :: nat) ^ 7 < 2 ^ (64 - shift)" using 1(2) by linarith
    then have "7 < 64 - shift" by (simp add: power_strict_increasing_iff del: power_numeral)
    then have shift: "shift < 57" by linarith
    have "unat v div 2 ^ 7 < 2 ^ (64 - (shift + 7))"
      using 1(2) shift by (simp add: div_less_iff_less_mult power_add [symmetric] del: power_numeral)
    then have less: "unat (drop_bit 7 v) < 2 ^ (64 - (shift + 7))"
      by (simp add: drop_bit_eq_div unat_div)
    let ?b = "((ucast v :: u8) AND 0x7F) OR 0x80"
    have "decode_varint_loop (xs @ encode_varint v @ ys) (length xs) acc shift =
        decode_varint_loop ((xs @ [?b]) @ encode_varint (drop_bit 7 v) @ ys) (length (xs @ [?b]))
          (acc OR push_bit shift (take_bit 7 v)) (shift + 7)"
      using False shift varint_high_byte [of v]
      by (simp add: encode_varint.simps [of v] decode_varint_loop.simps [of _ "length xs"] nth_append
          Let_def)
    also have "\<dots> = Inr (acc OR push_bit shift v, length xs + length (encode_varint v))"
      using 1(1) [OF False less, of "xs @ [?b]"] shift False
      by (simp add: varint_join encode_varint.simps [of v])
    finally show ?thesis .
  qed
qed

text \<open>
  The varint decoder as an automaton over the bytes that arrive, independent of where they are
  kept: it needs more bytes, is done and leaves the rest, or has overflowed.
\<close>

datatype varint_progress = More u64 nat | Done u64 bytes | Overflow

fun varint_run :: "u64 \<Rightarrow> nat \<Rightarrow> bytes \<Rightarrow> varint_progress" where
  "varint_run acc shift [] = More acc shift"
| "varint_run acc shift (b # bs) =
     (if shift = 63 \<and> 1 < b then Overflow
      else if b AND 0x80 = 0 then Done (acc OR push_bit shift (ucast (b AND 0x7F))) bs
      else if 64 \<le> shift + 7 then Overflow
      else varint_run (acc OR push_bit shift (ucast (b AND 0x7F))) (shift + 7) bs)"

lemma varint_run_append:
  "varint_run acc shift (xs @ ys) =
     (case varint_run acc shift xs of
        More a s \<Rightarrow> varint_run a s ys | Done v r \<Rightarrow> Done v (r @ ys) | Overflow \<Rightarrow> Overflow)"
  by (induction acc shift xs rule: varint_run.induct) auto

lemma decode_varint_loop_run:
  "pos \<le> length data \<Longrightarrow> decode_varint_loop data pos acc shift =
     (case varint_run acc shift (drop pos data) of
        More _ _ \<Rightarrow> Inl (Err Truncated)
      | Done v r \<Rightarrow> Inr (v, length data - length r)
      | Overflow \<Rightarrow> Inl (Err InvalidVarint))"
proof (induction data pos acc shift rule: decode_varint_loop.induct)
  case (1 data pos acc shift)
  show ?case
  proof (cases "pos < length data")
    case True
    then have "drop pos data = data ! pos # drop (Suc pos) data" by (simp add: Cons_nth_drop_Suc)
    then show ?thesis using True 1 by (subst decode_varint_loop.simps) (auto simp: Let_def)
  qed (use 1(2) in \<open>simp add: decode_varint_loop.simps\<close>)
qed

lemma varint_run_suffix: "varint_run acc shift bs = Done v r \<Longrightarrow> \<exists>xs. bs = xs @ r"
proof (induction acc shift bs rule: varint_run.induct)
  case (2 acc shift b bs)
  then show ?case by (auto split: if_splits intro: exI [of _ "b # _"] exI [of _ "[b]"])
qed simp

lemma varint_run_encode: "varint_run 0 0 (encode_varint v @ ys) = Done v ys"
proof -
  have "unat v < 2 ^ (64 - 0)" using unat_lt [of v] by simp
  from decode_varint_loop_encode [OF this, of "[]" ys 0]
  have *: "decode_varint_loop (encode_varint v @ ys) 0 0 0 = Inr (v, length (encode_varint v))" by simp
  then obtain r where r: "varint_run 0 0 (encode_varint v @ ys) = Done v r"
    "length (encode_varint v @ ys) - length r = length (encode_varint v)"
    by (auto simp: decode_varint_loop_run split: varint_progress.splits)
  from varint_run_suffix [OF r(1)] obtain xs where xs: "encode_varint v @ ys = xs @ r" by blast
  then have "length (encode_varint v @ ys) = length xs + length r" by simp
  with r(2) have "length xs = length (encode_varint v)" by simp
  with xs r(1) show ?thesis by simp
qed

lemma varint_run_prefix:
  assumes "encode_varint v = got @ rest" and "rest \<noteq> []"
  shows "\<exists>a s. varint_run 0 0 got = More a s"
  using varint_run_encode [of v "[]"] assms
  by (cases "varint_run 0 0 got") (simp_all add: varint_run_append)

lemma encode_varint_neq_Nil [simp]: "encode_varint v \<noteq> []"
  by (subst encode_varint.simps) simp

text \<open>The sources write the encoding loop in two shapes; both give the same bytes.\<close>

lemma drop_bit_7_shrinks: "drop_bit 7 v \<noteq> 0 \<Longrightarrow> unat (drop_bit 7 (v :: u64)) < unat v"
proof -
  assume "drop_bit 7 v \<noteq> 0"
  then have "\<not> v < 0x80"
    by (auto simp: drop_bit_eq_div word_unat_eq_iff unat_div word_less_nat_alt)
  then show ?thesis by (rule drop_bit_7_less)
qed

lemma varint_encoder_eq:
  assumes rec: "\<And>v. f v = (let byte = ucast (v AND 0x7f) :: u8; rest = drop_bit 7 (v :: u64)
      in if rest \<noteq> 0 then (byte OR 0x80) # f rest else [byte])"
  shows "f v = encode_varint v"
proof (induction v rule: encode_varint.induct)
  case (1 v)
  have small: "drop_bit 7 v = 0 \<longleftrightarrow> v < 0x80"
    by (auto simp: drop_bit_eq_div word_unat_eq_iff unat_div word_less_nat_alt)
  have seven: "ucast (v AND 0x7f) = (ucast v :: u8) AND 0x7F"
    unfolding seven_bits by (rule bit_word_eqI) (auto simp: bit_simps)
  show ?case
  proof (cases "v < 0x80")
    case True
    have "ucast (v AND 0x7f) = (ucast v :: u8)"
      using varint_small [OF True] by (simp add: seven_bits take_bit_eq_mask)
    with True small show ?thesis
      by (simp add: rec [of v] encode_varint.simps [of v] Let_def)
  next
    case False
    with small 1 seven show ?thesis
      by (simp add: rec [of v] encode_varint.simps [of v] Let_def)
  qed
qed

interpretation varint: prefix_codec encode_varint decode_varint "\<lambda>_. True"
proof
  fix v :: u64 and xs ys
  have "unat v < 2 ^ (64 - 0)" using unat_lt [of v] by simp
  from decode_varint_loop_encode [OF this, of xs ys 0]
  show "decode_varint (xs @ encode_varint v @ ys) (length xs) = Inr (v, length xs + length (encode_varint v))"
    by (simp add: decode_varint_def)
qed

definition delimited :: "bytes \<Rightarrow> bytes" where
  "delimited bs = encode_varint (of_nat (length bs)) @ bs"

interpretation delimited: prefix_codec delimited decode_bytes "\<lambda>_. True"
proof
  fix bs xs ys :: bytes
  assume len: "length xs + length (delimited bs) + length ys < 2 ^ 64"
  let ?data = "xs @ delimited bs @ ys" and ?h = "encode_varint (of_nat (length bs))"
  have n: "unat (of_nat (length bs) :: u64) = length bs"
    using len by (simp add: delimited_def unat_of_nat)
  have "drop (length xs) ?data = ?h @ bs @ ys" by (simp add: delimited_def)
  from varint.dec_at [OF TrueI this] len
  have "decode_varint ?data (length xs) = Inr (of_nat (length bs), length xs + length ?h)" by simp
  with n len show "decode_bytes ?data (length xs) = Inr (bs, length xs + length (delimited bs))"
    by (simp add: decode_bytes_def get_range_def delimited_def)
qed

interpretation utf8: prefix_codec "\<lambda>s. delimited (as_bytes s)" decode_string utf8_string
  by unfold_locales (simp add: decode_string_def delimited.dec_enc)

text \<open>A decoder that succeeds has moved forward and stayed inside the buffer; none panics.\<close>

lemma decode_varint_loop_bounds:
  "decode_varint_loop data pos acc shift = Inr (v, p) \<Longrightarrow> pos < p \<and> p \<le> length data"
proof (induction data pos acc shift rule: decode_varint_loop.induct)
  case (1 data pos acc shift)
  from 1(2) show ?case
    by (subst (asm) decode_varint_loop.simps)
      (auto simp: Let_def split: if_splits dest!: 1(1) [OF _ refl _ refl])
qed

lemma decode_varint_bounds: "decode_varint data pos = Inr (v, p) \<Longrightarrow> pos < p \<and> p \<le> length data"
  unfolding decode_varint_def by (rule decode_varint_loop_bounds)

lemma decode_bytes_bounds: "decode_bytes data pos = Inr (v, p) \<Longrightarrow> pos < p \<and> p \<le> length data"
  by (auto simp: decode_bytes_def bindR_eq_Inr_iff get_range_def split: if_splits
      dest!: decode_varint_bounds)

lemma decode_string_bounds: "decode_string data pos = Inr (v, p) \<Longrightarrow> pos < p \<and> p \<le> length data"
  by (auto simp: decode_string_def bindR_eq_Inr_iff split: option.splits dest!: decode_bytes_bounds)

lemma skip_bytes_bounds: "skip_bytes data pos n = Inr p \<Longrightarrow> p = pos + n \<and> p \<le> length data"
  by (auto simp: skip_bytes_def split: if_splits)

lemma no_panic_decode_varint_loop: "no_panic (decode_varint_loop data pos acc shift)"
proof (induction data pos acc shift rule: decode_varint_loop.induct)
  case (1 data pos acc shift)
  show ?case
    using 1 by (subst decode_varint_loop.simps) (auto simp: Let_def)
qed

lemma no_panic_decode_varint [no_panic_rules]: "no_panic (decode_varint data pos)"
  by (simp add: decode_varint_def no_panic_decode_varint_loop)

lemma no_panic_decode_bytes [no_panic_rules]: "no_panic (decode_bytes data pos)"
  by (auto simp: decode_bytes_def split: option.splits intro!: no_panic_rules)

lemma no_panic_decode_string [no_panic_rules]: "no_panic (decode_string data pos)"
  by (auto simp: decode_string_def split: option.splits intro!: no_panic_rules)

lemma no_panic_skip_bytes [no_panic_rules]: "no_panic (skip_bytes data pos n)"
  by (simp add: skip_bytes_def)

lemma bytes_field_eq: "encode_bytes_field f bs = encode_varint (push_bit 3 (ucast f) OR 2) @ delimited bs"
  by (simp add: encode_bytes_field_def delimited_def)

end
