(* ===== verification/Cast_Message.thy ===== *)
theory Cast_Message
  imports Wire
begin

text \<open>
  The Cast V2 message (\<open>src/control/proto.rs\<close>): its encoder and its decoder, with the decoding
  loop over fields in any order, the fields it skips and the errors it reports.
\<close>

datatype payload = PString string | PBinary bytes

record cast_message =
  source_id :: string
  destination_id :: string
  namespace :: string
  payload :: payload

definition encode_payload :: "payload \<Rightarrow> bytes" where
  "encode_payload p =
     (case p of
        PString s \<Rightarrow> encode_varint_field 5 0 @ encode_string_field 6 s
      | PBinary b \<Rightarrow> encode_varint_field 5 1 @ encode_bytes_field 7 b)"

definition encode_message :: "cast_message \<Rightarrow> bytes" where
  "encode_message m =
     encode_varint_field 1 0 @ encode_string_field 2 (source_id m) @
     encode_string_field 3 (destination_id m) @ encode_string_field 4 (namespace m) @
     encode_payload (payload m)"

text \<open>The local variables of the decoder.\<close>

record decode_fields =
  df_source_id :: "string option"
  df_destination_id :: "string option"
  df_namespace :: "string option"
  df_payload_type :: u32
  df_payload_utf8 :: "string option"
  df_payload_binary :: "bytes option"

definition no_fields :: decode_fields where
  "no_fields = \<lparr>df_source_id = None, df_destination_id = None, df_namespace = None,
     df_payload_type = 0, df_payload_utf8 = None, df_payload_binary = None\<rparr>"

definition decode_field :: "bytes \<Rightarrow> nat \<Rightarrow> decode_fields \<Rightarrow> (decode_fields \<times> nat, decode_error) result" where
  "decode_field data pos acc =
     bindR (decode_varint data pos) (\<lambda>(tag, pos1).
       let field_number = ucast (drop_bit 3 tag) :: u32;
           wire_type = ucast (tag AND 0x07) :: u8
       in if field_number = 1 \<and> wire_type = 0
          then bindR (decode_varint data pos1) (\<lambda>(_, p). Inr (acc, p))
          else if field_number = 2 \<and> wire_type = 2
          then bindR (decode_string data pos1) (\<lambda>(s, p). Inr (acc\<lparr>df_source_id := Some s\<rparr>, p))
          else if field_number = 3 \<and> wire_type = 2
          then bindR (decode_string data pos1) (\<lambda>(s, p). Inr (acc\<lparr>df_destination_id := Some s\<rparr>, p))
          else if field_number = 4 \<and> wire_type = 2
          then bindR (decode_string data pos1) (\<lambda>(s, p). Inr (acc\<lparr>df_namespace := Some s\<rparr>, p))
          else if field_number = 5 \<and> wire_type = 0
          then bindR (decode_varint data pos1) (\<lambda>(v, p). Inr (acc\<lparr>df_payload_type := ucast v\<rparr>, p))
          else if field_number = 6 \<and> wire_type = 2
          then bindR (decode_string data pos1) (\<lambda>(s, p). Inr (acc\<lparr>df_payload_utf8 := Some s\<rparr>, p))
          else if field_number = 7 \<and> wire_type = 2
          then bindR (decode_bytes data pos1) (\<lambda>(b, p). Inr (acc\<lparr>df_payload_binary := Some b\<rparr>, p))
          else if wire_type = 0 then bindR (decode_varint data pos1) (\<lambda>(_, p). Inr (acc, p))
          else if wire_type = 2 then bindR (decode_bytes data pos1) (\<lambda>(_, p). Inr (acc, p))
          else if wire_type = 5 then bindR (skip_bytes data pos1 4) (\<lambda>p. Inr (acc, p))
          else if wire_type = 1 then bindR (skip_bytes data pos1 8) (\<lambda>p. Inr (acc, p))
          else Inl (Err (UnknownWireType wire_type)))"

lemma decode_field_bounds:
  "decode_field data pos acc = Inr (acc', p) \<Longrightarrow> pos < p \<and> p \<le> length data"
  by (auto simp: decode_field_def bindR_eq_Inr_iff Let_def split: if_splits
      dest!: decode_varint_bounds decode_string_bounds decode_bytes_bounds skip_bytes_bounds)

function decode_loop :: "bytes \<Rightarrow> nat \<Rightarrow> decode_fields \<Rightarrow> (decode_fields, decode_error) result" where
  "decode_loop data pos acc =
     (if pos < length data
      then bindR (decode_field data pos acc) (\<lambda>(acc', p). decode_loop data p acc')
      else Inr acc)"
  by pat_completeness auto

termination
  by (relation "measure (\<lambda>(data, pos, _). length data - pos)") (auto dest: decode_field_bounds)

declare decode_loop.simps [simp del]

definition require :: "string \<Rightarrow> 'a option \<Rightarrow> ('a, decode_error) result" where
  "require name x = (case x of None \<Rightarrow> Inl (Err (MissingField name)) | Some a \<Rightarrow> Inr a)"

definition decode_message :: "bytes \<Rightarrow> (cast_message, decode_error) result" where
  "decode_message data =
     bindR (decode_loop data 0 no_fields) (\<lambda>f.
     let body = (if df_payload_type f = 1 then PBinary (case_option [] id (df_payload_binary f))
                 else PString (case_option [] id (df_payload_utf8 f)))
     in bindR (require ''source_id'' (df_source_id f)) (\<lambda>source.
        bindR (require ''destination_id'' (df_destination_id f)) (\<lambda>destination.
        bindR (require ''namespace'' (df_namespace f)) (\<lambda>ns.
          Inr \<lparr>source_id = source, destination_id = destination, namespace = ns, payload = body\<rparr>))))"

subsection \<open>The decoder undoes the encoder\<close>

text \<open>\<open>at data pos enc ys\<close>: the encoding \<open>enc\<close> stands at \<open>pos\<close>, followed by \<open>ys\<close>.\<close>

definition at :: "bytes \<Rightarrow> nat \<Rightarrow> bytes \<Rightarrow> bytes \<Rightarrow> bool" where
  "at data pos enc ys \<longleftrightarrow> drop pos data = enc @ ys \<and> pos \<le> length data \<and> length data < 2 ^ 64"

lemma at_append: "at data pos (a @ b) ys \<longleftrightarrow> at data pos a (b @ ys)"
  by (simp add: at_def)

lemma at_next: "at data pos a (b @ ys) \<Longrightarrow> at data (pos + length a) b ys"
proof -
  assume a: "at data pos a (b @ ys)"
  then have "drop (length a) (drop pos data) = b @ ys" by (simp add: at_def)
  moreover have "length (drop pos data) = length a + length (b @ ys)" using a by (simp add: at_def)
  then have "pos + length a \<le> length data" using a unfolding at_def length_drop by linarith
  ultimately show ?thesis using a by (simp add: at_def add.commute)
qed

lemma at_codecs:
  "at data pos (encode_varint v) ys \<Longrightarrow> decode_varint data pos = Inr (v, pos + length (encode_varint v))"
  "at data pos (delimited bs) ys \<Longrightarrow> decode_bytes data pos = Inr (bs, pos + length (delimited bs))"
  "at data pos (delimited (as_bytes s)) ys \<Longrightarrow> utf8_string s \<Longrightarrow>
     decode_string data pos = Inr (s, pos + length (delimited (as_bytes s)))"
  by (simp_all add: at_def varint.dec_at delimited.dec_at utf8.dec_at)

lemma decode_loop_field:
  assumes "at data pos (encode_varint tag @ enc) ys"
    and "decode_field data pos acc = Inr (acc', pos + length (encode_varint tag @ enc))"
  shows "decode_loop data pos acc = decode_loop data (pos + length (encode_varint tag @ enc)) acc'"
proof -
  have "drop pos data \<noteq> []" using assms(1) by (simp add: at_def)
  then have "pos < length data" by simp
  then show ?thesis using assms(2) by (simp add: decode_loop.simps [of data pos])
qed

lemma decode_loop_string:
  assumes "at data pos (encode_string_field f s) ys" and "utf8_string s"
  shows "f = 2 \<Longrightarrow> decode_loop data pos acc =
      decode_loop data (pos + length (encode_string_field f s)) (acc\<lparr>df_source_id := Some s\<rparr>)"
    and "f = 3 \<Longrightarrow> decode_loop data pos acc =
      decode_loop data (pos + length (encode_string_field f s)) (acc\<lparr>df_destination_id := Some s\<rparr>)"
    and "f = 4 \<Longrightarrow> decode_loop data pos acc =
      decode_loop data (pos + length (encode_string_field f s)) (acc\<lparr>df_namespace := Some s\<rparr>)"
    and "f = 6 \<Longrightarrow> decode_loop data pos acc =
      decode_loop data (pos + length (encode_string_field f s)) (acc\<lparr>df_payload_utf8 := Some s\<rparr>)"
proof -
  let ?tag = "push_bit 3 (ucast f) OR 2 :: u64"
  have e: "encode_string_field f s = encode_varint ?tag @ delimited (as_bytes s)"
    by (simp add: encode_string_field_def bytes_field_eq)
  have t: "decode_varint data pos = Inr (?tag, pos + length (encode_varint ?tag))"
    using assms(1) at_codecs(1) by (simp add: e at_append)
  have "at data (pos + length (encode_varint ?tag)) (delimited (as_bytes s)) ys"
    using assms(1) at_next by (simp add: e at_append)
  then have d: "decode_string data (pos + length (encode_varint ?tag)) =
      Inr (s, pos + length (encode_varint ?tag) + length (delimited (as_bytes s)))"
    using assms(2) by (rule at_codecs(3))
  have l: "length (encode_string_field f s) = length (encode_varint ?tag) + length (delimited (as_bytes s))"
    by (simp add: e)
  note * = decode_loop_field [OF assms(1) [unfolded e], of acc, folded e]
  show "f = 2 \<Longrightarrow> decode_loop data pos acc =
      decode_loop data (pos + length (encode_string_field f s)) (acc\<lparr>df_source_id := Some s\<rparr>)"
    and "f = 3 \<Longrightarrow> decode_loop data pos acc =
      decode_loop data (pos + length (encode_string_field f s)) (acc\<lparr>df_destination_id := Some s\<rparr>)"
    and "f = 4 \<Longrightarrow> decode_loop data pos acc =
      decode_loop data (pos + length (encode_string_field f s)) (acc\<lparr>df_namespace := Some s\<rparr>)"
    and "f = 6 \<Longrightarrow> decode_loop data pos acc =
      decode_loop data (pos + length (encode_string_field f s)) (acc\<lparr>df_payload_utf8 := Some s\<rparr>)"
    using t d l by (intro *; simp add: decode_field_def Let_def)+
qed

lemma decode_loop_varint:
  assumes "at data pos (encode_varint_field f v) ys"
  shows "f = 1 \<Longrightarrow> decode_loop data pos acc =
      decode_loop data (pos + length (encode_varint_field f v)) acc"
    and "f = 5 \<Longrightarrow> decode_loop data pos acc =
      decode_loop data (pos + length (encode_varint_field f v)) (acc\<lparr>df_payload_type := ucast v\<rparr>)"
proof -
  let ?tag = "push_bit 3 (ucast f) :: u64"
  have e: "encode_varint_field f v = encode_varint ?tag @ encode_varint v"
    by (simp add: encode_varint_field_def)
  have t: "decode_varint data pos = Inr (?tag, pos + length (encode_varint ?tag))"
    using assms at_codecs(1) by (simp add: e at_append)
  have "at data (pos + length (encode_varint ?tag)) (encode_varint v) ys"
    using assms at_next by (simp add: e at_append)
  then have d: "decode_varint data (pos + length (encode_varint ?tag)) =
      Inr (v, pos + length (encode_varint ?tag) + length (encode_varint v))"
    by (rule at_codecs(1))
  have l: "length (encode_varint_field f v) = length (encode_varint ?tag) + length (encode_varint v)"
    by (simp add: e)
  note * = decode_loop_field [OF assms [unfolded e], of acc, folded e]
  show "f = 1 \<Longrightarrow> decode_loop data pos acc =
      decode_loop data (pos + length (encode_varint_field f v)) acc"
    and "f = 5 \<Longrightarrow> decode_loop data pos acc =
      decode_loop data (pos + length (encode_varint_field f v)) (acc\<lparr>df_payload_type := ucast v\<rparr>)"
    using t d l by (intro *; simp add: decode_field_def Let_def)+
qed

text \<open>A length-delimited field is the binary payload, or is skipped when its number is unknown.\<close>

lemma delimited_tag:
  "ucast (drop_bit 3 (push_bit 3 (ucast f) OR 2 :: u64)) = (f :: u32)"
  "ucast ((push_bit 3 (ucast f) OR 2 :: u64) AND 0x07) = (2 :: u8)"
proof -
  have seven: "(0x07 :: u64) = mask 3" by (simp add: mask_eq_exp_minus_1)
  have two: "bit (2 :: int) n \<longleftrightarrow> n = 1" for n
    by (cases n) (auto simp: bit_Suc bit_1_iff)
  show "ucast (drop_bit 3 (push_bit 3 (ucast f) OR 2 :: u64)) = (f :: u32)"
    by (rule bit_word_eqI) (auto simp: bit_simps two)
  show "ucast ((push_bit 3 (ucast f) OR 2 :: u64) AND 0x07) = (2 :: u8)"
    unfolding seven by (rule bit_word_eqI) (auto simp: bit_simps two)
qed

lemma decode_loop_bytes:
  assumes "at data pos (encode_bytes_field f bs) ys"
  shows "f = 7 \<Longrightarrow> decode_loop data pos acc =
      decode_loop data (pos + length (encode_bytes_field f bs)) (acc\<lparr>df_payload_binary := Some bs\<rparr>)"
    and "f \<notin> {2, 3, 4, 6, 7} \<Longrightarrow> decode_loop data pos acc =
      decode_loop data (pos + length (encode_bytes_field f bs)) acc"
proof -
  define tag :: u64 where "tag = push_bit 3 (ucast f) OR 2"
  have e: "encode_bytes_field f bs = encode_varint tag @ delimited bs"
    by (simp add: bytes_field_eq tag_def)
  have t: "decode_varint data pos = Inr (tag, pos + length (encode_varint tag))"
    using assms at_codecs(1) by (simp add: e at_append)
  have "at data (pos + length (encode_varint tag)) (delimited bs) ys"
    using assms at_next by (simp add: e at_append)
  then have d: "decode_bytes data (pos + length (encode_varint tag)) =
      Inr (bs, pos + length (encode_varint tag) + length (delimited bs))"
    by (rule at_codecs(2))
  have l: "length (encode_bytes_field f bs) = length (encode_varint tag) + length (delimited bs)"
    by (simp add: e)
  have number: "ucast (drop_bit 3 tag) = f" "ucast (tag AND 0x07) = (2 :: u8)"
    unfolding tag_def by (rule delimited_tag)+
  note * = decode_loop_field [OF assms [unfolded e], of acc, folded e]
  show "f = 7 \<Longrightarrow> decode_loop data pos acc =
      decode_loop data (pos + length (encode_bytes_field f bs)) (acc\<lparr>df_payload_binary := Some bs\<rparr>)"
    using t d l number by (intro *) (simp add: decode_field_def Let_def)
  show "f \<notin> {2, 3, 4, 6, 7} \<Longrightarrow> decode_loop data pos acc =
      decode_loop data (pos + length (encode_bytes_field f bs)) acc"
    using t d l number by (intro *) (simp add: decode_field_def Let_def)
qed

definition valid_message :: "cast_message \<Rightarrow> bool" where
  "valid_message m \<longleftrightarrow>
     utf8_string (source_id m) \<and> utf8_string (destination_id m) \<and> utf8_string (namespace m) \<and>
     (case payload m of PString s \<Rightarrow> utf8_string s | PBinary b \<Rightarrow> True)"

lemma decode_loop_end: "at data pos [] [] \<Longrightarrow> decode_loop data pos acc = Inr acc"
  by (subst decode_loop.simps) (auto simp: at_def)

definition message_fields :: "cast_message \<Rightarrow> decode_fields" where
  "message_fields m =
     \<lparr>df_source_id = Some (source_id m), df_destination_id = Some (destination_id m),
      df_namespace = Some (namespace m),
      df_payload_type = (case payload m of PString s \<Rightarrow> 0 | PBinary b \<Rightarrow> 1),
      df_payload_utf8 = (case payload m of PString s \<Rightarrow> Some s | PBinary b \<Rightarrow> None),
      df_payload_binary = (case payload m of PString s \<Rightarrow> None | PBinary b \<Rightarrow> Some b)\<rparr>"

lemma decode_loop_message:
  assumes "valid_message m" and "at data pos (encode_message m) ys"
  shows "decode_loop data pos no_fields = decode_loop data (pos + length (encode_message m)) (message_fields m)"
proof -
  let ?e1 = "encode_varint_field 1 0" and ?e2 = "encode_string_field 2 (source_id m)"
    and ?e3 = "encode_string_field 3 (destination_id m)" and ?e4 = "encode_string_field 4 (namespace m)"
    and ?e5 = "encode_payload (payload m)"
  let ?p1 = "pos + length ?e1" let ?p2 = "?p1 + length ?e2" let ?p3 = "?p2 + length ?e3"
  let ?p4 = "?p3 + length ?e4"
  have a1: "at data pos ?e1 (?e2 @ ?e3 @ ?e4 @ ?e5 @ ys)"
    using assms(2) by (simp add: encode_message_def at_append)
  then have a2: "at data ?p1 ?e2 (?e3 @ ?e4 @ ?e5 @ ys)" by (rule at_next)
  then have a3: "at data ?p2 ?e3 (?e4 @ ?e5 @ ys)" by (rule at_next)
  then have a4: "at data ?p3 ?e4 (?e5 @ ys)" by (rule at_next)
  then have a5: "at data ?p4 ?e5 ys" by (rule at_next)
  have "decode_loop data pos no_fields = decode_loop data ?p4 (no_fields\<lparr>df_source_id := Some (source_id m),
      df_destination_id := Some (destination_id m), df_namespace := Some (namespace m)\<rparr>)"
    using decode_loop_varint(1) [OF a1 refl] decode_loop_string(1) [OF a2 _ refl]
      decode_loop_string(2) [OF a3 _ refl] decode_loop_string(3) [OF a4 _ refl] assms(1)
    by (simp add: valid_message_def)
  also have "\<dots> = decode_loop data (?p4 + length ?e5) (message_fields m)"
  proof (cases "payload m")
    case (PString s)
    have b1: "at data ?p4 (encode_varint_field 5 0) (encode_string_field 6 s @ ys)"
      using a5 PString by (simp add: encode_payload_def at_append)
    from at_next [OF b1] decode_loop_varint(2) [OF b1 refl] assms(1) PString show ?thesis
      by (simp add: decode_loop_string(4) valid_message_def encode_payload_def message_fields_def
          no_fields_def add.assoc)
  next
    case (PBinary b)
    have b1: "at data ?p4 (encode_varint_field 5 1) (encode_bytes_field 7 b @ ys)"
      using a5 PBinary by (simp add: encode_payload_def at_append)
    from at_next [OF b1] decode_loop_varint(2) [OF b1 refl] PBinary show ?thesis
      by (simp add: decode_loop_bytes(1) encode_payload_def message_fields_def no_fields_def add.assoc)
  qed
  finally show ?thesis by (simp add: encode_message_def add.assoc)
qed

lemma decode_message_fields:
  "decode_loop data 0 no_fields = Inr (message_fields m) \<Longrightarrow> decode_message data = Inr m"
  by (cases "payload m") (simp_all add: decode_message_def message_fields_def require_def)

lemma decode_encode_message:
  assumes "valid_message m" and "length (encode_message m) < 2 ^ 64"
  shows "decode_message (encode_message m) = Inr m"
proof -
  have "at (encode_message m) 0 (encode_message m) []" using assms(2) by (simp add: at_def)
  from decode_loop_message [OF assms(1) this] decode_loop_end [of "encode_message m" "length (encode_message m)"]
  show ?thesis using assms(2) by (intro decode_message_fields) (simp add: at_def)
qed

text \<open>
  Reading a Cast message back: decoding the encoding of a message with valid strings gives
  the message, also when the sender appended a field that this version does not know, which the
  decoder skips.
\<close>

theorem cast_message_roundtrip:
  assumes "valid_message m" and "length (encode_message m) + length (encode_bytes_field f extra) < 2 ^ 64"
    and "f \<notin> {2, 3, 4, 6, 7}"
  shows "decode_message (encode_message m) = Inr m \<and>
    decode_message (encode_message m @ encode_bytes_field f extra) = Inr m"
proof
  show "decode_message (encode_message m) = Inr m" using assms by (intro decode_encode_message) auto
  let ?data = "encode_message m @ encode_bytes_field f extra"
  have a1: "at ?data 0 (encode_message m) (encode_bytes_field f extra @ [])"
    using assms(2) by (simp add: at_def)
  note a2 = at_next [OF a1]
  have "at ?data (length ?data) [] []" using assms(2) by (simp add: at_def)
  with decode_loop_message [OF assms(1) a1] decode_loop_bytes(2) [OF a2 assms(3)]
  show "decode_message ?data = Inr m"
    by (intro decode_message_fields) (simp add: decode_loop_end)
qed

definition example_message :: cast_message where
  "example_message = \<lparr>source_id = ''sender-0'', destination_id = ''receiver-0'',
     namespace = ''urn:x-cast:com.google.cast.tp.heartbeat'', payload = PString ''{}''\<rparr>"

lemma example_message_valid: "valid_message example_message"
  by (simp add: valid_message_def example_message_def utf8_string_def as_bytes_def)

lemma length_example_message: "length (encode_message example_message) < 100"
  by (simp add: encode_message_def example_message_def encode_payload_def encode_varint_field_def
      encode_string_field_def encode_bytes_field_def encode_varint.simps)

theorem cast_message_roundtrip_witness:
  "valid_message example_message \<and> decode_message (encode_message example_message) = Inr example_message"
proof -
  have "length (encode_message example_message) + length (encode_bytes_field 8 [1, 2]) < 2 ^ 64"
    using length_example_message by (simp add: encode_bytes_field_def encode_varint.simps)
  from cast_message_roundtrip [OF example_message_valid this] show ?thesis
    using example_message_valid by simp
qed

subsection \<open>Any input\<close>

lemma decode_string_utf8: "decode_string data pos = Inr (s, p) \<Longrightarrow> utf8_string s"
  by (auto simp: decode_string_def bindR_eq_Inr_iff split: option.splits dest: as_bytes_from_utf8)

definition fields_ok :: "decode_fields \<Rightarrow> bool" where
  "fields_ok f \<longleftrightarrow>
     (\<forall>s. Some s \<in> {df_source_id f, df_destination_id f, df_namespace f, df_payload_utf8 f} \<longrightarrow> utf8_string s)"

lemma fields_ok_field: "fields_ok acc \<Longrightarrow> decode_field data pos acc = Inr (acc', p) \<Longrightarrow> fields_ok acc'"
  by (auto simp: decode_field_def bindR_eq_Inr_iff Let_def fields_ok_def split: if_splits
      dest: decode_string_utf8)

lemma no_panic_decode_field: "no_panic (decode_field data pos acc)"
  by (auto simp: decode_field_def Let_def intro!: no_panic_rules)

lemma decode_loop_ok:
  "fields_ok acc \<Longrightarrow> no_panic (decode_loop data pos acc) \<and>
     (\<forall>f. decode_loop data pos acc = Inr f \<longrightarrow> fields_ok f)"
proof (induction data pos acc rule: decode_loop.induct)
  case (1 data pos acc)
  show ?case
    using 1 no_panic_decode_field [of data pos acc] fields_ok_field [OF 1(2), of data pos]
    by (subst (1 2) decode_loop.simps) (auto simp: bindR_eq_Inr_iff intro!: no_panic_bindR)
qed

text \<open>
  Whatever bytes arrive, decoding a Cast message returns a message or one of the decoder's
  errors and never panics, and a decoded message has valid UTF-8 in all of its strings.
\<close>

theorem decode_message_total:
  "no_panic (decode_message data) \<and> (decode_message data = Inr m \<longrightarrow> valid_message m)"
proof -
  have ok: "fields_ok no_fields" by (simp add: fields_ok_def no_fields_def)
  note * = decode_loop_ok [OF ok, of data 0]
  have "no_panic (require n x)" for n and x :: "'a option"
    by (simp add: require_def split: option.splits)
  then have "no_panic (decode_message data)"
    using * by (auto simp: decode_message_def Let_def require_def split: option.splits intro!: no_panic_rules)
  moreover have "valid_message m" if "decode_message data = Inr m"
  proof -
    from that obtain f where "fields_ok f" "df_source_id f = Some (source_id m)"
      "df_destination_id f = Some (destination_id m)" "df_namespace f = Some (namespace m)"
      "payload m = (if df_payload_type f = 1 then PBinary (case_option [] id (df_payload_binary f))
                 else PString (case_option [] id (df_payload_utf8 f)))"
      using * by (auto simp: decode_message_def bindR_eq_Inr_iff Let_def require_def split: option.splits)
    then show ?thesis
      by (auto simp: valid_message_def fields_ok_def utf8_string_def as_bytes_def split: option.splits)
  qed
  ultimately show ?thesis by blast
qed

theorem decode_message_total_witness:
  "decode_message (encode_message example_message) = Inr example_message \<and> valid_message example_message \<and>
   decode_message [10] = Inl (Err Truncated) \<and> decode_message [11] = Inl (Err (UnknownWireType 3))"
proof -
  have e: "decode_message (encode_message example_message) = Inr example_message"
    using length_example_message by (intro decode_encode_message example_message_valid) simp
  then show ?thesis
    using decode_message_total [of "encode_message example_message" example_message]
    by (simp add: decode_message_def [of "[10]"] decode_message_def [of "[11]"] decode_loop.simps
        decode_field_def decode_varint_def decode_varint_loop.simps decode_string_def decode_bytes_def Let_def)
qed

end
