(* ===== verification/Cast_Framing.thy ===== *)
theory Cast_Framing
  imports Byte_Source Cast_Message
begin

text \<open>
  Length-prefixed Cast messages on a byte stream (\<open>src/control/framing.rs\<close>). The reader keeps
  the progress of an unfinished message in its own buffers, so that a cancelled call loses
  nothing; the writer puts a 4-byte big-endian length before the encoded message.
\<close>

definition MAX_MESSAGE_SIZE :: nat where "MAX_MESSAGE_SIZE = 2 ^ 20"

record framed_reader =
  len_buf :: bytes
  len_filled :: nat
  body_buf :: bytes
  body_filled :: nat
  body_expected :: nat

definition framed_reader_new :: framed_reader where
  "framed_reader_new =
     \<lparr>len_buf = [0, 0, 0, 0], len_filled = 0, body_buf = [], body_filled = 0, body_expected = 0\<rparr>"

type_synonym read_call = "framed_reader \<times> arrival list \<times> cast_message read_outcome"

definition resize :: "nat \<Rightarrow> bytes \<Rightarrow> bytes" where
  "resize n buf = take n buf @ replicate (n - length buf) 0"

definition read_body :: "framed_reader \<Rightarrow> arrival list \<Rightarrow> read_call" where
  "read_body r src =
     (let (buf, filled, src1, status) = fill (body_expected r) (body_buf r) (body_filled r) src;
          r1 = r\<lparr>body_buf := buf, body_filled := filled\<rparr>
      in case status of
           OutOfRange \<Rightarrow> (r1, src1, Panicking)
         | Wait \<Rightarrow> (r1, src1, Waiting)
         | Closed \<Rightarrow> (r1, src1, Failed (UnexpectedEof ''connection closed while reading message body''))
         | Broken e \<Rightarrow> (r1, src1, Failed e)
         | Full \<Rightarrow>
             (case bindR (sliceR buf 0 (body_expected r)) decode_message of
                Inl Panic \<Rightarrow> (r1, src1, Panicking)
              | Inl (Err e) \<Rightarrow> (r1, src1, Failed (InvalidData (decode_error_display e)))
              | Inr m \<Rightarrow> (r1\<lparr>len_filled := 0, body_expected := 0, body_filled := 0\<rparr>, src1, Read m)))"

definition message_length :: "bytes \<Rightarrow> nat" where
  "message_length b = unat (u32_from_be_bytes (b ! 0) (b ! 1) (b ! 2) (b ! 3))"

definition read_message :: "framed_reader \<Rightarrow> arrival list \<Rightarrow> read_call" where
  "read_message r src =
     (let (buf, filled, src1, status) = fill 4 (len_buf r) (len_filled r) src;
          r1 = r\<lparr>len_buf := buf, len_filled := filled\<rparr>
      in case status of
           OutOfRange \<Rightarrow> (r1, src1, Panicking)
         | Wait \<Rightarrow> (r1, src1, Waiting)
         | Closed \<Rightarrow> (r1, src1, Failed (UnexpectedEof ''connection closed while reading message length''))
         | Broken e \<Rightarrow> (r1, src1, Failed e)
         | Full \<Rightarrow>
             if body_expected r1 = 0 then
               let expected = message_length buf; r2 = r1\<lparr>body_expected := expected\<rparr>
               in if expected = 0 then (r2, src1, Failed (InvalidData ''zero-length message''))
                  else if MAX_MESSAGE_SIZE < expected
                  then (r2, src1, Failed (InvalidData ''message too large''))
                  else read_body (r2\<lparr>body_buf := resize expected (body_buf r2), body_filled := 0\<rparr>) src1
             else read_body r1 src1)"

text \<open>The bytes of \<open>write_message\<close>; the stream takes them or fails.\<close>

definition frame_message :: "cast_message \<Rightarrow> bytes" where
  "frame_message m =
     u32_to_be_bytes (of_nat (length (encode_message m))) @ encode_message m"

subsection \<open>One call\<close>

definition fits_frame :: "cast_message \<Rightarrow> bool" where
  "fits_frame m \<longleftrightarrow> valid_message m \<and> length (encode_message m) \<le> MAX_MESSAGE_SIZE"

text \<open>A reader that has taken \<open>got\<close>, a part of a frame: in its length, or in its body.\<close>

definition in_length :: "framed_reader \<Rightarrow> bytes \<Rightarrow> bool" where
  "in_length r got \<longleftrightarrow>
     length (len_buf r) = 4 \<and> body_expected r = 0 \<and> len_filled r < 4 \<and> got = take (len_filled r) (len_buf r)"

definition in_body :: "framed_reader \<Rightarrow> bytes \<Rightarrow> bool" where
  "in_body r got \<longleftrightarrow>
     length (len_buf r) = 4 \<and> len_filled r = 4 \<and> 0 < body_expected r \<and>
     body_expected r = message_length (len_buf r) \<and> body_expected r \<le> MAX_MESSAGE_SIZE \<and>
     length (body_buf r) = body_expected r \<and> body_filled r \<le> body_expected r \<and>
     got = len_buf r @ take (body_filled r) (body_buf r)"

definition holds_part :: "framed_reader \<Rightarrow> bytes \<Rightarrow> bool" where
  "holds_part r got \<longleftrightarrow> in_length r got \<or> in_body r got"

lemma encode_message_neq_Nil [simp]: "encode_message m \<noteq> []"
  by (simp add: encode_message_def encode_varint_field_def)

lemma length_resize [simp]: "length (resize n buf) = n"
  by (simp add: resize_def)

lemma message_length_frame:
  assumes "length (encode_message m) \<le> MAX_MESSAGE_SIZE"
  shows "message_length (u32_to_be_bytes (of_nat (length (encode_message m)))) = length (encode_message m)"
proof -
  have "length (encode_message m) < 2 ^ 32" using assms by (simp add: MAX_MESSAGE_SIZE_def)
  then show ?thesis by (simp add: message_length_def u32_to_be_bytes_def unat_of_nat)
qed

lemma in_body_length: "in_body r got \<Longrightarrow> 4 \<le> length got"
  by (simp add: in_body_def)

text \<open>The body phase of a call.\<close>

lemma read_body_complete:
  assumes "in_body r got" and "fits_frame m" and "chunks src" and "got @ stream src = frame_message m @ rest"
  shows "\<exists>r' src'. read_body r src = (r', src', Read m) \<and> in_length r' [] \<and> chunks src' \<and> stream src' = rest"
proof -
  let ?E = "body_expected r" and ?e = "encode_message m"
  have r: "length (len_buf r) = 4" "length (body_buf r) = ?E" "body_filled r \<le> ?E"
    using assms(1) by (auto simp: in_body_def)
  have "len_buf r @ take (body_filled r) (body_buf r) @ stream src =
      u32_to_be_bytes (of_nat (length ?e)) @ ?e @ rest"
    using assms(1, 4) by (simp add: in_body_def frame_message_def)
  then have split: "len_buf r = u32_to_be_bytes (of_nat (length ?e))"
    "take (body_filled r) (body_buf r) @ stream src = ?e @ rest"
    using r(1) by auto
  have E: "?E = length ?e"
    using assms(1, 2) split(1) message_length_frame [of m] by (simp add: in_body_def fits_frame_def)
  have "length (take (body_filled r) (body_buf r) @ stream src) = length (?e @ rest)" using split(2) by simp
  then have enough: "?E \<le> body_filled r + length (stream src)" using r E by simp
  obtain buf new src' where f: "fill ?E (body_buf r) (body_filled r) src = (buf, body_filled r + length new, src', Full)"
    "length buf = ?E" "chunks src'" "stream src = new @ stream src'"
    "take (body_filled r + length new) buf = take (body_filled r) (body_buf r) @ new"
    "body_filled r + length new = ?E"
    using fill_chunks [OF assms(3) r(3), of "body_buf r"] r(2) enough by auto
  have "buf = take (body_filled r) (body_buf r) @ new" using f(2, 5, 6) by simp
  with split(2) f(4) have "buf @ stream src' = ?e @ rest" by simp
  with f(2) E have b: "buf = ?e" "stream src' = rest" by auto
  have "decode_message ?e = Inr m"
    using assms(2) by (intro decode_encode_message) (auto simp: fits_frame_def MAX_MESSAGE_SIZE_def)
  with f b E r(1) show ?thesis by (simp add: read_body_def in_length_def Let_def)
qed

lemma read_body_incomplete:
  assumes "in_body r got" and "fits_frame m" and "chunks src" and "got @ stream src @ tail = frame_message m"
    and "tail \<noteq> []"
  shows "\<exists>r' src'. read_body r src = (r', src', Waiting) \<and> in_body r' (got @ stream src) \<and>
    chunks src' \<and> stream src' = []"
proof -
  let ?E = "body_expected r" and ?e = "encode_message m"
  have r: "length (len_buf r) = 4" "length (body_buf r) = ?E" "body_filled r \<le> ?E"
    using assms(1) by (auto simp: in_body_def)
  have "len_buf r @ take (body_filled r) (body_buf r) @ stream src @ tail =
      u32_to_be_bytes (of_nat (length ?e)) @ ?e"
    using assms(1, 4) by (simp add: in_body_def frame_message_def)
  then have split: "len_buf r = u32_to_be_bytes (of_nat (length ?e))"
    "take (body_filled r) (body_buf r) @ stream src @ tail = ?e"
    using r(1) by auto
  have E: "?E = length ?e"
    using assms(1, 2) split(1) message_length_frame [of m] by (simp add: in_body_def fits_frame_def)
  have "length (take (body_filled r) (body_buf r)) + (length (stream src) + length tail) = length ?e"
    unfolding split(2) [symmetric] by simp
  then have short: "\<not> ?E \<le> body_filled r + length (stream src)" using r E assms(5) by (cases tail) auto
  obtain buf new src' where f: "fill ?E (body_buf r) (body_filled r) src = (buf, body_filled r + length new, src', Wait)"
    "length buf = ?E" "chunks src'" "stream src = new @ stream src'" "stream src' = []"
    "take (body_filled r + length new) buf = take (body_filled r) (body_buf r) @ new"
    using fill_chunks [OF assms(3) r(3), of "body_buf r"] r(2) short by auto
  then have "in_body (r\<lparr>body_buf := buf, body_filled := body_filled r + length new\<rparr>) (got @ stream src)"
    using assms(1) short by (auto simp: in_body_def)
  with f show ?thesis by (auto simp: read_body_def Let_def)
qed

text \<open>The length phase of a call, which goes on to the body phase.\<close>

lemma read_message_in_body: "in_body r got \<Longrightarrow> read_message r src = read_body r src"
  by (cases r) (auto simp: read_message_def in_body_def fill.simps Let_def)

lemma read_message_starts_body:
  assumes "in_length r got" and "fits_frame m" and "chunks src"
    and "got @ stream src @ tail = frame_message m @ rest" and "4 \<le> length (got @ stream src)"
  obtains r' src' head where "read_message r src = read_body r' src'" and "in_body r' head"
    and "chunks src'" and "head @ stream src' = got @ stream src"
proof -
  let ?h = "u32_to_be_bytes (of_nat (length (encode_message m)))"
  have r: "length (len_buf r) = 4" "len_filled r < 4" "body_expected r = 0" "got = take (len_filled r) (len_buf r)"
    using assms(1) by (auto simp: in_length_def)
  obtain buf new src' where f: "fill 4 (len_buf r) (len_filled r) src = (buf, 4, src', Full)" "length buf = 4"
    "chunks src'" "stream src = new @ stream src'" "take 4 buf = got @ new" "len_filled r + length new = 4"
    using fill_chunks [OF assms(3), of "len_filled r" 4 "len_buf r"] r assms(5) by auto
  have head: "buf = got @ new" using f(2, 5) by simp
  then have "buf @ stream src' @ tail = ?h @ encode_message m @ rest"
    using assms(4) f(4) by (simp add: frame_message_def)
  then have "buf = ?h" using f(2) by simp
  then have len: "message_length buf = length (encode_message m)"
    using assms(2) message_length_frame by (simp add: fits_frame_def)
  let ?r = "r\<lparr>len_buf := buf, len_filled := 4, body_expected := message_length buf,
      body_buf := resize (message_length buf) (body_buf r), body_filled := 0\<rparr>"
  have "in_body ?r buf" using f(2) len assms(2) by (simp add: in_body_def fits_frame_def)
  moreover have "read_message r src = read_body ?r src'"
    using f(1) r(3) len assms(2) by (simp add: read_message_def Let_def fits_frame_def)
  ultimately show thesis using that f(3, 4) head by simp
qed

lemma read_message_in_length:
  assumes "in_length r got" and "chunks src" and "length (got @ stream src) < 4"
  shows "\<exists>r' src'. read_message r src = (r', src', Waiting) \<and> in_length r' (got @ stream src) \<and>
    chunks src' \<and> stream src' = []"
proof -
  have r: "length (len_buf r) = 4" "len_filled r < 4" "body_expected r = 0" "got = take (len_filled r) (len_buf r)"
    using assms(1) by (auto simp: in_length_def)
  obtain buf new src' where f: "fill 4 (len_buf r) (len_filled r) src = (buf, len_filled r + length new, src', Wait)"
    "length buf = 4" "chunks src'" "stream src = new @ stream src'" "stream src' = []"
    "take (len_filled r + length new) buf = got @ new"
    using fill_chunks [OF assms(2), of "len_filled r" 4 "len_buf r"] r assms(3) by auto
  then show ?thesis
    using r assms(3) by (auto simp: read_message_def Let_def in_length_def)
qed

interpretation cast_frames: frame_reader read_message frame_message fits_frame holds_part
proof
  fix r got m src rest
  assume *: "holds_part r got" "fits_frame m" "chunks src" "got @ stream src = frame_message m @ rest"
  have four: "4 \<le> length (got @ stream src)" using *(4) by (simp add: frame_message_def)
  show "\<exists>r' src'. read_message r src = (r', src', Read m) \<and> holds_part r' [] \<and> chunks src' \<and> stream src' = rest"
  proof (cases "in_body r got")
    case True
    with read_body_complete [OF True *(2-4)] show ?thesis
      by (auto simp: read_message_in_body holds_part_def)
  next
    case False
    then have "in_length r got" using *(1) by (simp add: holds_part_def)
    then obtain r' src' head where b: "read_message r src = read_body r' src'" "in_body r' head" "chunks src'"
      "head @ stream src' = got @ stream src"
      using read_message_starts_body [OF _ *(2, 3), of r got "[]" rest] *(4) four
      by (metis append_Nil2)
    from read_body_complete [OF b(2) *(2) b(3)] *(4) b(4) show ?thesis
      unfolding b(1) holds_part_def by metis
  qed
next
  fix r got m src tail
  assume *: "holds_part r got" "fits_frame m" "chunks src" "got @ stream src @ tail = frame_message m" "tail \<noteq> []"
  show "\<exists>r' src'. read_message r src = (r', src', Waiting) \<and> holds_part r' (got @ stream src) \<and>
      chunks src' \<and> stream src' = []"
  proof (cases "in_body r got")
    case True
    with read_body_incomplete [OF True *(2-5)] show ?thesis
      by (auto simp: read_message_in_body holds_part_def)
  next
    case False
    then have l: "in_length r got" using *(1) by (simp add: holds_part_def)
    show ?thesis
    proof (cases "length (got @ stream src) < 4")
      case True
      with read_message_in_length [OF l *(3)] show ?thesis by (auto simp: holds_part_def)
    next
      case False
      obtain r' src' head where b: "read_message r src = read_body r' src'" "in_body r' head" "chunks src'"
        "head @ stream src' = got @ stream src"
        using read_message_starts_body [OF l *(2, 3), of tail "[]"] *(4) False
        by (metis append_Nil2 not_less)
      have "head @ stream src' @ tail = frame_message m" using b(4) *(4) by (metis append_assoc)
      from read_body_incomplete [OF b(2) *(2) b(3) this *(5)] show ?thesis
        unfolding b(1, 4) holds_part_def by blast
    qed
  qed
next
  fix r src
  assume "holds_part r []" "chunks src" "stream src = []"
  then show "\<exists>r' src'. read_message r src = (r', src', Waiting) \<and> holds_part r' [] \<and> chunks src' \<and> stream src' = []"
    using read_message_in_length [of r "[]" src] in_body_length [of r "[]"] by (auto simp: holds_part_def)
next
  show "frame_message m \<noteq> []" for m by (simp add: frame_message_def)
qed

text \<open>
  C10. Cast messages survive the transport: whatever messages of at most a megabyte the writer
  frames, however the stream cuts the bytes into chunks, and however often the reader is
  interrupted while it waits and called again when more has arrived, it returns exactly these
  messages, each once and in order, and then waits.
\<close>

theorem framed_messages_delivered:
  assumes "list_all fits_frame ms" and "list_all chunks batches"
    and "concat (map stream batches) = concat (map frame_message ms)"
  shows "serves read_message framed_reader_new [] batches ms"
proof (rule cast_frames.serves_all [where got = "[]"])
  show "holds_part framed_reader_new []"
    by (simp add: holds_part_def in_length_def framed_reader_new_def)
  show "ms \<noteq> [] \<longrightarrow> length [] < length (frame_message (hd ms))" by (simp add: frame_message_def)
qed (use assms in auto)

theorem framed_messages_delivered_witness:
  "serves read_message framed_reader_new []
     [[Chunk (take 2 (frame_message example_message))], [Chunk [], Chunk (drop 2 (frame_message example_message))]]
     [example_message]"
  using length_example_message example_message_valid
  by (intro framed_messages_delivered) (simp_all add: fits_frame_def MAX_MESSAGE_SIZE_def)

end
