(* ===== verification/Atv_Framing.thy ===== *)
theory Atv_Framing
  imports Byte_Source Wire
begin

text \<open>
  Varint-delimited frames of the Android TV protocols (\<open>src/android_tv/framing.rs\<close>). The reader
  takes the length byte by byte and keeps it, with the body read so far, across cancelled calls.
  The encoding of the message types is the protocol-buffer library's; a frame here is the
  encoded bytes.
\<close>

definition MAX_FRAME_SIZE :: nat where "MAX_FRAME_SIZE = 64 * 1024"

record atv_reader =
  ar_length :: u64
  ar_length_shift :: nat
  ar_body :: bytes
  ar_body_filled :: nat
  ar_body_expected :: nat

definition atv_reader_new :: atv_reader where
  "atv_reader_new =
     \<lparr>ar_length = 0, ar_length_shift = 0, ar_body = [], ar_body_filled = 0, ar_body_expected = 0\<rparr>"

datatype length_status = LengthDone | LengthWait | LengthClosed | LengthBroken io_fault
  | LengthOverflow

function length_loop ::
  "u64 \<Rightarrow> nat \<Rightarrow> arrival list \<Rightarrow> u64 \<times> nat \<times> arrival list \<times> length_status" where
  "length_loop len shift src =
     (case read_some 1 src of
        Blocked \<Rightarrow> (len, shift, [], LengthWait)
      | ReadError e \<Rightarrow> (len, shift, src, LengthBroken e)
      | Got bs src1 \<Rightarrow>
          if bs = [] then (len, shift, src1, LengthClosed)
          else
            let b = hd bs
            in if shift = 63 \<and> 1 < b then (len, shift, src1, LengthOverflow)
               else
                 let len' = len OR push_bit shift (ucast (b AND 0x7F))
                 in if b AND 0x80 = 0 then (len', shift, src1, LengthDone)
                    else if 64 \<le> shift + 7 then (len', shift + 7, src1, LengthOverflow)
                    else length_loop len' (shift + 7) src1)"
  by pat_completeness auto

termination
  by (relation "measure (\<lambda>(_, shift, _). 64 - shift)") auto

declare length_loop.simps [simp del]

type_synonym frame_call = "atv_reader \<times> arrival list \<times> bytes read_outcome"

definition atv_resize :: "nat \<Rightarrow> bytes \<Rightarrow> bytes" where
  "atv_resize n buf = take n buf @ replicate (n - length buf) 0"

definition read_frame_body :: "atv_reader \<Rightarrow> arrival list \<Rightarrow> frame_call" where
  "read_frame_body r src =
     (let (buf, filled, src1, status) = fill (ar_body_expected r) (ar_body r) (ar_body_filled r) src;
          r1 = r\<lparr>ar_body := buf, ar_body_filled := filled\<rparr>
      in case status of
           OutOfRange \<Rightarrow> (r1, src1, Panicking)
         | Wait \<Rightarrow> (r1, src1, Waiting)
         | Closed \<Rightarrow>
             (r1, src1, Failed (UnexpectedEof ''connection closed while reading protobuf frame body''))
         | Broken e \<Rightarrow> (r1, src1, Failed e)
         | Full \<Rightarrow>
             (r1\<lparr>ar_length := 0, ar_length_shift := 0, ar_body_expected := 0, ar_body_filled := 0\<rparr>,
              src1, Read (take (ar_body_expected r) buf)))"

definition read_frame :: "atv_reader \<Rightarrow> arrival list \<Rightarrow> frame_call" where
  "read_frame r src =
     (if ar_body_expected r = 0 then
        let (len, shift, src1, status) = length_loop (ar_length r) (ar_length_shift r) src;
            r1 = r\<lparr>ar_length := len, ar_length_shift := shift\<rparr>
        in case status of
             LengthWait \<Rightarrow> (r1, src1, Waiting)
           | LengthClosed \<Rightarrow>
               (r1, src1, Failed (UnexpectedEof ''connection closed while reading protobuf frame length''))
           | LengthBroken e \<Rightarrow> (r1, src1, Failed e)
           | LengthOverflow \<Rightarrow>
               (r1, src1, Failed (InvalidData ''protobuf frame length varint overflow''))
           | LengthDone \<Rightarrow>
               let expected = unat len; r2 = r1\<lparr>ar_body_expected := expected\<rparr>
               in if expected = 0 then (r2, src1, Failed (InvalidData ''zero-length protobuf frame''))
                  else if MAX_FRAME_SIZE < expected
                  then (r2, src1, Failed (InvalidData ''protobuf frame exceeds 64 KiB''))
                  else read_frame_body (r2\<lparr>ar_body := atv_resize expected (ar_body r2)\<rparr>) src1
      else read_frame_body r src)"

function encode_length :: "u64 \<Rightarrow> bytes" where
  "encode_length value =
     (let byte = ucast (value AND 0x7f) :: u8; rest = drop_bit 7 value
      in if rest \<noteq> 0 then (byte OR 0x80) # encode_length rest else [byte])"
  by pat_completeness auto

termination
  by (relation "measure unat") (auto dest: drop_bit_7_shrinks)

declare encode_length.simps [simp del]

text \<open>\<open>write_message\<close> for a message whose encoding is \<open>body\<close>: the bytes it hands to the stream.\<close>

definition write_frame :: "bytes \<Rightarrow> io_fault + bytes" where
  "write_frame body =
     (if length body = 0 then Inl (InvalidData ''refusing to write an empty protobuf frame'')
      else if MAX_FRAME_SIZE < length body then Inl (InvalidData ''protobuf frame exceeds 64 KiB'')
      else Inr (encode_length (of_nat (length body)) @ body))"

subsection \<open>The two varint encoders agree\<close>

lemma encode_length_eq: "encode_length v = encode_varint v"
  by (rule varint_encoder_eq) (rule encode_length.simps)

subsection \<open>One call\<close>

definition frame_of :: "bytes \<Rightarrow> bytes" where
  "frame_of body = encode_varint (of_nat (length body)) @ body"

definition fits_body :: "bytes \<Rightarrow> bool" where
  "fits_body body \<longleftrightarrow> body \<noteq> [] \<and> length body \<le> MAX_FRAME_SIZE"

lemma write_frame_eq: "fits_body body \<Longrightarrow> write_frame body = Inr (frame_of body)"
  by (simp add: write_frame_def fits_body_def frame_of_def encode_length_eq)

lemma unat_body_length: "fits_body body \<Longrightarrow> unat (of_nat (length body) :: u64) = length body"
  by (simp add: fits_body_def MAX_FRAME_SIZE_def unat_of_nat)

definition length_loop_follows :: "u64 \<Rightarrow> nat \<Rightarrow> arrival list \<Rightarrow> bool" where
  "length_loop_follows len shift src =
     (case varint_run len shift (stream src) of
        More a s \<Rightarrow> \<exists>src'. length_loop len shift src = (a, s, src', LengthWait) \<and> chunks src' \<and> stream src' = []
      | Done v r \<Rightarrow> \<exists>s src'. length_loop len shift src = (v, s, src', LengthDone) \<and> chunks src' \<and> stream src' = r
      | Overflow \<Rightarrow> True)"

lemma length_loop_chunks: "chunks src \<Longrightarrow> length_loop_follows len shift src"
proof (induction len shift src rule: length_loop.induct)
  case (1 len shift src)
  note rs = read_some_chunks [OF 1(2), of 1]
  show ?case
  proof (cases "read_some 1 src")
    case Blocked
    with rs show ?thesis by (simp add: length_loop_follows_def length_loop.simps [of len])
  next
    case (ReadError e)
    with rs show ?thesis by simp
  next
    case (Got bs src1)
    with rs obtain b where b: "bs = [b]" "chunks src1" "stream src = b # stream src1"
      by (cases bs) auto
    let ?len = "len OR push_bit shift (ucast (b AND 0x7F))"
    have step: "length_loop len shift src =
       (if shift = 63 \<and> 1 < b then (len, shift, src1, LengthOverflow)
        else if b AND 0x80 = 0 then (?len, shift, src1, LengthDone)
        else if 64 \<le> shift + 7 then (?len, shift + 7, src1, LengthOverflow)
        else length_loop ?len (shift + 7) src1)"
      using Got b(1) by (subst length_loop.simps) (simp add: Let_def)
    have "length_loop_follows ?len (shift + 7) src1"
      if "\<not> (shift = 63 \<and> 1 < b)" "b AND 0x80 \<noteq> 0" "\<not> 64 \<le> shift + 7"
      using 1(1) [OF Got _ refl _ refl] b that by simp
    then show ?thesis
      unfolding length_loop_follows_def step b(3) using b(2) by auto
  qed
qed

text \<open>A reader that has taken \<open>got\<close>, a part of a frame: in its length, or in its body.\<close>

definition in_frame_length :: "atv_reader \<Rightarrow> bytes \<Rightarrow> bool" where
  "in_frame_length r got \<longleftrightarrow>
     ar_body_expected r = 0 \<and> ar_body_filled r = 0 \<and>
     varint_run 0 0 got = More (ar_length r) (ar_length_shift r)"

definition in_frame_body :: "atv_reader \<Rightarrow> bytes \<Rightarrow> bool" where
  "in_frame_body r got \<longleftrightarrow>
     0 < ar_body_expected r \<and> ar_body_expected r \<le> MAX_FRAME_SIZE \<and>
     length (ar_body r) = ar_body_expected r \<and> ar_body_filled r \<le> ar_body_expected r \<and>
     got = encode_varint (of_nat (ar_body_expected r)) @ take (ar_body_filled r) (ar_body r)"

definition holds_frame_part :: "atv_reader \<Rightarrow> bytes \<Rightarrow> bool" where
  "holds_frame_part r got \<longleftrightarrow> in_frame_length r got \<or> in_frame_body r got"

lemma frame_of_split:
  assumes "in_frame_body r got" and "fits_body body" and "got @ rest = frame_of body @ ys"
  shows "ar_body_expected r = length body" and "take (ar_body_filled r) (ar_body r) @ rest = body @ ys"
proof -
  let ?E = "ar_body_expected r"
  have "encode_varint (of_nat ?E) @ take (ar_body_filled r) (ar_body r) @ rest =
      encode_varint (of_nat (length body)) @ body @ ys"
    using assms(1, 3) by (simp add: in_frame_body_def frame_of_def)
  then have "Done (of_nat ?E :: u64) (take (ar_body_filled r) (ar_body r) @ rest) =
      Done (of_nat (length body)) (body @ ys)"
    by (metis varint_run_encode)
  then have *: "(of_nat ?E :: u64) = of_nat (length body)"
    and "take (ar_body_filled r) (ar_body r) @ rest = body @ ys" by simp_all
  then show "take (ar_body_filled r) (ar_body r) @ rest = body @ ys" by blast
  have "unat (of_nat ?E :: u64) = ?E"
    using assms(1) by (simp add: in_frame_body_def MAX_FRAME_SIZE_def unat_of_nat)
  then show "?E = length body" using * unat_body_length [OF assms(2)] by simp
qed

lemma read_frame_body_complete:
  assumes "in_frame_body r got" and "fits_body body" and "chunks src" and "got @ stream src = frame_of body @ rest"
  shows "\<exists>r' src'. read_frame_body r src = (r', src', Read body) \<and> in_frame_length r' [] \<and>
    chunks src' \<and> stream src' = rest"
proof -
  let ?E = "ar_body_expected r"
  have r: "length (ar_body r) = ?E" "ar_body_filled r \<le> ?E" using assms(1) by (auto simp: in_frame_body_def)
  note split = frame_of_split [OF assms(1, 2, 4)]
  have "length (take (ar_body_filled r) (ar_body r) @ stream src) = length (body @ rest)" using split(2) by simp
  then have enough: "?E \<le> ar_body_filled r + length (stream src)" using r split(1) by simp
  obtain buf new src' where f: "fill ?E (ar_body r) (ar_body_filled r) src = (buf, ar_body_filled r + length new, src', Full)"
    "length buf = ?E" "chunks src'" "stream src = new @ stream src'"
    "take (ar_body_filled r + length new) buf = take (ar_body_filled r) (ar_body r) @ new"
    "ar_body_filled r + length new = ?E"
    using fill_chunks [OF assms(3) r(2), of "ar_body r"] r(1) enough by auto
  have "buf = take (ar_body_filled r) (ar_body r) @ new" using f(2, 5, 6) by simp
  with split(2) f(4) have "buf @ stream src' = body @ rest" by simp
  with f(2) split(1) have "buf = body" "stream src' = rest" by auto
  with f split(1) show ?thesis by (simp add: read_frame_body_def in_frame_length_def Let_def)
qed

lemma read_frame_body_incomplete:
  assumes "in_frame_body r got" and "fits_body body" and "chunks src" and "got @ stream src @ tail = frame_of body"
    and "tail \<noteq> []"
  shows "\<exists>r' src'. read_frame_body r src = (r', src', Waiting) \<and> in_frame_body r' (got @ stream src) \<and>
    chunks src' \<and> stream src' = []"
proof -
  let ?E = "ar_body_expected r"
  have r: "length (ar_body r) = ?E" "ar_body_filled r \<le> ?E" using assms(1) by (auto simp: in_frame_body_def)
  have split: "?E = length body" "take (ar_body_filled r) (ar_body r) @ stream src @ tail = body"
    using frame_of_split [OF assms(1, 2), of "stream src @ tail" "[]"] assms(4) by auto
  have "length (take (ar_body_filled r) (ar_body r)) + (length (stream src) + length tail) = length body"
    unfolding split(2) [symmetric] by simp
  then have short: "\<not> ?E \<le> ar_body_filled r + length (stream src)" using r split(1) assms(5) by (cases tail) auto
  obtain buf new src' where f: "fill ?E (ar_body r) (ar_body_filled r) src = (buf, ar_body_filled r + length new, src', Wait)"
    "length buf = ?E" "chunks src'" "stream src = new @ stream src'" "stream src' = []"
    "take (ar_body_filled r + length new) buf = take (ar_body_filled r) (ar_body r) @ new"
    using fill_chunks [OF assms(3) r(2), of "ar_body r"] r(1) short by auto
  then have "in_frame_body (r\<lparr>ar_body := buf, ar_body_filled := ar_body_filled r + length new\<rparr>) (got @ stream src)"
    using assms(1) short by (auto simp: in_frame_body_def)
  with f show ?thesis by (auto simp: read_frame_body_def Let_def)
qed

text \<open>The length phase of a call, which goes on to the body phase.\<close>

lemma read_frame_in_body: "in_frame_body r got \<Longrightarrow> read_frame r src = read_frame_body r src"
  by (simp add: read_frame_def in_frame_body_def)

lemma length_atv_resize [simp]: "length (atv_resize n buf) = n"
  by (simp add: atv_resize_def)

lemma read_frame_starts_body:
  assumes "in_frame_length r got" and "fits_body body" and "chunks src"
    and "got @ stream src @ tail = frame_of body @ rest" and "varint_run 0 0 (got @ stream src) = Done v q"
  obtains r' src' head where "read_frame r src = read_frame_body r' src'" and "in_frame_body r' head"
    and "chunks src'" and "head @ stream src' = got @ stream src"
proof -
  let ?n = "length body"
  have "varint_run 0 0 ((got @ stream src) @ tail) = Done (of_nat ?n) (body @ rest)"
    using assms(4) varint_run_encode by (simp add: frame_of_def)
  then have v: "v = of_nat ?n" "q @ tail = body @ rest"
    unfolding varint_run_append [of 0 0 "got @ stream src"] assms(5) by simp_all
  have "(got @ stream src) @ tail = (encode_varint v @ q) @ tail"
    using assms(4) v by (simp add: frame_of_def)
  then have head: "got @ stream src = encode_varint v @ q" by blast
  have "varint_run (ar_length r) (ar_length_shift r) (stream src) = Done v q"
    using assms(1, 5) by (simp add: in_frame_length_def varint_run_append)
  then obtain s src' where l: "length_loop (ar_length r) (ar_length_shift r) src = (v, s, src', LengthDone)"
    "chunks src'" "stream src' = q"
    using length_loop_chunks [OF assms(3), of "ar_length r" "ar_length_shift r"]
    by (auto simp: length_loop_follows_def)
  let ?r = "r\<lparr>ar_length := v, ar_length_shift := s, ar_body_expected := ?n, ar_body := atv_resize ?n (ar_body r)\<rparr>"
  have n: "unat v = ?n" using v(1) unat_body_length [OF assms(2)] by simp
  have "in_frame_body ?r (encode_varint v)"
    using assms(1, 2) v(1) by (simp add: in_frame_body_def fits_body_def in_frame_length_def)
  moreover have "read_frame r src = read_frame_body ?r src'"
    using l(1) n assms(1, 2) by (simp add: read_frame_def in_frame_length_def fits_body_def Let_def)
  ultimately show thesis using that l(2, 3) head by metis
qed

lemma read_frame_in_length:
  assumes "in_frame_length r got" and "chunks src" and "varint_run 0 0 (got @ stream src) = More a s"
  shows "\<exists>r' src'. read_frame r src = (r', src', Waiting) \<and> in_frame_length r' (got @ stream src) \<and>
    chunks src' \<and> stream src' = []"
proof -
  have "varint_run (ar_length r) (ar_length_shift r) (stream src) = More a s"
    using assms(1, 3) by (simp add: in_frame_length_def varint_run_append)
  then obtain src' where l: "length_loop (ar_length r) (ar_length_shift r) src = (a, s, src', LengthWait)"
    "chunks src'" "stream src' = []"
    using length_loop_chunks [OF assms(2), of "ar_length r" "ar_length_shift r"]
    by (auto simp: length_loop_follows_def)
  then show ?thesis
    using assms(1, 3) by (auto simp: read_frame_def in_frame_length_def Let_def)
qed

lemma varint_run_frame_prefix:
  assumes "got @ tail = frame_of body"
  shows "(\<exists>a s. varint_run 0 0 got = More a s) \<or> (\<exists>v q. varint_run 0 0 got = Done v q)"
  using varint_run_encode [of "of_nat (length body)" body] assms
  by (cases "varint_run 0 0 got") (auto simp: frame_of_def varint_run_append dest: arg_cong [of _ _ "varint_run 0 0"])

lemma frame_complete_length:
  assumes "in_frame_length r got" and "got @ stream src = frame_of body @ rest"
  shows "\<exists>v q. varint_run 0 0 (got @ stream src) = Done v q"
  unfolding assms(2) frame_of_def append_assoc varint_run_encode by blast

interpretation atv_frames: frame_reader read_frame frame_of fits_body holds_frame_part
proof
  fix r got m src rest
  assume *: "holds_frame_part r got" "fits_body m" "chunks src" "got @ stream src = frame_of m @ rest"
  show "\<exists>r' src'. read_frame r src = (r', src', Read m) \<and> holds_frame_part r' [] \<and> chunks src' \<and> stream src' = rest"
  proof (cases "in_frame_body r got")
    case True
    with read_frame_body_complete [OF True *(2-4)] show ?thesis
      by (auto simp: read_frame_in_body holds_frame_part_def)
  next
    case False
    then have l: "in_frame_length r got" using *(1) by (simp add: holds_frame_part_def)
    then obtain v q where "varint_run 0 0 (got @ stream src) = Done v q"
      using frame_complete_length *(4) by blast
    then obtain r' src' head where b: "read_frame r src = read_frame_body r' src'" "in_frame_body r' head" "chunks src'"
      "head @ stream src' = got @ stream src"
      using read_frame_starts_body [OF l *(2, 3), of "[]" rest] *(4) by (metis append_Nil2)
    from read_frame_body_complete [OF b(2) *(2) b(3)] *(4) b(4) show ?thesis
      unfolding b(1) holds_frame_part_def by metis
  qed
next
  fix r got m src tail
  assume *: "holds_frame_part r got" "fits_body m" "chunks src" "got @ stream src @ tail = frame_of m" "tail \<noteq> []"
  show "\<exists>r' src'. read_frame r src = (r', src', Waiting) \<and> holds_frame_part r' (got @ stream src) \<and>
      chunks src' \<and> stream src' = []"
  proof (cases "in_frame_body r got")
    case True
    with read_frame_body_incomplete [OF True *(2-5)] show ?thesis
      by (auto simp: read_frame_in_body holds_frame_part_def)
  next
    case False
    then have l: "in_frame_length r got" using *(1) by (simp add: holds_frame_part_def)
    consider a s where "varint_run 0 0 (got @ stream src) = More a s"
      | v q where "varint_run 0 0 (got @ stream src) = Done v q"
      using varint_run_frame_prefix [of "got @ stream src" tail m] *(4) by auto
    then show ?thesis
    proof cases
      case 1
      with read_frame_in_length [OF l *(3)] show ?thesis by (auto simp: holds_frame_part_def)
    next
      case 2
      obtain r' src' head where b: "read_frame r src = read_frame_body r' src'" "in_frame_body r' head" "chunks src'"
        "head @ stream src' = got @ stream src"
        using read_frame_starts_body [OF l *(2, 3), of tail "[]"] *(4) 2 by (metis append_Nil2)
      have "head @ stream src' @ tail = frame_of m" using b(4) *(4) by (metis append_assoc)
      from read_frame_body_incomplete [OF b(2) *(2) b(3) this *(5)] show ?thesis
        unfolding b(1, 4) holds_frame_part_def by blast
    qed
  qed
next
  fix r src
  assume *: "holds_frame_part r []" "chunks src" "stream src = []"
  then have "in_frame_length r []"
    using encode_varint_neq_Nil by (auto simp: holds_frame_part_def in_frame_body_def)
  with read_frame_in_length [of r "[]" src] *(2, 3)
  show "\<exists>r' src'. read_frame r src = (r', src', Waiting) \<and> holds_frame_part r' [] \<and> chunks src' \<and> stream src' = []"
    by (auto simp: holds_frame_part_def)
next
  show "fits_body m \<Longrightarrow> frame_of m \<noteq> []" for m by (simp add: frame_of_def fits_body_def)
qed

text \<open>
  C37. Android TV frames survive the transport: whatever nonempty messages of at most 64 KiB
  \<open>write_message\<close> puts on the stream, however the stream cuts the bytes, even inside a length,
  and however often the reader is cancelled while it waits, the reader returns exactly these
  messages, each once and in order, and then waits.
\<close>

theorem atv_frames_delivered:
  assumes "map write_frame bodies = map Inr frames" and "list_all chunks batches"
    and "concat (map stream batches) = concat frames"
  shows "serves read_frame atv_reader_new [] batches bodies"
proof (rule atv_frames.serves_all [where got = "[]"])
  show fits: "list_all fits_body bodies"
    using assms(1)
  proof (induction bodies arbitrary: frames)
    case (Cons b bs)
    then obtain f fs where "frames = f # fs" by (cases frames) auto
    with Cons show ?case
      by (auto simp: fits_body_def write_frame_def split: if_splits)
  qed simp
  have "map Inr frames = map (\<lambda>b. (Inr (frame_of b) :: io_fault + bytes)) bodies"
    using fits unfolding assms(1) [symmetric] by (auto simp: list_all_iff write_frame_eq)
  then have "frames = map frame_of bodies"
    by (metis (no_types, lifting) inj_Inr list.map_comp map_injective comp_def map_eq_conv)
  then show "[] @ stream [] @ concat (map stream batches) = concat (map frame_of bodies)"
    using assms(3) by simp
  show "holds_frame_part atv_reader_new []"
    by (simp add: holds_frame_part_def in_frame_length_def atv_reader_new_def)
  show "bodies \<noteq> [] \<longrightarrow> length [] < length (frame_of (hd bodies))"
    using fits by (cases bodies) (auto simp: frame_of_def fits_body_def)
qed (use assms in auto)

theorem atv_frames_delivered_witness:
  "serves read_frame atv_reader_new [] [[Chunk [1]], [Chunk [7, 2], Chunk [8]], [Chunk [9]]] [[7], [8, 9]]"
  by (rule atv_frames_delivered [where frames = "[[1, 7], [2, 8, 9]]"])
    (simp_all add: write_frame_def MAX_FRAME_SIZE_def encode_length.simps)

end
