(* ===== verification/Unicode.thy ===== *)
theory Unicode
  imports Text
begin

text \<open>
  The Unicode parts of Rust's \<open>str\<close> that the sources use: the characters of a UTF-8 string,
  \<open>char::is_whitespace\<close>, \<open>char::is_control\<close> and \<open>str::trim\<close>. A string is the list of its bytes.
\<close>

definition utf8_width :: "char \<Rightarrow> nat" where
  "utf8_width c = (let n = of_char c :: nat in if n < 128 then 1 else if n < 224 then 2 else if n < 240 then 3 else 4)"

fun utf8_chars :: "string \<Rightarrow> string list" where
  "utf8_chars [] = []"
| "utf8_chars (c # cs) = (c # take (utf8_width c - 1) cs) # utf8_chars (drop (utf8_width c - 1) cs)"

definition continuation :: "char \<Rightarrow> nat" where
  "continuation c = of_char c mod 64"

fun code_point :: "string \<Rightarrow> nat" where
  "code_point [a] = of_char a"
| "code_point [a, b] = (of_char a mod 32) * 64 + continuation b"
| "code_point [a, b, c] = ((of_char a mod 16) * 64 + continuation b) * 64 + continuation c"
| "code_point [a, b, c, d] = (((of_char a mod 8) * 64 + continuation b) * 64 + continuation c) * 64 + continuation d"
| "code_point _ = 65533"

definition is_whitespace :: "nat \<Rightarrow> bool" where
  "is_whitespace n \<longleftrightarrow> 9 \<le> n \<and> n \<le> 13 \<or> n = 32 \<or> n = 0x85 \<or> n = 0xA0 \<or> n = 0x1680 \<or>
     0x2000 \<le> n \<and> n \<le> 0x200A \<or> n = 0x2028 \<or> n = 0x2029 \<or> n = 0x202F \<or> n = 0x205F \<or> n = 0x3000"

definition is_control :: "nat \<Rightarrow> bool" where
  "is_control n \<longleftrightarrow> n < 32 \<or> 127 \<le> n \<and> n < 160"

definition white :: "string \<Rightarrow> bool" where
  "white ch = is_whitespace (code_point ch)"

definition control :: "string \<Rightarrow> bool" where
  "control ch = is_control (code_point ch)"

definition trim :: "string \<Rightarrow> string" where
  "trim s = concat (rev (dropWhile white (rev (dropWhile white (utf8_chars s)))))"

subsection \<open>Characters of a string and of its parts\<close>

lemma utf8_width_pos: "0 < utf8_width c"
  by (simp add: utf8_width_def Let_def)

lemma concat_utf8_chars [simp]: "concat (utf8_chars s) = s"
  by (induction s rule: utf8_chars.induct) simp_all

text \<open>A list of characters of a string: every one but the last is complete.\<close>

fun character_list :: "string list \<Rightarrow> bool" where
  "character_list [] = True"
| "character_list [ch] = (ch \<noteq> [] \<and> length ch \<le> utf8_width (hd ch))"
| "character_list (ch # chs) = (ch \<noteq> [] \<and> length ch = utf8_width (hd ch) \<and> character_list chs)"

lemma character_list_Cons:
  "character_list (ch # chs) \<longleftrightarrow>
     ch \<noteq> [] \<and> length ch \<le> utf8_width (hd ch) \<and> (chs \<noteq> [] \<longrightarrow> length ch = utf8_width (hd ch)) \<and> character_list chs"
  by (cases chs) auto

lemma utf8_chars_eq_Nil [simp]: "utf8_chars s = [] \<longleftrightarrow> s = []"
  by (cases s) simp_all

lemma character_list_utf8_chars: "character_list (utf8_chars s)"
proof (induction s rule: utf8_chars.induct)
  case (2 c cs)
  then show ?case using utf8_width_pos [of c] by (auto simp: character_list_Cons)
qed simp

lemma utf8_chars_concat: "character_list chs \<Longrightarrow> utf8_chars (concat chs) = chs"
proof (induction chs)
  case (Cons ch chs)
  then obtain c cs where ch: "ch = c # cs" by (cases ch) (auto simp: character_list_Cons)
  show ?case
  proof (cases "chs = []")
    case True
    with Cons.prems ch show ?thesis using utf8_width_pos [of c] by (auto simp: character_list_Cons)
  next
    case False
    with Cons.prems ch have "utf8_width c - 1 = length cs" by (auto simp: character_list_Cons)
    with Cons ch show ?thesis by (simp add: character_list_Cons)
  qed
qed simp

lemma character_list_append: "character_list (xs @ ys) \<Longrightarrow> character_list xs \<and> character_list ys"
  by (induction xs) (auto simp: character_list_Cons)

subsection \<open>Trimming\<close>

definition trimmed :: "string \<Rightarrow> bool" where
  "trimmed s \<longleftrightarrow> s = [] \<or> \<not> white (hd (utf8_chars s)) \<and> \<not> white (last (utf8_chars s))"

lemma chars_trim: "utf8_chars (trim s) = rev (dropWhile white (rev (dropWhile white (utf8_chars s))))"
proof -
  let ?a = "dropWhile white (utf8_chars s)"
  have "character_list ?a"
    using character_list_append [of "takeWhile white (utf8_chars s)" ?a] character_list_utf8_chars [of s] by simp
  moreover have "?a = rev (dropWhile white (rev ?a)) @ rev (takeWhile white (rev ?a))"
    by (metis rev_append rev_rev_ident takeWhile_dropWhile_id)
  ultimately have "character_list (rev (dropWhile white (rev ?a)))" by (metis character_list_append)
  then show ?thesis by (simp add: trim_def utf8_chars_concat)
qed

lemma trimmed_trim: "trimmed (trim s)"
proof (cases "trim s = []")
  case False
  let ?a = "dropWhile white (utf8_chars s)"
  let ?b = "dropWhile white (rev ?a)"
  have b: "?b \<noteq> []" using False chars_trim [of s] by (metis rev.simps(1) utf8_chars_eq_Nil)
  then have "\<not> white (hd ?b)" by (rule hd_dropWhile)
  moreover have "hd (rev ?b) = hd ?a"
  proof -
    have "?a = rev ?b @ rev (takeWhile white (rev ?a))" by (metis rev_append rev_rev_ident takeWhile_dropWhile_id)
    with b show ?thesis by (metis hd_append2 rev_is_Nil_conv)
  qed
  moreover have "?a \<noteq> []" using b by (metis dropWhile.simps(1) rev.simps(1))
  then have "\<not> white (hd ?a)" by (rule hd_dropWhile)
  ultimately show ?thesis using b by (simp add: trimmed_def chars_trim last_rev)
qed (simp add: trimmed_def)

lemma trim_trimmed: "trimmed s \<Longrightarrow> trim s = s"
proof -
  assume "trimmed s"
  then have "utf8_chars (trim s) = utf8_chars s"
  proof (cases "s = []")
    case False
    with \<open>trimmed s\<close> have "dropWhile white (utf8_chars s) = utf8_chars s"
      "dropWhile white (rev (utf8_chars s)) = rev (utf8_chars s)"
      by (auto simp: trimmed_def dropWhile_eq_self_iff hd_rev)
    then show ?thesis by (simp add: chars_trim)
  qed (simp add: chars_trim)
  then show ?thesis by (metis concat_utf8_chars)
qed

end
