(* ===== verification/Atv_Exchange.thy ===== *)
theory Atv_Exchange
  imports Atv_Framing Text Unicode "HOL-Library.Sublist"
begin

text \<open>
  What the Android TV exchanges share (\<open>src/android_tv/error.rs\<close>, \<open>connection.rs\<close> and the
  \<open>timeout\<close> calls of \<open>pairing.rs\<close> and \<open>remote_session.rs\<close>): the errors, and a computation that
  reads and writes frames over one connection. The network is in the state: how long each read
  and each write takes and how it ends. A read or write that takes longer than the exchange
  timeout fails with \<open>TimedOut\<close>, and so does everything that runs past an enclosing deadline.
\<close>

type_synonym i32 = "32 word"

datatype atv_error =
    InvalidIdentity string
  | InvalidClientInfo string
  | InvalidPairingCode
  | PairingRejected i32
  | UnsupportedPairingConfiguration
  | UnsupportedFeature string
  | ConnectionClosed
  | TimedOut string
  | Connection string
  | Protocol string
  | CryptoError string
  | Io io_fault

definition protocol_error :: "string \<Rightarrow> atv_error" where
  "protocol_error detail = Protocol detail"

definition show_i32 :: "i32 \<Rightarrow> string" where
  "show_i32 v = (if sint v < 0 then ''-'' @ show_nat (nat (- sint v)) else show_nat (nat (sint v)))"

primrec io_fault_display :: "io_fault \<Rightarrow> string" where
  "io_fault_display (UnexpectedEof s) = s"
| "io_fault_display (InvalidData s) = s"
| "io_fault_display (OtherIo s) = s"

primrec atv_error_display :: "atv_error \<Rightarrow> string" where
  "atv_error_display (InvalidIdentity s) = ''invalid Android TV client identity: '' @ s"
| "atv_error_display (InvalidClientInfo s) = ''invalid Android TV client information: '' @ s"
| "atv_error_display InvalidPairingCode = ''pairing code must contain exactly six hexadecimal digits''"
| "atv_error_display (PairingRejected n) = ''Android TV rejected pairing with protocol status '' @ show_i32 n"
| "atv_error_display UnsupportedPairingConfiguration =
     ''Android TV does not offer six-digit hexadecimal pairing''"
| "atv_error_display (UnsupportedFeature s) =
     ''Android TV does not support the '' @ s @ '' remote capability''"
| "atv_error_display ConnectionClosed = ''Android TV connection closed''"
| "atv_error_display (TimedOut s) = ''Android TV '' @ s @ '' timed out''"
| "atv_error_display (Connection s) = ''Android TV connection failed: '' @ s"
| "atv_error_display (Protocol s) = ''Android TV protocol error: '' @ s"
| "atv_error_display (CryptoError s) = ''Android TV cryptographic operation failed: '' @ s"
| "atv_error_display (Io e) = io_fault_display e"

definition EXCHANGE_TIMEOUT :: duration where "EXCHANGE_TIMEOUT = from_secs 5"

subsection \<open>Computations over a connection\<close>

text \<open>
  The frames that will come in and the fate of the writes, each with the time it takes; what was
  written completely; the clock; and the deadline of an enclosing \<open>timeout\<close> with its name.
  A list that is empty stands for a read or a write that never ends.
\<close>

record link =
  lk_inbound :: "(duration \<times> (io_fault + bytes)) list"
  lk_writes :: "(duration \<times> (io_fault + unit)) list"
  lk_sent :: "bytes list"
  lk_clock :: duration
  lk_deadline :: "(duration \<times> string) option"

type_synonym 'a exchange = "link \<Rightarrow> (atv_error + 'a) \<times> link"

definition returnX :: "'a \<Rightarrow> 'a exchange" where
  "returnX a l = (Inr a, l)"

definition bindX :: "'a exchange \<Rightarrow> ('a \<Rightarrow> 'b exchange) \<Rightarrow> 'b exchange" where
  "bindX m f l = (case m l of (Inl e, l') \<Rightarrow> (Inl e, l') | (Inr a, l') \<Rightarrow> f a l')"

definition liftX :: "atv_error + 'a \<Rightarrow> 'a exchange" where
  "liftX r l = (r, l)"

text \<open>Time passes until \<open>t\<close>, unless the deadline comes first.\<close>

definition advance :: "duration \<Rightarrow> atv_error + 'a \<Rightarrow> 'a exchange" where
  "advance t r l =
     (case lk_deadline l of
        Some (d, operation) \<Rightarrow>
          if d < t then (Inl (TimedOut operation), l\<lparr>lk_clock := d\<rparr>) else (r, l\<lparr>lk_clock := t\<rparr>)
      | None \<Rightarrow> (r, l\<lparr>lk_clock := t\<rparr>))"

text \<open>\<open>timeout(EXCHANGE_TIMEOUT, operation)\<close> around one read or write.\<close>

definition exchange_timeout :: "string \<Rightarrow> (duration \<times> 'a) option \<Rightarrow> 'a exchange" where
  "exchange_timeout operation completion l =
     (case completion of
        Some (took, a) \<Rightarrow>
          if took \<le> EXCHANGE_TIMEOUT then advance (lk_clock l + took) (Inr a) l
          else advance (lk_clock l + EXCHANGE_TIMEOUT) (Inl (TimedOut operation)) l
      | None \<Rightarrow> advance (lk_clock l + EXCHANGE_TIMEOUT) (Inl (TimedOut operation)) l)"

text \<open>\<open>timeout(d, m)\<close> around a whole exchange.\<close>

definition with_deadline :: "duration \<Rightarrow> string \<Rightarrow> 'a exchange \<Rightarrow> 'a exchange" where
  "with_deadline d operation m l =
     (case m (l\<lparr>lk_deadline := Some (lk_clock l + d, operation)\<rparr>) of
        (r, l') \<Rightarrow> (r, l'\<lparr>lk_deadline := None\<rparr>))"

definition from_io :: "io_fault + 'a \<Rightarrow> atv_error + 'a" where
  "from_io r = (case r of Inl e \<Rightarrow> Inl (Io e) | Inr a \<Rightarrow> Inr a)"

definition receive_frame :: "string \<Rightarrow> bytes exchange" where
  "receive_frame operation l =
     (case lk_inbound l of
        [] \<Rightarrow> exchange_timeout operation None l
      | (took, r) # rest \<Rightarrow>
          bindX (exchange_timeout operation (Some (took, r)))
            (\<lambda>r l'. (from_io r, l'\<lparr>lk_inbound := rest\<rparr>)) l)"

text \<open>\<open>write_message\<close> refuses an empty or oversized body without touching the network.\<close>

definition write_body :: "string \<Rightarrow> bytes \<Rightarrow> unit exchange" where
  "write_body operation body l =
     (case write_frame body of
        Inl e \<Rightarrow> (Inl (Io e), l)
      | Inr _ \<Rightarrow>
          (case lk_writes l of
             [] \<Rightarrow> exchange_timeout operation None l
           | (took, r) # rest \<Rightarrow>
               bindX (exchange_timeout operation (Some (took, r)))
                 (\<lambda>r l'. case r of
                    Inl e \<Rightarrow> (Inl (Io e), l'\<lparr>lk_writes := rest\<rparr>)
                  | Inr _ \<Rightarrow> (Inr (), l'\<lparr>lk_writes := rest, lk_sent := lk_sent l' @ [body]\<rparr>)) l))"

definition no_control :: "string \<Rightarrow> bool" where
  "no_control s = list_all (\<lambda>ch. \<not> control ch) (utf8_chars s)"

subsection \<open>Reasoning about exchanges\<close>

named_theorems exchange_rules \<open>what a successful step of an exchange did\<close>

lemma bindX_eq_Inr_iff [exchange_rules]:
  "bindX m f l = (Inr b, l'') \<longleftrightarrow> (\<exists>a l'. m l = (Inr a, l') \<and> f a l' = (Inr b, l''))"
  by (auto simp: bindX_def split: prod.splits sum.splits)

lemma returnX_eq_iff [exchange_rules]: "returnX a l = (r, l') \<longleftrightarrow> r = Inr a \<and> l' = l"
  by (auto simp: returnX_def)

lemma liftX_eq_iff [exchange_rules]: "liftX r l = (r', l') \<longleftrightarrow> r = r' \<and> l' = l"
  by (auto simp: liftX_def)

lemma bindX_snd:
  "snd (bindX m f l) = (case m l of (Inl e, l') \<Rightarrow> l' | (Inr a, l') \<Rightarrow> snd (f a l'))"
  by (simp add: bindX_def split: prod.splits sum.splits)

lemma from_io_eq_Inr [simp]: "from_io r = Inr a \<longleftrightarrow> r = Inr a"
  by (auto simp: from_io_def split: sum.splits)

text \<open>Only the clock moves while time passes.\<close>

definition same_traffic :: "link \<Rightarrow> link \<Rightarrow> bool" where
  "same_traffic l l' \<longleftrightarrow>
     lk_inbound l' = lk_inbound l \<and> lk_writes l' = lk_writes l \<and> lk_sent l' = lk_sent l \<and>
     lk_deadline l' = lk_deadline l"

lemma advance_same_traffic: "advance t r l = (r', l') \<Longrightarrow> same_traffic l l'"
  by (auto simp: advance_def same_traffic_def split: option.splits if_splits)

lemma exchange_timeout_same_traffic:
  "exchange_timeout operation c l = (r, l') \<Longrightarrow> same_traffic l l'"
  by (auto simp: exchange_timeout_def dest: advance_same_traffic split: option.splits if_splits)

lemma exchange_timeout_Inr:
  "exchange_timeout operation c l = (Inr a, l') \<Longrightarrow> \<exists>took. c = Some (took, a) \<and> took \<le> EXCHANGE_TIMEOUT"
  by (auto simp: exchange_timeout_def advance_def split: option.splits if_splits)

text \<open>A frame that is received is the next one that came in; a body that is written is appended
  to what was sent, and nothing else is.\<close>

lemma receive_frame_traffic:
  assumes "receive_frame operation l = (r, l')"
  shows "lk_sent l' = lk_sent l \<and> lk_writes l' = lk_writes l \<and> lk_deadline l' = lk_deadline l \<and>
    (\<forall>frame. r = Inr frame \<longrightarrow> (\<exists>took. lk_inbound l = (took, Inr frame) # lk_inbound l'))"
proof (cases "lk_inbound l")
  case Nil
  then show ?thesis
    using assms exchange_timeout_same_traffic [of operation None l r l'] exchange_timeout_Inr [of operation None l _ l']
    by (auto simp: receive_frame_def same_traffic_def)
next
  case (Cons a rest)
  obtain took x where a: "a = (took, x)" by (cases a)
  obtain r1 l1 where e: "exchange_timeout operation (Some (took, x)) l = (r1, l1)" by fastforce
  show ?thesis
    using assms exchange_timeout_same_traffic [OF e] e exchange_timeout_Inr [of operation "Some (took, x)" l _ l1]
    by (cases r1) (auto simp: receive_frame_def same_traffic_def Cons a bindX_def)
qed

lemmas receive_frame_Inr = receive_frame_traffic [where r = "Inr _", simplified]

lemma write_body_traffic:
  assumes "write_body operation body l = (r, l')"
  shows "lk_inbound l' = lk_inbound l \<and> lk_deadline l' = lk_deadline l \<and>
    (case r of Inr _ \<Rightarrow> fits_body body \<and> lk_sent l' = lk_sent l @ [body] | Inl _ \<Rightarrow> lk_sent l' = lk_sent l)"
proof (cases "fits_body body")
  case False
  then show ?thesis
    using assms by (auto simp: write_body_def write_frame_def fits_body_def split: if_splits)
next
  case fits: True
  show ?thesis
  proof (cases "lk_writes l")
    case Nil
    then show ?thesis
      using assms fits exchange_timeout_same_traffic [of operation None l r l'] exchange_timeout_Inr [of operation None l _ l']
      by (auto simp: write_body_def write_frame_eq same_traffic_def split: sum.splits)
  next
    case (Cons a rest)
    obtain took x where a: "a = (took, x)" by (cases a)
    obtain r1 l1 where e: "exchange_timeout operation (Some (took, x)) l = (r1, l1)" by fastforce
    show ?thesis
      using assms fits exchange_timeout_same_traffic [OF e] e
      by (cases r1; cases x)
        (auto simp: write_body_def write_frame_eq same_traffic_def Cons a bindX_def
          dest!: exchange_timeout_Inr split: sum.splits)
  qed
qed

text \<open>The frames taken from the connection decode to \<open>ms\<close>.\<close>

definition took_messages :: "(bytes \<Rightarrow> string + 'm) \<Rightarrow> link \<Rightarrow> 'm list \<Rightarrow> link \<Rightarrow> bool" where
  "took_messages dec l ms l' \<longleftrightarrow>
     (\<exists>as. lk_inbound l = as @ lk_inbound l' \<and>
        list_all2 (\<lambda>(took, r) m. \<exists>frame. r = Inr frame \<and> dec frame = Inr m) as ms)"

lemma took_messages_Nil [simp]: "took_messages dec l [] l' \<longleftrightarrow> lk_inbound l' = lk_inbound l"
  by (auto simp: took_messages_def)

lemma took_messages_append:
  assumes "took_messages dec l ms l'" "took_messages dec l' ms' l''"
  shows "took_messages dec l (ms @ ms') l''"
proof -
  from assms obtain as as' where
    "lk_inbound l = as @ lk_inbound l'" "lk_inbound l' = as' @ lk_inbound l''"
    and "list_all2 (\<lambda>(took, r) m. \<exists>frame. r = Inr frame \<and> dec frame = Inr m) as ms"
    and "list_all2 (\<lambda>(took, r) m. \<exists>frame. r = Inr frame \<and> dec frame = Inr m) as' ms'"
    by (auto simp: took_messages_def)
  then show ?thesis
    unfolding took_messages_def by (intro exI [of _ "as @ as'"]) (simp add: list_all2_appendI)
qed

lemma took_messages_inbound:
  "took_messages dec l ms l' \<Longrightarrow> lk_inbound l'' = lk_inbound l' \<Longrightarrow> took_messages dec l ms l''"
  by (simp add: took_messages_def)

lemma receive_frame_took:
  assumes "receive_frame operation l = (Inr frame, l')" and "dec frame = Inr m"
  shows "took_messages dec l [m] l'"
  using receive_frame_traffic [OF assms(1)] assms(2) by (force simp: took_messages_def)

subsection \<open>What an exchange sends\<close>

text \<open>An exchange sends the bodies \<open>bs\<close> when it succeeds, and some first ones of them when it fails.\<close>

definition sends :: "'a exchange \<Rightarrow> bytes list \<Rightarrow> bool" where
  "sends m bs \<longleftrightarrow>
     (\<forall>l r l'. m l = (r, l') \<longrightarrow>
        (\<exists>out. lk_sent l' = lk_sent l @ out \<and> prefix out bs \<and> (\<not> isl r \<longrightarrow> out = bs)))"

named_theorems sends_rules \<open>what the primitives of an exchange send\<close>

lemma sends_pure [sends_rules]: "sends (returnX a) []" "sends (liftX r) []"
  by (auto simp: sends_def returnX_def liftX_def)

lemma sends_receive_frame [sends_rules]: "sends (receive_frame operation) []"
  by (auto simp: sends_def dest: receive_frame_traffic)

lemma sends_write_body [sends_rules]: "sends (write_body operation body) [body]"
  unfolding sends_def
proof (intro allI impI)
  fix l r l'
  assume "write_body operation body l = (r, l')"
  from write_body_traffic [OF this]
  show "\<exists>out. lk_sent l' = lk_sent l @ out \<and> prefix out [body] \<and> (\<not> isl r \<longrightarrow> out = [body])"
    by (cases r) auto
qed

lemma sends_bindX:
  assumes "sends m bs" and "\<And>a. sends (f a) bs'"
  shows "sends (bindX m f) (bs @ bs')"
  unfolding sends_def
proof (intro allI impI)
  fix l r l'
  assume run: "bindX m f l = (r, l')"
  obtain r1 l1 where m: "m l = (r1, l1)" by fastforce
  with assms(1) obtain out where out: "lk_sent l1 = lk_sent l @ out" "prefix out bs" "\<not> isl r1 \<longrightarrow> out = bs"
    unfolding sends_def by blast
  show "\<exists>out. lk_sent l' = lk_sent l @ out \<and> prefix out (bs @ bs') \<and> (\<not> isl r \<longrightarrow> out = bs @ bs')"
  proof (cases r1)
    case (Inl e)
    with run m out show ?thesis by (auto simp: bindX_def)
  next
    case (Inr a)
    with run m have "f a l1 = (r, l')" by (simp add: bindX_def)
    with assms(2) [of a] obtain out' where "lk_sent l' = lk_sent l1 @ out'" "prefix out' bs'" "\<not> isl r \<longrightarrow> out' = bs'"
      unfolding sends_def by blast
    with out Inr show ?thesis by auto
  qed
qed

lemma sends_silent_bindX: "sends m [] \<Longrightarrow> (\<And>a. sends (f a) bs) \<Longrightarrow> sends (bindX m f) bs"
  using sends_bindX [of m "[]" f bs] by simp

lemma sends_write_bindX: "sends m [b] \<Longrightarrow> (\<And>a. sends (f a) bs) \<Longrightarrow> sends (bindX m f) (b # bs)"
  using sends_bindX [of m "[b]" f bs] by simp

subsection \<open>Deadlines\<close>

text \<open>Inside \<open>timeout\<close> the clock never passes the deadline, however the exchange ends.\<close>

definition in_time :: "link \<Rightarrow> bool" where
  "in_time l \<longleftrightarrow> (\<forall>d operation. lk_deadline l = Some (d, operation) \<longrightarrow> lk_clock l \<le> d)"

definition keeps_time :: "'a exchange \<Rightarrow> bool" where
  "keeps_time m \<longleftrightarrow> (\<forall>l r l'. m l = (r, l') \<longrightarrow> in_time l \<longrightarrow>
     in_time l' \<and> lk_deadline l' = lk_deadline l \<and> lk_clock l \<le> lk_clock l')"

named_theorems keeps_time_rules \<open>exchanges that respect the deadline\<close>

lemma keeps_time_pure [keeps_time_rules]: "keeps_time (returnX a)" "keeps_time (liftX r)"
  by (auto simp: keeps_time_def returnX_def liftX_def)

lemma keeps_time_bindX [keeps_time_rules]:
  assumes "keeps_time m" and "\<And>a. keeps_time (f a)"
  shows "keeps_time (bindX m f)"
  unfolding keeps_time_def
proof (intro allI impI)
  fix l r l'
  assume run: "bindX m f l = (r, l')" and "in_time l"
  obtain r1 l1 where m: "m l = (r1, l1)" by fastforce
  with assms(1) \<open>in_time l\<close> have l1: "in_time l1 \<and> lk_deadline l1 = lk_deadline l \<and> lk_clock l \<le> lk_clock l1"
    by (auto simp: keeps_time_def)
  show "in_time l' \<and> lk_deadline l' = lk_deadline l \<and> lk_clock l \<le> lk_clock l'"
  proof (cases r1)
    case (Inl e)
    with run m l1 show ?thesis by (simp add: bindX_def)
  next
    case (Inr a)
    with run m have "f a l1 = (r, l')" by (simp add: bindX_def)
    with assms(2) [of a] l1 show ?thesis by (fastforce simp: keeps_time_def)
  qed
qed

lemma keeps_time_if [keeps_time_rules]:
  "keeps_time m \<Longrightarrow> keeps_time m' \<Longrightarrow> keeps_time (if b then m else m')"
  by simp

lemma keeps_time_option [keeps_time_rules]:
  "keeps_time m \<Longrightarrow> (\<And>a. keeps_time (f a)) \<Longrightarrow> keeps_time (case x of None \<Rightarrow> m | Some a \<Rightarrow> f a)"
  by (cases x) simp_all

lemma keeps_time_pair [keeps_time_rules]:
  "(\<And>a b. keeps_time (f a b)) \<Longrightarrow> keeps_time (case p of (a, b) \<Rightarrow> f a b)"
  by (cases p) simp

lemma exchange_timeout_in_time:
  "exchange_timeout operation c l = (r, l') \<Longrightarrow> in_time l \<Longrightarrow> in_time l' \<and> lk_clock l \<le> lk_clock l'"
  by (auto simp: exchange_timeout_def advance_def in_time_def split: option.splits if_splits)

lemma keeps_time_receive_frame [keeps_time_rules]: "keeps_time (receive_frame operation)"
  unfolding keeps_time_def
proof (intro allI impI)
  fix l r l'
  assume run: "receive_frame operation l = (r, l')" and l: "in_time l"
  show "in_time l' \<and> lk_deadline l' = lk_deadline l \<and> lk_clock l \<le> lk_clock l'"
  proof (cases "lk_inbound l")
    case Nil
    with run l show ?thesis
      using exchange_timeout_in_time exchange_timeout_same_traffic
      by (fastforce simp: receive_frame_def same_traffic_def)
  next
    case (Cons a rest)
    obtain took x where a: "a = (took, x)" by (cases a)
    obtain r1 l1 where e: "exchange_timeout operation (Some (took, x)) l = (r1, l1)" by fastforce
    show ?thesis
      using run exchange_timeout_in_time [OF e l] exchange_timeout_same_traffic [OF e] e
      by (cases r1) (auto simp: receive_frame_def Cons a bindX_def same_traffic_def in_time_def)
  qed
qed

lemma keeps_time_write_body [keeps_time_rules]: "keeps_time (write_body operation body)"
  unfolding keeps_time_def
proof (intro allI impI)
  fix l r l'
  assume run: "write_body operation body l = (r, l')" and l: "in_time l"
  show "in_time l' \<and> lk_deadline l' = lk_deadline l \<and> lk_clock l \<le> lk_clock l'"
  proof (cases "write_frame body")
    case (Inl e)
    with run l show ?thesis by (simp add: write_body_def)
  next
    case f: (Inr w)
    show ?thesis
    proof (cases "lk_writes l")
      case Nil
      with run l f show ?thesis
        using exchange_timeout_in_time exchange_timeout_same_traffic
        by (fastforce simp: write_body_def same_traffic_def)
    next
      case (Cons a rest)
      obtain took x where a: "a = (took, x)" by (cases a)
      obtain r1 l1 where e: "exchange_timeout operation (Some (took, x)) l = (r1, l1)" by fastforce
      show ?thesis
        using run exchange_timeout_in_time [OF e l] exchange_timeout_same_traffic [OF e] e f
        by (cases r1) (auto simp: write_body_def Cons a bindX_def same_traffic_def in_time_def split: sum.splits)
    qed
  qed
qed

lemma with_deadline_in_time:
  assumes "keeps_time m" and "with_deadline d operation m l = (r, l')"
  shows "lk_clock l \<le> lk_clock l' \<and> lk_clock l' \<le> lk_clock l + d"
proof -
  let ?l = "l\<lparr>lk_deadline := Some (lk_clock l + d, operation)\<rparr>"
  obtain r1 l1 where m: "m ?l = (r1, l1)" by fastforce
  have "in_time ?l" by (simp add: in_time_def)
  with m assms(1) have "in_time l1 \<and> lk_deadline l1 = lk_deadline ?l \<and> lk_clock ?l \<le> lk_clock l1"
    unfolding keeps_time_def by blast
  with m assms(2) show ?thesis by (auto simp: with_deadline_def in_time_def)
qed

subsection \<open>A prompt connection\<close>

text \<open>
  Every read and write ends within the exchange timeout, every write succeeds, and everything
  there is to read and write fits before the deadline. On such a connection each step succeeds
  when its frame is there, and the connection stays prompt.
\<close>

definition prompt :: "link \<Rightarrow> bool" where
  "prompt l \<longleftrightarrow>
     list_all (\<lambda>(took, r). took \<le> EXCHANGE_TIMEOUT) (lk_inbound l) \<and>
     list_all (\<lambda>(took, r). took \<le> EXCHANGE_TIMEOUT \<and> r = Inr ()) (lk_writes l) \<and>
     (\<forall>d operation. lk_deadline l = Some (d, operation) \<longrightarrow>
        lk_clock l + sum_list (map fst (lk_inbound l)) + sum_list (map fst (lk_writes l)) \<le> d)"

lemma receive_frame_prompt:
  assumes "prompt l" and "lk_inbound l = (took, Inr frame) # rest"
  shows "\<exists>l'. receive_frame operation l = (Inr frame, l') \<and> prompt l' \<and> lk_inbound l' = rest \<and>
    lk_writes l' = lk_writes l \<and> lk_sent l' = lk_sent l"
  using assms
  by (auto simp: receive_frame_def bindX_def exchange_timeout_def advance_def prompt_def from_io_def
      split: option.splits)

lemma write_body_prompt:
  assumes "prompt l" and "lk_writes l \<noteq> []" and "fits_body body"
  shows "\<exists>l'. write_body operation body l = (Inr (), l') \<and> prompt l' \<and> lk_inbound l' = lk_inbound l \<and>
    lk_writes l' = tl (lk_writes l) \<and> lk_sent l' = lk_sent l @ [body]"
  using assms
  by (cases "lk_writes l")
    (auto simp: write_body_def write_frame_eq bindX_def exchange_timeout_def advance_def prompt_def
      split: option.splits)

text \<open>
  A prompt connection that will deliver the messages \<open>ms\<close> and take the bodies \<open>out\<close>.
\<close>

definition ready :: "(bytes \<Rightarrow> string + 'm) \<Rightarrow> link \<Rightarrow> 'm list \<Rightarrow> bytes list \<Rightarrow> bool" where
  "ready dec l ms out \<longleftrightarrow>
     prompt l \<and>
     (\<exists>as rest. lk_inbound l = map (\<lambda>(took, frame). (took, Inr frame)) as @ rest \<and>
        map (\<lambda>a. dec (snd a)) as = map Inr ms) \<and>
     list_all fits_body out \<and> length out \<le> length (lk_writes l)"

lemma ready_receive:
  assumes "ready dec l (m # ms) out"
  shows "\<exists>frame l'. receive_frame operation l = (Inr frame, l') \<and> dec frame = Inr m \<and> ready dec l' ms out \<and>
    lk_sent l' = lk_sent l"
proof -
  from assms obtain took frame as rest where
    "prompt l" "lk_inbound l = (took, Inr frame) # map (\<lambda>(took, frame). (took, Inr frame)) as @ rest"
    "dec frame = Inr m" "map (\<lambda>a. dec (snd a)) as = map Inr ms" "list_all fits_body out"
    "length out \<le> length (lk_writes l)"
    by (fastforce simp: ready_def)
  with receive_frame_prompt [OF this(1,2), of operation] show ?thesis
    by (fastforce simp: ready_def)
qed

lemma ready_write:
  assumes "ready dec l ms (body # out)"
  shows "\<exists>l'. write_body operation body l = (Inr (), l') \<and> ready dec l' ms out \<and>
    lk_sent l' = lk_sent l @ [body]"
proof -
  from assms have "prompt l" "lk_writes l \<noteq> []" "fits_body body" by (auto simp: ready_def)
  from write_body_prompt [OF this, of operation] assms show ?thesis
    by (fastforce simp: ready_def)
qed

end
