(* ===== verification/Atv_Remote.thy ===== *)
theory Atv_Remote
  imports Atv_Exchange
begin

text \<open>
  Android TV Remote Service (\<open>src/android_tv/remote_types.rs\<close>, \<open>proto.rs\<close>, \<open>remote_session.rs\<close>
  and \<open>remote.rs\<close>): the capabilities and the metadata with their checks, the messages, the
  handshake, the task that owns the connection, and the operations of the handle. The derived
  protobuf codec is a parameter, a decoder and an encoder of messages.
\<close>

subsection \<open>Capabilities, metadata and keys\<close>

type_synonym remote_features = u32

definition PING :: remote_features where "PING = push_bit 0 1"
definition KEY :: remote_features where "KEY = push_bit 1 1"
definition POWER :: remote_features where "POWER = push_bit 5 1"
definition VOLUME :: remote_features where "VOLUME = push_bit 6 1"

definition contains :: "remote_features \<Rightarrow> remote_features \<Rightarrow> bool" where
  "contains self feature \<longleftrightarrow> self AND feature = feature"

definition IMPLEMENTED_FEATURES :: remote_features where
  "IMPLEMENTED_FEATURES = PING OR KEY OR POWER OR VOLUME"

definition MAX_CLIENT_TEXT_BYTES :: nat where "MAX_CLIENT_TEXT_BYTES = 128"
definition MAX_DEVICE_TEXT_BYTES :: nat where "MAX_DEVICE_TEXT_BYTES = 256"

definition validate_client_text :: "string \<Rightarrow> string \<Rightarrow> atv_error + unit" where
  "validate_client_text field text =
     ensure (text \<noteq> [] \<and> length text \<le> MAX_CLIENT_TEXT_BYTES \<and> no_control text)
       (InvalidClientInfo (field @ '' must be 1..=128 bytes without control characters''))"

record remote_client_info =
  ci_model :: string
  ci_vendor :: string
  ci_package_name :: string
  ci_app_version :: string

definition client_info_new :: "string \<Rightarrow> string \<Rightarrow> string \<Rightarrow> string \<Rightarrow> atv_error + remote_client_info" where
  "client_info_new model vendor package_name app_version =
     bindE (validate_client_text ''model'' model) (\<lambda>_.
     bindE (validate_client_text ''vendor'' vendor) (\<lambda>_.
     bindE (validate_client_text ''package name'' package_name) (\<lambda>_.
     bindE (validate_client_text ''application version'' app_version) (\<lambda>_.
       Inr \<lparr>ci_model = model, ci_vendor = vendor, ci_package_name = package_name,
            ci_app_version = app_version\<rparr>))))"

record tv_device_info =
  di_model :: string
  di_vendor :: string
  di_service_version :: string

record tv_volume =
  tv_level :: u32
  tv_maximum :: u32
  tv_muted :: bool

datatype remote_event =
    PowerChanged bool
  | VolumeChanged tv_volume
  | Disconnected "string option"

type_synonym key_code = i32

definition KEYCODE_POWER :: key_code where "KEYCODE_POWER = 26"
definition KEYCODE_SLEEP :: key_code where "KEYCODE_SLEEP = 223"
definition KEYCODE_WAKEUP :: key_code where "KEYCODE_WAKEUP = 224"

definition key_code_from_raw :: "u16 \<Rightarrow> key_code" where
  "key_code_from_raw v = ucast v"

definition key_code_raw :: "key_code \<Rightarrow> u16" where
  "key_code_raw k = ucast k"

datatype key_action = Down | Up | Press

primrec protocol_value :: "key_action \<Rightarrow> i32" where
  "protocol_value Down = 1"
| "protocol_value Up = 2"
| "protocol_value Press = 3"

subsection \<open>Messages\<close>

record remote_device_info =
  rd_model :: string
  rd_vendor :: string
  rd_unknown_one :: i32
  rd_unknown_two :: string
  rd_package_name :: string
  rd_app_version :: string

record remote_configure =
  rc_features :: i32
  rc_device_info :: "remote_device_info option"

record remote_ping_request =
  pq_value :: i32
  pq_auxiliary_value :: i32

record remote_key_inject =
  ki_key_code :: i32
  ki_direction :: i32

record remote_volume =
  rv_maximum :: u32
  rv_level :: u32
  rv_muted :: bool

text \<open>The messages with a single field (\<open>RemoteSetActive\<close>, \<open>RemoteError\<close>, \<open>RemotePingResponse\<close> and
  \<open>RemoteStart\<close>) are that field.\<close>

record remote_message =
  rm_configure :: "remote_configure option"
  rm_set_active :: "i32 option"
  rm_error :: "bool option"
  rm_ping_request :: "remote_ping_request option"
  rm_ping_response :: "i32 option"
  rm_key_inject :: "remote_key_inject option"
  rm_start :: "bool option"
  rm_volume :: "remote_volume option"

definition remote_message_default :: remote_message where
  "remote_message_default =
     \<lparr>rm_configure = None, rm_set_active = None, rm_error = None, rm_ping_request = None,
      rm_ping_response = None, rm_key_inject = None, rm_start = None, rm_volume = None\<rparr>"

type_synonym remote_decoder = "bytes \<Rightarrow> string + remote_message"
type_synonym remote_encoder = "remote_message \<Rightarrow> bytes"

definition device_text_ok :: "string \<Rightarrow> bool" where
  "device_text_ok text \<longleftrightarrow> length text \<le> MAX_DEVICE_TEXT_BYTES \<and> no_control text"

definition validated_device_info :: "remote_device_info \<Rightarrow> atv_error + tv_device_info" where
  "validated_device_info info =
     bindE (ensure (device_text_ok (rd_model info)) (protocol_error ''device model is invalid'')) (\<lambda>_.
     bindE (ensure (device_text_ok (rd_vendor info)) (protocol_error ''device vendor is invalid'')) (\<lambda>_.
     bindE (ensure (device_text_ok (rd_app_version info))
              (protocol_error ''device service version is invalid'')) (\<lambda>_.
       Inr \<lparr>di_model = rd_model info, di_vendor = rd_vendor info,
            di_service_version = rd_app_version info\<rparr>)))"

definition validated_volume :: "remote_volume \<Rightarrow> atv_error + tv_volume" where
  "validated_volume v =
     (if rv_maximum v = 0 \<or> rv_maximum v < rv_level v
      then Inl (protocol_error ''device volume state is invalid'')
      else Inr \<lparr>tv_level = rv_level v, tv_maximum = rv_maximum v, tv_muted = rv_muted v\<rparr>)"

subsection \<open>Handshake\<close>

definition HANDSHAKE_TIMEOUT :: duration where "HANDSHAKE_TIMEOUT = from_secs 10"
definition MAX_HANDSHAKE_MESSAGES :: nat where "MAX_HANDSHAKE_MESSAGES = 32"

definition read_remote :: "remote_decoder \<Rightarrow> string \<Rightarrow> remote_message exchange" where
  "read_remote dec operation =
     bindX (receive_frame operation) (\<lambda>frame. liftX
       (case dec frame of
          Inl e \<Rightarrow> Inl (protocol_error (''decode '' @ operation @ '': '' @ e))
        | Inr m \<Rightarrow> Inr m))"

definition write_remote :: "remote_encoder \<Rightarrow> remote_message \<Rightarrow> string \<Rightarrow> unit exchange" where
  "write_remote enc m operation = write_body operation (enc m)"

definition ping_response :: "i32 \<Rightarrow> remote_message" where
  "ping_response v = remote_message_default\<lparr>rm_ping_response := Some v\<rparr>"

definition answer_ping :: "remote_encoder \<Rightarrow> i32 \<Rightarrow> unit exchange" where
  "answer_ping enc v = write_remote enc (ping_response v) ''ping response''"

fun wait_for_handshake_loop ::
  "remote_decoder \<Rightarrow> remote_encoder \<Rightarrow> (remote_message \<Rightarrow> 'a option) \<Rightarrow> string \<Rightarrow> nat \<Rightarrow>
     tv_volume option \<Rightarrow> ('a \<times> tv_volume option) exchange" where
  "wait_for_handshake_loop dec enc select expected 0 volume =
     liftX (Inl (protocol_error (''too many messages while waiting for '' @ expected)))"
| "wait_for_handshake_loop dec enc select expected (Suc n) volume =
     bindX (read_remote dec expected) (\<lambda>m.
       if rm_error m = Some True
       then liftX (Inl (protocol_error (''device returned an error while waiting for '' @ expected)))
       else
         bindX (case rm_ping_request m of None \<Rightarrow> returnX () | Some r \<Rightarrow> answer_ping enc (pq_value r)) (\<lambda>_.
         bindX (case rm_volume m of
                  None \<Rightarrow> returnX volume
                | Some v \<Rightarrow> liftX (bindE (validated_volume v) (\<lambda>t. Inr (Some t)))) (\<lambda>volume.
           case select m of
             Some x \<Rightarrow> returnX (x, volume)
           | None \<Rightarrow> wait_for_handshake_loop dec enc select expected n volume)))"

definition wait_for_handshake_message ::
  "remote_decoder \<Rightarrow> remote_encoder \<Rightarrow> tv_volume option \<Rightarrow> (remote_message \<Rightarrow> 'a option) \<Rightarrow> string \<Rightarrow>
     ('a \<times> tv_volume option) exchange" where
  "wait_for_handshake_message dec enc volume select expected =
     wait_for_handshake_loop dec enc select expected MAX_HANDSHAKE_MESSAGES volume"

record handshake_result =
  hs_device_info :: tv_device_info
  hs_features :: remote_features
  hs_powered_on :: bool
  hs_volume :: "tv_volume option"

definition configure_reply :: "remote_client_info \<Rightarrow> remote_features \<Rightarrow> remote_message" where
  "configure_reply ci features =
     remote_message_default\<lparr>rm_configure := Some
       \<lparr>rc_features = features,
        rc_device_info = Some
          \<lparr>rd_model = ci_model ci, rd_vendor = ci_vendor ci, rd_unknown_one = 1, rd_unknown_two = ''1'',
           rd_package_name = ci_package_name ci, rd_app_version = ci_app_version ci\<rparr>\<rparr>\<rparr>"

definition set_active_reply :: "remote_features \<Rightarrow> remote_message" where
  "set_active_reply features = remote_message_default\<lparr>rm_set_active := Some features\<rparr>"

definition perform_handshake ::
  "remote_decoder \<Rightarrow> remote_encoder \<Rightarrow> remote_client_info \<Rightarrow> handshake_result exchange" where
  "perform_handshake dec enc ci =
     bindX (wait_for_handshake_message dec enc None rm_configure ''configuration'') (\<lambda>(configure, volume).
       let features = rc_features configure AND IMPLEMENTED_FEATURES
       in bindX (liftX (bindE (ok_or (rc_device_info configure)
                    (protocol_error ''RemoteConfigure omitted device information'')) validated_device_info)) (\<lambda>device_info.
          bindX (write_remote enc (configure_reply ci features) ''configuration reply'') (\<lambda>_.
          bindX (wait_for_handshake_message dec enc volume rm_set_active ''set-active request'') (\<lambda>(_, volume).
          bindX (write_remote enc (set_active_reply features) ''set-active reply'') (\<lambda>_.
          bindX (wait_for_handshake_message dec enc volume rm_start ''remote-start notification'') (\<lambda>(powered_on, volume).
            returnX \<lparr>hs_device_info = device_info, hs_features = features, hs_powered_on = powered_on,
                     hs_volume = volume\<rparr>))))))"

definition remote_handshake ::
  "remote_decoder \<Rightarrow> remote_encoder \<Rightarrow> remote_client_info \<Rightarrow> handshake_result exchange" where
  "remote_handshake dec enc ci =
     with_deadline HANDSHAKE_TIMEOUT ''Remote Service handshake'' (perform_handshake dec enc ci)"

subsection \<open>The task that owns the connection\<close>

text \<open>
  The task's state: the connection, the two watched values, the events it broadcast and the
  replies it gave, each with the response channel of its caller. The inputs are what its
  \<open>select\<close> takes: a frame or a failed read, a command, or the end of the command channel. The
  outcome of a shutdown comes with the input that leads to it.
\<close>

datatype shutdown_outcome = ShutDown | ShutdownFailed io_fault | ShutdownTimeout

datatype remote_command = Key key_code key_action nat | Close nat

datatype remote_input =
    Inbound "io_fault + bytes"
  | Command remote_command shutdown_outcome
  | CommandsClosed

record remote_state =
  rs_link :: link
  rs_power :: bool
  rs_volume :: "tv_volume option"
  rs_events :: "remote_event list"
  rs_replies :: "(nat \<times> (atv_error + unit)) list"

definition publish_power :: "bool \<Rightarrow> remote_state \<Rightarrow> remote_state" where
  "publish_power on s = s\<lparr>rs_power := on, rs_events := rs_events s @ [PowerChanged on]\<rparr>"

definition publish_volume :: "tv_volume \<Rightarrow> remote_state \<Rightarrow> remote_state" where
  "publish_volume v s = s\<lparr>rs_volume := Some v, rs_events := rs_events s @ [VolumeChanged v]\<rparr>"

definition handle_inbound ::
  "remote_encoder \<Rightarrow> remote_message \<Rightarrow> remote_state \<Rightarrow> (atv_error + unit) \<times> remote_state" where
  "handle_inbound enc m s =
     (if rm_error m = Some True then (Inl (protocol_error ''device returned RemoteError''), s)
      else
        case (case rm_ping_request m of None \<Rightarrow> returnX () | Some r \<Rightarrow> answer_ping enc (pq_value r)) (rs_link s) of
          (Inl e, l) \<Rightarrow> (Inl e, s\<lparr>rs_link := l\<rparr>)
        | (Inr _, l) \<Rightarrow>
            let s1 = s\<lparr>rs_link := l\<rparr>;
                s2 = (case rm_start m of None \<Rightarrow> s1 | Some on \<Rightarrow> publish_power on s1)
            in case rm_volume m of
                 None \<Rightarrow> (Inr (), s2)
               | Some v \<Rightarrow>
                   (case validated_volume v of
                      Inl e \<Rightarrow> (Inl e, s2)
                    | Inr current \<Rightarrow> (Inr (), publish_volume current s2)))"

definition key_message :: "key_code \<Rightarrow> key_action \<Rightarrow> remote_message" where
  "key_message key_code action =
     remote_message_default\<lparr>rm_key_inject :=
       Some \<lparr>ki_key_code = key_code, ki_direction = protocol_value action\<rparr>\<rparr>"

definition reply :: "nat \<Rightarrow> atv_error + unit \<Rightarrow> remote_state \<Rightarrow> remote_state" where
  "reply channel r s = s\<lparr>rs_replies := rs_replies s @ [(channel, r)]\<rparr>"

text \<open>A turn of the loop goes on, or the task returns.\<close>

datatype turn = Continue remote_state | Return "atv_error + unit" remote_state

definition inbound_arm :: "remote_decoder \<Rightarrow> remote_encoder \<Rightarrow> io_fault + bytes \<Rightarrow> remote_state \<Rightarrow> turn" where
  "inbound_arm dec enc r s =
     (case r of
        Inl e \<Rightarrow> Return (Inl (Io e)) s
      | Inr frame \<Rightarrow>
          (case dec frame of
             Inl e \<Rightarrow> Return (Inl (protocol_error (''decode remote message: '' @ e))) s
           | Inr m \<Rightarrow>
               (case handle_inbound enc m s of
                  (Inl e, s') \<Rightarrow> Return (Inl e) s'
                | (Inr _, s') \<Rightarrow> Continue s')))"

definition remote_command_arm ::
  "remote_encoder \<Rightarrow> remote_command \<Rightarrow> shutdown_outcome \<Rightarrow> remote_state \<Rightarrow> turn" where
  "remote_command_arm enc command outcome s =
     (case command of
        Key key_code action channel \<Rightarrow>
          (case write_remote enc (key_message key_code action) ''key injection'' (rs_link s) of
             (r, l) \<Rightarrow>
               let s' = reply channel r (s\<lparr>rs_link := l\<rparr>)
               in if isl r then Return (Inl ConnectionClosed) s' else Continue s')
      | Close channel \<Rightarrow>
          (case outcome of
             ShutdownTimeout \<Rightarrow> Return (Inl (TimedOut ''connection shutdown'')) s
           | ShutdownFailed e \<Rightarrow> Return (Inl ConnectionClosed) (reply channel (Inl (Io e)) s)
           | ShutDown \<Rightarrow> Return (Inr ()) (reply channel (Inr ()) s)))"

definition remote_turn :: "remote_decoder \<Rightarrow> remote_encoder \<Rightarrow> remote_input \<Rightarrow> remote_state \<Rightarrow> turn" where
  "remote_turn dec enc i s =
     (case i of
        Inbound r \<Rightarrow> inbound_arm dec enc r s
      | Command c outcome \<Rightarrow> remote_command_arm enc c outcome s
      | CommandsClosed \<Rightarrow> Return (Inr ()) s)"

text \<open>The loop over the inputs; \<open>None\<close> is a task that still runs after the last of them.\<close>

fun run_remote ::
  "remote_decoder \<Rightarrow> remote_encoder \<Rightarrow> remote_input list \<Rightarrow> remote_state \<Rightarrow>
     (atv_error + unit) option \<times> remote_state \<times> remote_input list" where
  "run_remote dec enc [] s = (None, s, [])"
| "run_remote dec enc (i # is) s =
     (case remote_turn dec enc i s of
        Continue s' \<Rightarrow> run_remote dec enc is s'
      | Return r s' \<Rightarrow> (Some r, s', is))"

definition disconnected :: "atv_error + unit \<Rightarrow> remote_event" where
  "disconnected r = Disconnected (case r of Inl e \<Rightarrow> Some (atv_error_display e) | Inr _ \<Rightarrow> None)"

definition remote_session_of :: "handshake_result \<Rightarrow> link \<Rightarrow> remote_state" where
  "remote_session_of hs l =
     \<lparr>rs_link = l, rs_power = hs_powered_on hs, rs_volume = hs_volume hs, rs_events = [], rs_replies = []\<rparr>"

text \<open>The spawned task: the loop, then the final event.\<close>

definition remote_task ::
  "remote_decoder \<Rightarrow> remote_encoder \<Rightarrow> remote_input list \<Rightarrow> remote_state \<Rightarrow>
     (atv_error + unit) option \<times> remote_state \<times> remote_input list" where
  "remote_task dec enc is s =
     (case run_remote dec enc is s of
        (None, s', rest) \<Rightarrow> (None, s', rest)
      | (Some r, s', rest) \<Rightarrow> (Some r, s'\<lparr>rs_events := rs_events s' @ [disconnected r]\<rparr>, rest))"

subsection \<open>The handle\<close>

record remote_handle =
  rh_device_info :: tv_device_info
  rh_features :: remote_features

definition handle_of :: "handshake_result \<Rightarrow> remote_handle" where
  "handle_of hs = \<lparr>rh_device_info = hs_device_info hs, rh_features = hs_features hs\<rparr>"

text \<open>
  An operation of the handle fails at once, or hands the task a command that carries its own
  response channel and waits: the command is refused because the task is gone, the channel is
  dropped without an answer, or the answer comes.
\<close>

datatype key_wait = NotAccepted | Dropped | Replied "atv_error + unit"

datatype remote_call = Failed_Call atv_error | Issue "nat \<Rightarrow> remote_command" "key_wait \<Rightarrow> atv_error + unit"

definition command_result :: "key_wait \<Rightarrow> atv_error + unit" where
  "command_result w =
     (case w of NotAccepted \<Rightarrow> Inl ConnectionClosed | Dropped \<Rightarrow> Inl ConnectionClosed | Replied r \<Rightarrow> r)"

definition require_feature :: "remote_handle \<Rightarrow> remote_features \<Rightarrow> string \<Rightarrow> atv_error + unit" where
  "require_feature h feature name = ensure (contains (rh_features h) feature) (UnsupportedFeature name)"

definition send_key :: "remote_handle \<Rightarrow> key_code \<Rightarrow> key_action \<Rightarrow> remote_call" where
  "send_key h key_code action =
     (case require_feature h KEY ''key injection'' of
        Inl e \<Rightarrow> Failed_Call e
      | Inr _ \<Rightarrow> Issue (Key key_code action) command_result)"

definition press_key :: "remote_handle \<Rightarrow> key_code \<Rightarrow> remote_call" where
  "press_key h key_code = send_key h key_code Press"

definition press_wake_key :: "remote_handle \<Rightarrow> remote_call" where
  "press_wake_key h =
     (case require_feature h POWER ''power'' of
        Inl e \<Rightarrow> Failed_Call e | Inr _ \<Rightarrow> press_key h KEYCODE_WAKEUP)"

definition press_sleep_key :: "remote_handle \<Rightarrow> remote_call" where
  "press_sleep_key h =
     (case require_feature h POWER ''power'' of
        Inl e \<Rightarrow> Failed_Call e | Inr _ \<Rightarrow> press_key h KEYCODE_SLEEP)"

definition press_power_key :: "remote_handle \<Rightarrow> remote_call" where
  "press_power_key h =
     (case require_feature h POWER ''power'' of
        Inl e \<Rightarrow> Failed_Call e | Inr _ \<Rightarrow> press_key h KEYCODE_POWER)"

text \<open>Closing waits for the answer and then for the task itself, whose join can fail. The reply
  that is dropped ends the call before the task is joined.\<close>

definition close_result :: "key_wait \<Rightarrow> string + (atv_error + unit) \<Rightarrow> atv_error + unit" where
  "close_result w joined =
     (case w of
        Dropped \<Rightarrow> Inl ConnectionClosed
      | _ \<Rightarrow>
          (case joined of
             Inl e \<Rightarrow> Inl (Connection (''join remote task: '' @ e))
           | Inr task_result \<Rightarrow> bindE (command_result w) (\<lambda>_. task_result)))"

end
