(* ===== verification/Atv_Remote_Correct.thy ===== *)
theory Atv_Remote_Correct
  imports Atv_Remote
begin

text \<open>
  The Remote Service session is correct: the handshake succeeds exactly after the three messages
  it waits for and leaves the negotiated capabilities, the task answers every ping and every
  caller and publishes valid state only, and the handle injects keys only when both sides
  support it.
\<close>

subsection \<open>What the waiting loop read and wrote\<close>

definition pongs :: "remote_encoder \<Rightarrow> remote_message list \<Rightarrow> bytes list" where
  "pongs enc ms =
     concat (map (\<lambda>m. case rm_ping_request m of None \<Rightarrow> [] | Some r \<Rightarrow> [enc (ping_response (pq_value r))]) ms)"

definition tv_volume_ok :: "tv_volume \<Rightarrow> bool" where
  "tv_volume_ok v \<longleftrightarrow> 0 < tv_maximum v \<and> tv_level v \<le> tv_maximum v"

text \<open>A message the client can go on after, and the volume it has seen last.\<close>

definition acceptable :: "remote_message \<Rightarrow> bool" where
  "acceptable m \<longleftrightarrow> rm_error m \<noteq> Some True \<and>
     (\<forall>v. rm_volume m = Some v \<longrightarrow> 0 < rv_maximum v \<and> rv_level v \<le> rv_maximum v)"

definition tv_volume_of :: "remote_volume \<Rightarrow> tv_volume" where
  "tv_volume_of v = \<lparr>tv_level = rv_level v, tv_maximum = rv_maximum v, tv_muted = rv_muted v\<rparr>"

fun last_volume :: "tv_volume option \<Rightarrow> remote_message list \<Rightarrow> tv_volume option" where
  "last_volume volume [] = volume"
| "last_volume volume (m # ms) =
     last_volume (case rm_volume m of None \<Rightarrow> volume | Some v \<Rightarrow> Some (tv_volume_of v)) ms"

lemma pongs_append [simp]: "pongs enc (ms @ ms') = pongs enc ms @ pongs enc ms'"
  by (simp add: pongs_def)

lemma pongs_simps [simp]:
  "pongs enc [] = []"
  "pongs enc (m # ms) =
     (case rm_ping_request m of None \<Rightarrow> [] | Some r \<Rightarrow> [enc (ping_response (pq_value r))]) @ pongs enc ms"
  by (simp_all add: pongs_def)

lemma last_volume_append [simp]: "last_volume volume (ms @ ms') = last_volume (last_volume volume ms) ms'"
  by (induction ms arbitrary: volume) auto

lemma validated_volume_eq:
  "validated_volume v =
     (if 0 < rv_maximum v \<and> rv_level v \<le> rv_maximum v then Inr (tv_volume_of v)
      else Inl (protocol_error ''device volume state is invalid''))"
  by (auto simp: validated_volume_def tv_volume_of_def word_neq_0_conv not_less)

lemma tv_volume_of_ok: "acceptable m \<Longrightarrow> rm_volume m = Some v \<Longrightarrow> tv_volume_ok (tv_volume_of v)"
  by (simp add: acceptable_def tv_volume_ok_def tv_volume_of_def)

lemma last_volume_ok:
  "list_all acceptable ms \<Longrightarrow> (\<forall>v. volume = Some v \<longrightarrow> tv_volume_ok v) \<Longrightarrow>
     last_volume volume ms = Some v \<Longrightarrow> tv_volume_ok v"
proof (induction ms arbitrary: volume)
  case (Cons m ms)
  show ?case
    by (rule Cons.IH [OF _ _ Cons.prems(3) [simplified]])
      (use Cons.prems in \<open>auto simp: tv_volume_of_ok split: option.splits\<close>)
qed simp

lemma read_remote_Inr:
  assumes "read_remote dec operation l = (Inr m, l')"
  shows "took_messages dec l [m] l' \<and> lk_sent l' = lk_sent l"
proof -
  from assms obtain frame where read: "receive_frame operation l = (Inr frame, l')"
    and dec: "(case dec frame of Inl e \<Rightarrow> Inl (protocol_error (''decode '' @ operation @ '': '' @ e))
        | Inr m \<Rightarrow> Inr m) = Inr m"
    by (auto simp: read_remote_def exchange_rules)
  from dec have "dec frame = Inr m" by (cases "dec frame") simp_all
  from receive_frame_took [of operation l frame l' dec m, OF read this] receive_frame_traffic [OF read]
  show ?thesis by simp
qed

lemma pong_Inr:
  assumes "(case rm_ping_request m of None \<Rightarrow> returnX () | Some r \<Rightarrow> answer_ping enc (pq_value r)) l = (Inr u, l')"
  shows "lk_inbound l' = lk_inbound l \<and> lk_sent l' = lk_sent l @ pongs enc [m]"
  using assms
  by (auto simp: exchange_rules answer_ping_def write_remote_def dest!: write_body_traffic split: option.splits)

lemma wait_for_handshake_loop_Inr:
  "wait_for_handshake_loop dec enc select expected n volume l = (Inr (x, volume'), l') \<Longrightarrow>
     \<exists>ms m. length ms < n \<and> took_messages dec l (ms @ [m]) l' \<and> list_all acceptable (ms @ [m]) \<and>
       list_all (\<lambda>m. select m = None) ms \<and> select m = Some x \<and>
       lk_sent l' = lk_sent l @ pongs enc (ms @ [m]) \<and> volume' = last_volume volume (ms @ [m])"
proof (induction n arbitrary: volume l)
  case 0
  then show ?case by (simp add: exchange_rules)
next
  case (Suc n)
  let ?volume = "\<lambda>m. case rm_volume m of None \<Rightarrow> volume | Some v \<Rightarrow> Some (tv_volume_of v)"
  from Suc.prems obtain m l1 l2 where
    read: "read_remote dec expected l = (Inr m, l1)" and no_error: "rm_error m \<noteq> Some True"
    and pong: "(case rm_ping_request m of None \<Rightarrow> returnX () | Some r \<Rightarrow> answer_ping enc (pq_value r)) l1 = (Inr (), l2)"
    and ok: "acceptable m"
    and rest: "(case select m of Some x \<Rightarrow> returnX (x, ?volume m)
        | None \<Rightarrow> wait_for_handshake_loop dec enc select expected n (?volume m)) l2 = (Inr (x, volume'), l')"
    by (auto simp: exchange_rules bindE_eq_Inr_iff validated_volume_eq acceptable_def
        split: if_splits option.splits)
  have took: "took_messages dec l [m] l2" and sent: "lk_sent l2 = lk_sent l @ pongs enc [m]"
    using read_remote_Inr [OF read] pong_Inr [OF pong] by (auto intro: took_messages_inbound)
  show ?case
  proof (cases "select m")
    case (Some y)
    with rest took sent ok show ?thesis
      by (intro exI [of _ "[]"] exI [of _ m]) (auto simp: exchange_rules)
  next
    case None
    with rest have "wait_for_handshake_loop dec enc select expected n (?volume m) l2 = (Inr (x, volume'), l')"
      by simp
    from Suc.IH [OF this] obtain ms m' where
      "length ms < n" "took_messages dec l2 (ms @ [m']) l'" "list_all acceptable (ms @ [m'])"
      "list_all (\<lambda>m. select m = None) ms" "select m' = Some x"
      "lk_sent l' = lk_sent l2 @ pongs enc (ms @ [m'])" "volume' = last_volume (?volume m) (ms @ [m'])"
      by blast
    with took_messages_append [OF took, of "ms @ [m']" l'] sent ok None show ?thesis
      by (intro exI [of _ "m # ms"] exI [of _ m']) auto
  qed
qed

subsection \<open>The handshake\<close>

text \<open>
  What a successful handshake says about the messages it took. They come in three parts, each
  ending with the message it waited for and holding no earlier one of that kind.
\<close>

definition handshake_transcript ::
  "remote_encoder \<Rightarrow> remote_client_info \<Rightarrow> handshake_result \<Rightarrow> remote_message list \<Rightarrow> remote_message list \<Rightarrow>
     remote_message list \<Rightarrow> bytes list \<Rightarrow> bool" where
  "handshake_transcript enc ci hs ms1 ms2 ms3 sent \<longleftrightarrow>
     ms1 \<noteq> [] \<and> ms2 \<noteq> [] \<and> ms3 \<noteq> [] \<and>
     list_all (\<lambda>ms. length ms \<le> MAX_HANDSHAKE_MESSAGES) [ms1, ms2, ms3] \<and>
     list_all acceptable (ms1 @ ms2 @ ms3) \<and>
     list_all (\<lambda>m. rm_configure m = None) (butlast ms1) \<and>
     list_all (\<lambda>m. rm_set_active m = None) (butlast ms2) \<and> rm_set_active (last ms2) \<noteq> None \<and>
     list_all (\<lambda>m. rm_start m = None) (butlast ms3) \<and> rm_start (last ms3) = Some (hs_powered_on hs) \<and>
     (\<exists>configure info. rm_configure (last ms1) = Some configure \<and> rc_device_info configure = Some info \<and>
        hs_features hs = rc_features configure AND IMPLEMENTED_FEATURES \<and>
        validated_device_info info = Inr (hs_device_info hs)) \<and>
     hs_volume hs = last_volume None (ms1 @ ms2 @ ms3) \<and>
     sent = pongs enc ms1 @ [enc (configure_reply ci (hs_features hs))] @
            pongs enc ms2 @ [enc (set_active_reply (hs_features hs))] @ pongs enc ms3"

lemma wait_for_handshake_message_Inr:
  assumes "wait_for_handshake_message dec enc volume select expected l = (Inr (x, volume'), l')"
  obtains ms where "ms \<noteq> []" "length ms \<le> MAX_HANDSHAKE_MESSAGES" "took_messages dec l ms l'"
    "list_all acceptable ms" "list_all (\<lambda>m. select m = None) (butlast ms)" "select (last ms) = Some x"
    "lk_sent l' = lk_sent l @ pongs enc ms" "volume' = last_volume volume ms"
proof -
  from wait_for_handshake_loop_Inr [OF assms [unfolded wait_for_handshake_message_def]]
  obtain ms m where "length ms < MAX_HANDSHAKE_MESSAGES" "took_messages dec l (ms @ [m]) l'"
    "list_all acceptable (ms @ [m])" "list_all (\<lambda>m. select m = None) ms" "select m = Some x"
    "lk_sent l' = lk_sent l @ pongs enc (ms @ [m])" "volume' = last_volume volume (ms @ [m])"
    by blast
  then show ?thesis by (intro that [of "ms @ [m]"]) auto
qed

lemma perform_handshake_Inr:
  assumes "perform_handshake dec enc ci l = (Inr hs, l')"
  shows "\<exists>ms1 ms2 ms3 sent. took_messages dec l (ms1 @ ms2 @ ms3) l' \<and> lk_sent l' = lk_sent l @ sent \<and>
    handshake_transcript enc ci hs ms1 ms2 ms3 sent"
proof -
  from assms obtain configure v1 l1 info di l2 active v2 l3 l4 on v3 where
    w1: "wait_for_handshake_message dec enc None rm_configure ''configuration'' l = (Inr (configure, v1), l1)"
    and info: "rc_device_info configure = Some info" "validated_device_info info = Inr di"
    and r1: "write_remote enc (configure_reply ci (rc_features configure AND IMPLEMENTED_FEATURES)) ''configuration reply'' l1 = (Inr (), l2)"
    and w2: "wait_for_handshake_message dec enc v1 rm_set_active ''set-active request'' l2 = (Inr (active, v2), l3)"
    and r2: "write_remote enc (set_active_reply (rc_features configure AND IMPLEMENTED_FEATURES)) ''set-active reply'' l3 = (Inr (), l4)"
    and w3: "wait_for_handshake_message dec enc v2 rm_start ''remote-start notification'' l4 = (Inr (on, v3), l')"
    and hs: "hs = \<lparr>hs_device_info = di, hs_features = rc_features configure AND IMPLEMENTED_FEATURES,
        hs_powered_on = on, hs_volume = v3\<rparr>"
    by (auto simp: perform_handshake_def exchange_rules Let_def bindE_eq_Inr_iff)
  obtain ms1 where ms1: "ms1 \<noteq> []" "length ms1 \<le> MAX_HANDSHAKE_MESSAGES" "took_messages dec l ms1 l1"
    "list_all acceptable ms1" "list_all (\<lambda>m. rm_configure m = None) (butlast ms1)"
    "rm_configure (last ms1) = Some configure" "lk_sent l1 = lk_sent l @ pongs enc ms1"
    "v1 = last_volume None ms1"
    using wait_for_handshake_message_Inr [OF w1] .
  obtain ms2 where ms2: "ms2 \<noteq> []" "length ms2 \<le> MAX_HANDSHAKE_MESSAGES" "took_messages dec l2 ms2 l3"
    "list_all acceptable ms2" "list_all (\<lambda>m. rm_set_active m = None) (butlast ms2)"
    "rm_set_active (last ms2) = Some active" "lk_sent l3 = lk_sent l2 @ pongs enc ms2"
    "v2 = last_volume v1 ms2"
    using wait_for_handshake_message_Inr [OF w2] .
  obtain ms3 where ms3: "ms3 \<noteq> []" "length ms3 \<le> MAX_HANDSHAKE_MESSAGES" "took_messages dec l4 ms3 l'"
    "list_all acceptable ms3" "list_all (\<lambda>m. rm_start m = None) (butlast ms3)"
    "rm_start (last ms3) = Some on" "lk_sent l' = lk_sent l4 @ pongs enc ms3" "v3 = last_volume v2 ms3"
    using wait_for_handshake_message_Inr [OF w3] .
  note reply1 = write_body_traffic [OF r1 [unfolded write_remote_def]]
    and reply2 = write_body_traffic [OF r2 [unfolded write_remote_def]]
  have "took_messages dec l (ms1 @ ms2 @ ms3) l'"
    using took_messages_inbound [OF ms1(3), of l2] took_messages_inbound [OF ms2(3), of l4] ms3(3) reply1 reply2
    by (auto intro: took_messages_append)
  moreover have "handshake_transcript enc ci hs ms1 ms2 ms3
      (pongs enc ms1 @ [enc (configure_reply ci (hs_features hs))] @
       pongs enc ms2 @ [enc (set_active_reply (hs_features hs))] @ pongs enc ms3)"
    using ms1 ms2 ms3 info by (simp add: handshake_transcript_def hs)
  ultimately show ?thesis
    using ms1(7) ms2(7) ms3(7) reply1 reply2 by (simp add: hs) blast
qed

lemma ready_read_remote:
  assumes "ready dec l (m # ms) out"
  shows "\<exists>l'. read_remote dec operation l = (Inr m, l') \<and> ready dec l' ms out \<and> lk_sent l' = lk_sent l"
  using ready_receive [OF assms, of operation] by (auto simp: read_remote_def bindX_def liftX_def)

lemma ready_pong:
  assumes "ready dec l ms (pongs enc [m] @ out)"
  shows "\<exists>l'. (case rm_ping_request m of None \<Rightarrow> returnX () | Some r \<Rightarrow> answer_ping enc (pq_value r)) l = (Inr (), l') \<and>
    ready dec l' ms out \<and> lk_sent l' = lk_sent l @ pongs enc [m]"
proof (cases "rm_ping_request m")
  case None
  with assms show ?thesis by (simp add: returnX_def)
next
  case (Some r)
  with assms have "ready dec l ms (enc (ping_response (pq_value r)) # out)" by simp
  from ready_write [OF this] Some show ?thesis by (simp add: answer_ping_def write_remote_def)
qed

lemma ready_wait_step:
  assumes "ready dec l (m # ms) (pongs enc [m] @ out)" and "acceptable m"
  shows "\<exists>l'. ready dec l' ms out \<and> lk_sent l' = lk_sent l @ pongs enc [m] \<and>
    wait_for_handshake_loop dec enc select expected (Suc n) volume l =
      (case select m of
         Some x \<Rightarrow> (Inr (x, last_volume volume [m]), l')
       | None \<Rightarrow> wait_for_handshake_loop dec enc select expected n (last_volume volume [m]) l')"
proof -
  obtain l1 where l1: "read_remote dec expected l = (Inr m, l1)" "ready dec l1 ms (pongs enc [m] @ out)"
    "lk_sent l1 = lk_sent l"
    using ready_read_remote [OF assms(1)] by blast
  obtain l2 where l2:
    "(case rm_ping_request m of None \<Rightarrow> returnX () | Some r \<Rightarrow> answer_ping enc (pq_value r)) l1 = (Inr (), l2)"
    "ready dec l2 ms out" "lk_sent l2 = lk_sent l1 @ pongs enc [m]"
    using ready_pong [OF l1(2)] by blast
  have "(case rm_volume m of None \<Rightarrow> returnX volume
      | Some v \<Rightarrow> liftX (bindE (validated_volume v) (\<lambda>t. Inr (Some t)))) l2 = (Inr (last_volume volume [m]), l2)"
    using assms(2) by (auto simp: acceptable_def validated_volume_eq returnX_def liftX_def split: option.splits)
  with l1 l2 assms(2) show ?thesis
    by (intro exI [of _ l2])
      (auto simp del: last_volume.simps pongs_simps
        simp: bindX_def [of "read_remote dec expected"] bindX_def [of "case_option _ _ _"] acceptable_def returnX_def
        split: option.splits)
qed

lemma ready_wait_loop:
  "ready dec l (ms @ m # later) (pongs enc (ms @ [m]) @ out) \<Longrightarrow> length ms < n \<Longrightarrow>
     list_all acceptable (ms @ [m]) \<Longrightarrow> list_all (\<lambda>m. select m = None) ms \<Longrightarrow> select m = Some x \<Longrightarrow>
     \<exists>l'. wait_for_handshake_loop dec enc select expected n volume l =
         (Inr (x, last_volume volume (ms @ [m])), l') \<and>
       ready dec l' later out \<and> lk_sent l' = lk_sent l @ pongs enc (ms @ [m])"
proof (induction ms arbitrary: l n volume)
  case Nil
  then obtain k where n: "n = Suc k" by (cases n) auto
  with Nil ready_wait_step [of dec l m later enc out select expected k volume] show ?case by auto
next
  case (Cons m' ms)
  then obtain k where n: "n = Suc k" "length ms < k" by (cases n) auto
  have "ready dec l (m' # ms @ m # later) (pongs enc [m'] @ pongs enc (ms @ [m]) @ out)"
    using Cons.prems(1) by simp
  from ready_wait_step [OF this, of select expected k volume] Cons.prems
  obtain l1 where l1: "ready dec l1 (ms @ m # later) (pongs enc (ms @ [m]) @ out)"
    "lk_sent l1 = lk_sent l @ pongs enc [m']"
    "wait_for_handshake_loop dec enc select expected n volume l =
       wait_for_handshake_loop dec enc select expected k (last_volume volume [m']) l1"
    by (auto simp: n)
  with Cons.IH [OF l1(1) n(2), of "last_volume volume [m']"] Cons.prems show ?case by auto
qed

lemma ready_wait:
  assumes "ready dec l (ms @ later) (pongs enc ms @ out)" and "ms \<noteq> []" and "length ms \<le> MAX_HANDSHAKE_MESSAGES"
    and "list_all acceptable ms" and "list_all (\<lambda>m. select m = None) (butlast ms)" and "select (last ms) = Some x"
  shows "\<exists>l'. wait_for_handshake_message dec enc volume select expected l = (Inr (x, last_volume volume ms), l') \<and>
    ready dec l' later out \<and> lk_sent l' = lk_sent l @ pongs enc ms"
proof -
  define ms' m where "ms' = butlast ms" and "m = last ms"
  have "ms = ms' @ [m]" using assms(2) by (simp add: ms'_def m_def)
  moreover have "length ms' < MAX_HANDSHAKE_MESSAGES" using assms(2,3) by (cases ms) (auto simp: ms'_def)
  ultimately show ?thesis
    using ready_wait_loop [of dec l ms' m later enc out MAX_HANDSHAKE_MESSAGES select x expected volume] assms
    by (simp add: wait_for_handshake_message_def)
qed

lemma perform_handshake_ready:
  assumes transcript: "handshake_transcript enc ci hs ms1 ms2 ms3 sent" and "ready dec l (ms1 @ ms2 @ ms3) sent"
  shows "\<exists>l'. perform_handshake dec enc ci l = (Inr hs, l') \<and> lk_sent l' = lk_sent l @ sent"
proof -
  let ?c = "enc (configure_reply ci (hs_features hs))" and ?a = "enc (set_active_reply (hs_features hs))"
  from transcript obtain configure info active where
    ms1: "ms1 \<noteq> []" "length ms1 \<le> MAX_HANDSHAKE_MESSAGES" "list_all acceptable ms1"
      "list_all (\<lambda>m. rm_configure m = None) (butlast ms1)" "rm_configure (last ms1) = Some configure"
    and ms2: "ms2 \<noteq> []" "length ms2 \<le> MAX_HANDSHAKE_MESSAGES" "list_all acceptable ms2"
      "list_all (\<lambda>m. rm_set_active m = None) (butlast ms2)" "rm_set_active (last ms2) = Some active"
    and ms3: "ms3 \<noteq> []" "length ms3 \<le> MAX_HANDSHAKE_MESSAGES" "list_all acceptable ms3"
      "list_all (\<lambda>m. rm_start m = None) (butlast ms3)" "rm_start (last ms3) = Some (hs_powered_on hs)"
    and info: "rc_device_info configure = Some info" "hs_features hs = rc_features configure AND IMPLEMENTED_FEATURES"
      "validated_device_info info = Inr (hs_device_info hs)"
    and volume: "hs_volume hs = last_volume (last_volume (last_volume None ms1) ms2) ms3"
    and sent: "sent = pongs enc ms1 @ ?c # pongs enc ms2 @ ?a # pongs enc ms3"
    by (auto simp: handshake_transcript_def)
  obtain l1 where l1: "wait_for_handshake_message dec enc None rm_configure ''configuration'' l =
      (Inr (configure, last_volume None ms1), l1)" "ready dec l1 (ms2 @ ms3) (?c # pongs enc ms2 @ ?a # pongs enc ms3)"
    "lk_sent l1 = lk_sent l @ pongs enc ms1"
    using ready_wait [OF assms(2) [unfolded sent] ms1] by blast
  obtain l2 where l2: "write_remote enc (configure_reply ci (hs_features hs)) ''configuration reply'' l1 = (Inr (), l2)"
    "ready dec l2 (ms2 @ ms3) (pongs enc ms2 @ ?a # pongs enc ms3)" "lk_sent l2 = lk_sent l1 @ [?c]"
    using ready_write [OF l1(2)] unfolding write_remote_def by blast
  obtain l3 where l3: "wait_for_handshake_message dec enc (last_volume None ms1) rm_set_active ''set-active request'' l2 =
      (Inr (active, last_volume (last_volume None ms1) ms2), l3)" "ready dec l3 (ms3 @ []) (?a # pongs enc ms3 @ [])"
    "lk_sent l3 = lk_sent l2 @ pongs enc ms2"
    using ready_wait [OF l2(2) ms2] unfolding append_Nil2 by blast
  obtain l4 where l4: "write_remote enc (set_active_reply (hs_features hs)) ''set-active reply'' l3 = (Inr (), l4)"
    "ready dec l4 (ms3 @ []) (pongs enc ms3 @ [])" "lk_sent l4 = lk_sent l3 @ [?a]"
    using ready_write [OF l3(2)] unfolding write_remote_def by blast
  obtain l5 where l5: "wait_for_handshake_message dec enc (last_volume (last_volume None ms1) ms2) rm_start
      ''remote-start notification'' l4 = (Inr (hs_powered_on hs, hs_volume hs), l5)"
    "lk_sent l5 = lk_sent l4 @ pongs enc ms3"
    using ready_wait [OF l4(2) ms3] unfolding volume by blast
  show ?thesis
    using l1(1,3) l2(1,3) l3(1,3) l4(1,3) l5 info sent
    by (simp add: perform_handshake_def bindX_def liftX_def returnX_def Let_def)
qed

lemma keeps_time_wait [keeps_time_rules]:
  "keeps_time (wait_for_handshake_message dec enc volume select expected)"
proof -
  have "keeps_time (wait_for_handshake_loop dec enc select expected n volume)" for n
    by (induction n arbitrary: volume)
      (simp_all add: keeps_time_rules read_remote_def answer_ping_def write_remote_def)
  then show ?thesis by (simp add: wait_for_handshake_message_def)
qed

lemma keeps_time_perform_handshake: "keeps_time (perform_handshake dec enc ci)"
  by (auto simp: perform_handshake_def Let_def write_remote_def intro!: keeps_time_rules)

lemma remote_handshake_Inr:
  assumes "remote_handshake dec enc ci l = (Inr hs, l')"
  shows "\<exists>ms1 ms2 ms3 sent. took_messages dec l (ms1 @ ms2 @ ms3) l' \<and> lk_sent l' = lk_sent l @ sent \<and>
    handshake_transcript enc ci hs ms1 ms2 ms3 sent"
proof -
  let ?l = "l\<lparr>lk_deadline := Some (lk_clock l + HANDSHAKE_TIMEOUT, ''Remote Service handshake'')\<rparr>"
  from assms obtain l1 where "perform_handshake dec enc ci ?l = (Inr hs, l1)" and "l' = l1\<lparr>lk_deadline := None\<rparr>"
    by (auto simp: remote_handshake_def with_deadline_def split: prod.splits)
  from perform_handshake_Inr [OF this(1)] this(2) show ?thesis
    by (simp add: took_messages_def)
qed

lemma remote_handshake_volume_ok:
  assumes "remote_handshake dec enc ci l = (Inr hs, l')" and "hs_volume hs = Some v"
  shows "tv_volume_ok v"
proof -
  from remote_handshake_Inr [OF assms(1)] obtain ms1 ms2 ms3 where
    "list_all acceptable (ms1 @ ms2 @ ms3)" "hs_volume hs = last_volume None (ms1 @ ms2 @ ms3)"
    by (auto simp: handshake_transcript_def)
  with assms(2) show ?thesis by (metis last_volume_ok option.distinct(1))
qed

text \<open>A device that asks for a ping answer and reports its volume while the handshake runs.\<close>

definition example_configure :: remote_message where
  "example_configure = remote_message_default\<lparr>rm_configure := Some \<lparr>rc_features = 0xFF,
     rc_device_info = Some \<lparr>rd_model = ''TV'', rd_vendor = ''V'', rd_unknown_one = 0, rd_unknown_two = [],
       rd_package_name = [], rd_app_version = ''8''\<rparr>\<rparr>\<rparr>"

definition example_active :: remote_message where
  "example_active = remote_message_default\<lparr>rm_set_active := Some 0, rm_ping_request := Some \<lparr>pq_value = 73, pq_auxiliary_value = 0\<rparr>\<rparr>"

definition example_start :: remote_message where
  "example_start = remote_message_default\<lparr>rm_start := Some True,
     rm_volume := Some \<lparr>rv_maximum = 100, rv_level = 40, rv_muted = False\<rparr>\<rparr>"

definition example_decode :: remote_decoder where
  "example_decode frame =
     (if frame = [1] then Inr example_configure else if frame = [2] then Inr example_active
      else if frame = [3] then Inr example_start else Inl ''bad'')"

definition example_encode :: remote_encoder where
  "example_encode m =
     (case rm_ping_response m of Some v \<Rightarrow> [8, ucast v] | None \<Rightarrow>
        (case rm_key_inject m of Some k \<Rightarrow> [10, ucast (ki_key_code k)] | None \<Rightarrow> [9]))"

definition example_client :: remote_client_info where
  "example_client = \<lparr>ci_model = ''m'', ci_vendor = ''v'', ci_package_name = ''p'', ci_app_version = ''1''\<rparr>"

definition example_link :: link where
  "example_link = \<lparr>lk_inbound = [(1, Inr [1]), (2, Inr [2]), (3, Inr [3])],
     lk_writes = [(1, Inr ()), (1, Inr ()), (1, Inr ()), (1, Inr ())], lk_sent = [], lk_clock = 0, lk_deadline = None\<rparr>"

definition example_handshake :: handshake_result where
  "example_handshake = \<lparr>hs_device_info = \<lparr>di_model = ''TV'', di_vendor = ''V'', di_service_version = ''8''\<rparr>,
     hs_features = 0xFF AND IMPLEMENTED_FEATURES, hs_powered_on = True,
     hs_volume = Some \<lparr>tv_level = 40, tv_maximum = 100, tv_muted = False\<rparr>\<rparr>"

lemmas example_remote_defs = example_configure_def example_active_def example_start_def example_decode_def
  example_encode_def example_client_def example_link_def example_handshake_def

text \<open>
  C35. The Remote Service handshake is sound. When it succeeds, the frames it took decode to three
  parts, each at most 32 messages long: the last message of the first part carries the device's
  configuration, of the second its set-active request, of the third its start notification, and
  no earlier message of the part does. No message reported an error or an invalid volume. The
  capabilities are exactly those both the device announced and the client implements; the device
  metadata passed its checks; the power state and the volume are the latest ones reported. What
  the client sent is the answer to each ping, in order, with the configuration reply and the
  set-active reply, both with the negotiated capabilities, between the parts. However the
  handshake ends, it takes at most ten seconds.
\<close>

theorem remote_handshake_sound:
  "(remote_handshake dec enc ci l = (Inr hs, l') \<longrightarrow>
      (\<exists>ms1 ms2 ms3 sent. took_messages dec l (ms1 @ ms2 @ ms3) l' \<and> lk_sent l' = lk_sent l @ sent \<and>
         handshake_transcript enc ci hs ms1 ms2 ms3 sent)) \<and>
   lk_clock (snd (remote_handshake dec enc ci l)) \<le> lk_clock l + HANDSHAKE_TIMEOUT"
  using remote_handshake_Inr with_deadline_in_time [OF keeps_time_perform_handshake]
  by (metis remote_handshake_def prod.collapse)

text \<open>
  C36. The handshake succeeds with a device that follows the protocol. For every transcript of
  three such parts, when the frames of the transcript come in and every read and write ends
  within the exchange timeout and all of them within the handshake timeout, the handshake
  returns the result of the transcript and has sent exactly its replies.
\<close>

theorem remote_handshake_completes:
  assumes "handshake_transcript enc ci hs ms1 ms2 ms3 sent"
    and "ready dec (l\<lparr>lk_deadline := Some (lk_clock l + HANDSHAKE_TIMEOUT, ''Remote Service handshake'')\<rparr>)
           (ms1 @ ms2 @ ms3) sent"
  shows "\<exists>l'. remote_handshake dec enc ci l = (Inr hs, l') \<and> lk_sent l' = lk_sent l @ sent"
  using perform_handshake_ready [OF assms] by (auto simp: remote_handshake_def with_deadline_def)

lemma example_transcript:
  "handshake_transcript example_encode example_client example_handshake [example_configure] [example_active] [example_start]
     [[9], [8, 73], [9]]"
  by (simp add: handshake_transcript_def example_remote_defs MAX_HANDSHAKE_MESSAGES_def acceptable_def
      remote_message_default_def validated_device_info_def device_text_ok_def MAX_DEVICE_TEXT_BYTES_def
      no_control_def utf8_width_def control_def is_control_def Let_def tv_volume_of_def ping_response_def
      configure_reply_def set_active_reply_def)

lemma example_ready:
  "ready example_decode
     (example_link\<lparr>lk_deadline := Some (lk_clock example_link + HANDSHAKE_TIMEOUT, ''Remote Service handshake'')\<rparr>)
     ([example_configure] @ [example_active] @ [example_start]) [[9], [8, 73], [9]]"
  unfolding ready_def
  by (intro conjI exI [of _ "[(1, [1]), (2, [2]), (3, [3])]"] exI [of _ "[]"])
    (simp_all add: example_remote_defs prompt_def EXCHANGE_TIMEOUT_def HANDSHAKE_TIMEOUT_def from_secs_def
      fits_body_def MAX_FRAME_SIZE_def)

lemma remote_handshake_completes_witness:
  "\<exists>l'. remote_handshake example_decode example_encode example_client example_link = (Inr example_handshake, l') \<and>
     lk_sent l' = [[9], [8, 73], [9]]"
  using remote_handshake_completes [OF example_transcript example_ready] by (simp add: example_link_def)

lemma example_handshake_runs:
  "\<exists>l'. remote_handshake example_decode example_encode example_client example_link = (Inr example_handshake, l')"
  using perform_handshake_ready [OF example_transcript example_ready]
  by (auto simp: remote_handshake_def with_deadline_def)

lemma remote_handshake_sound_witness:
  "\<exists>l' ms1 ms2 ms3 sent.
     remote_handshake example_decode example_encode example_client example_link = (Inr example_handshake, l') \<and>
     took_messages example_decode example_link (ms1 @ ms2 @ ms3) l' \<and> lk_sent l' = sent \<and>
     handshake_transcript example_encode example_client example_handshake ms1 ms2 ms3 sent"
proof -
  obtain l' where "remote_handshake example_decode example_encode example_client example_link = (Inr example_handshake, l')"
    using example_handshake_runs by blast
  with remote_handshake_sound [of example_decode example_encode example_client example_link example_handshake l']
  show ?thesis by (auto simp: example_link_def)
qed

end
