(* ===== verification/Atv_Session.thy ===== *)
theory Atv_Session
  imports Atv_Remote_Correct "HOL-Library.Sublist"
begin

text \<open>
  The established Remote Service session: what the task sends, publishes and answers as a
  function of its inputs, how it ends, and which keys the handle injects.
\<close>

subsection \<open>Specification of a turn\<close>

definition input_message :: "remote_decoder \<Rightarrow> remote_input \<Rightarrow> remote_message option" where
  "input_message dec i =
     (case i of Inbound (Inr frame) \<Rightarrow> (case dec frame of Inr m \<Rightarrow> Some m | Inl _ \<Rightarrow> None) | _ \<Rightarrow> None)"

definition message_events :: "remote_message \<Rightarrow> remote_event list" where
  "message_events m =
     (case rm_start m of None \<Rightarrow> [] | Some on \<Rightarrow> [PowerChanged on]) @
     (case rm_volume m of None \<Rightarrow> [] | Some v \<Rightarrow> [VolumeChanged (tv_volume_of v)])"

definition input_events :: "remote_decoder \<Rightarrow> remote_input \<Rightarrow> remote_event list" where
  "input_events dec i = (case input_message dec i of None \<Rightarrow> [] | Some m \<Rightarrow> message_events m)"

definition input_sends :: "remote_decoder \<Rightarrow> remote_encoder \<Rightarrow> remote_input \<Rightarrow> bytes list" where
  "input_sends dec enc i =
     (case i of
        Command (Key key_code action channel) outcome \<Rightarrow> [enc (key_message key_code action)]
      | _ \<Rightarrow> (case input_message dec i of None \<Rightarrow> [] | Some m \<Rightarrow> pongs enc [m]))"

definition input_replies :: "remote_input \<Rightarrow> (nat \<times> (atv_error + unit)) list" where
  "input_replies i = (case i of Command (Key key_code action channel) outcome \<Rightarrow> [(channel, Inr ())] | _ \<Rightarrow> [])"

fun power_after :: "bool \<Rightarrow> remote_event list \<Rightarrow> bool" where
  "power_after p [] = p"
| "power_after p (PowerChanged on # es) = power_after on es"
| "power_after p (_ # es) = power_after p es"

fun volume_after :: "tv_volume option \<Rightarrow> remote_event list \<Rightarrow> tv_volume option" where
  "volume_after v [] = v"
| "volume_after v (VolumeChanged w # es) = volume_after (Some w) es"
| "volume_after v (_ # es) = volume_after v es"

definition event_ok :: "remote_event \<Rightarrow> bool" where
  "event_ok e \<longleftrightarrow> (\<forall>v. e = VolumeChanged v \<longrightarrow> tv_volume_ok v) \<and> (\<forall>d. e \<noteq> Disconnected d)"

text \<open>\<open>s'\<close> is \<open>s\<close> after sending \<open>out\<close>, publishing \<open>es\<close> and answering \<open>rs\<close>.\<close>

definition evolved ::
  "remote_state \<Rightarrow> bytes list \<Rightarrow> remote_event list \<Rightarrow> (nat \<times> (atv_error + unit)) list \<Rightarrow> remote_state \<Rightarrow> bool" where
  "evolved s out es rs s' \<longleftrightarrow>
     lk_sent (rs_link s') = lk_sent (rs_link s) @ out \<and> rs_events s' = rs_events s @ es \<and>
     rs_replies s' = rs_replies s @ rs \<and> rs_power s' = power_after (rs_power s) es \<and>
     rs_volume s' = volume_after (rs_volume s) es \<and> list_all event_ok es"

lemma power_after_append [simp]: "power_after p (es @ es') = power_after (power_after p es) es'"
  by (induction p es rule: power_after.induct) auto

lemma volume_after_append [simp]: "volume_after v (es @ es') = volume_after (volume_after v es) es'"
  by (induction v es rule: volume_after.induct) auto

lemma volume_after_ok:
  "list_all event_ok es \<Longrightarrow> (\<And>w. v = Some w \<Longrightarrow> tv_volume_ok w) \<Longrightarrow> volume_after v es = Some w \<Longrightarrow> tv_volume_ok w"
  by (induction v es rule: volume_after.induct) (auto simp: event_ok_def)

lemma evolved_refl: "evolved s [] [] [] s"
  by (simp add: evolved_def)

lemma evolved_trans:
  "evolved s out es rs s1 \<Longrightarrow> evolved s1 out' es' rs' s2 \<Longrightarrow> evolved s (out @ out') (es @ es') (rs @ rs') s2"
  by (auto simp: evolved_def)

subsection \<open>One turn\<close>

lemma message_events_ok: "acceptable m \<Longrightarrow> list_all event_ok (message_events m)"
  by (auto simp: message_events_def event_ok_def tv_volume_of_ok split: option.splits)

lemma pong_traffic:
  assumes "(case rm_ping_request m of None \<Rightarrow> returnX () | Some r \<Rightarrow> answer_ping enc (pq_value r)) l = (r, l')"
  shows "lk_sent l' = lk_sent l @ (if isl r then [] else pongs enc [m])"
proof (cases "rm_ping_request m")
  case None
  with assms show ?thesis by (auto simp: returnX_def)
next
  case (Some p)
  with assms have "write_body ''ping response'' (enc (ping_response (pq_value p))) l = (r, l')"
    by (simp add: answer_ping_def write_remote_def)
  from write_body_traffic [OF this] Some show ?thesis by (cases r) auto
qed

lemma handle_inbound_cases:
  assumes "handle_inbound enc m s = (r, s')"
  shows "\<exists>out es. evolved s out es [] s' \<and>
    (case r of
       Inr _ \<Rightarrow> acceptable m \<and> out = pongs enc [m] \<and> es = message_events m
     | Inl _ \<Rightarrow> prefix out (pongs enc [m]) \<and> prefix es (message_events m))"
proof (cases "rm_error m = Some True")
  case True
  with assms show ?thesis
    by (intro exI [of _ "[]"]) (auto simp: handle_inbound_def evolved_refl)
next
  case no_error: False
  let ?pong = "(case rm_ping_request m of None \<Rightarrow> returnX () | Some r \<Rightarrow> answer_ping enc (pq_value r)) (rs_link s)"
  obtain r1 l where pong: "?pong = (r1, l)" by fastforce
  note sent = pong_traffic [OF pong]
  show ?thesis
  proof (cases r1)
    case (Inl e)
    with assms no_error pong sent show ?thesis
      by (intro exI [of _ "[]"]) (auto simp: handle_inbound_def evolved_def)
  next
    case (Inr u)
    define out where "out = pongs enc [m]"
    have run: "handle_inbound enc m s =
        (let s2 = (case rm_start m of None \<Rightarrow> s\<lparr>rs_link := l\<rparr> | Some on \<Rightarrow> publish_power on (s\<lparr>rs_link := l\<rparr>))
         in case rm_volume m of
              None \<Rightarrow> (Inr (), s2)
            | Some v \<Rightarrow> (case validated_volume v of Inl e \<Rightarrow> (Inl e, s2) | Inr c \<Rightarrow> (Inr (), publish_volume c s2)))"
      using no_error pong Inr by (simp add: handle_inbound_def Let_def)
    have "lk_sent l = lk_sent (rs_link s) @ out" using sent Inr by (simp add: out_def)
    with assms no_error run show ?thesis
      unfolding out_def [symmetric]
      by (intro exI [of _ out])
        (auto simp: evolved_def message_events_def publish_power_def publish_volume_def validated_volume_eq
          acceptable_def event_ok_def tv_volume_ok_def tv_volume_of_def Let_def split: option.splits if_splits)
  qed
qed

lemma remote_turn_Continue:
  assumes "remote_turn dec enc i s = Continue s'"
  shows "evolved s (input_sends dec enc i) (input_events dec i) (input_replies i) s'"
proof (cases i)
  case (Inbound r)
  with assms obtain frame m where i: "r = Inr frame" "dec frame = Inr m" "handle_inbound enc m s = (Inr (), s')"
    by (auto simp: remote_turn_def inbound_arm_def split: sum.splits prod.splits)
  with handle_inbound_cases [OF i(3)] Inbound show ?thesis
    by (auto simp: input_sends_def input_events_def input_replies_def input_message_def)
next
  case (Command c outcome)
  then obtain k a ch where c: "c = Key k a ch"
    using assms by (cases c) (auto simp: remote_turn_def remote_command_arm_def split: shutdown_outcome.splits)
  obtain r l where w: "write_body ''key injection'' (enc (key_message k a)) (rs_link s) = (r, l)" by fastforce
  with assms Command c have "\<not> isl r" "s' = reply ch r (s\<lparr>rs_link := l\<rparr>)"
    by (auto simp: remote_turn_def remote_command_arm_def write_remote_def Let_def split: if_splits)
  with write_body_traffic [OF w] Command c show ?thesis
    by (cases r) (auto simp: evolved_def reply_def input_sends_def input_events_def input_replies_def input_message_def)
next
  case CommandsClosed
  with assms show ?thesis by (simp add: remote_turn_def)
qed

text \<open>How the last input ends the task: what it still sent and published, and the answer it gave.\<close>

definition final_replies :: "remote_input \<Rightarrow> atv_error + unit \<Rightarrow> (nat \<times> (atv_error + unit)) list \<Rightarrow> bool" where
  "final_replies i r rs \<longleftrightarrow>
     (case i of
        Inbound _ \<Rightarrow> rs = [] \<and> isl r
      | Command (Key key_code action channel) _ \<Rightarrow> (\<exists>e. rs = [(channel, Inl e)]) \<and> r = Inl ConnectionClosed
      | Command (Close channel) ShutDown \<Rightarrow> rs = [(channel, Inr ())] \<and> r = Inr ()
      | Command (Close channel) (ShutdownFailed e) \<Rightarrow> rs = [(channel, Inl (Io e))] \<and> r = Inl ConnectionClosed
      | Command (Close channel) ShutdownTimeout \<Rightarrow> rs = [] \<and> r = Inl (TimedOut ''connection shutdown'')
      | CommandsClosed \<Rightarrow> rs = [] \<and> r = Inr ())"

lemma inbound_arm_Return:
  assumes "inbound_arm dec enc x s = Return r s'"
  shows "\<exists>out es. evolved s out es [] s' \<and> prefix out (input_sends dec enc (Inbound x)) \<and>
    prefix es (input_events dec (Inbound x)) \<and> isl r"
proof (cases "input_message dec (Inbound x)")
  case None
  with assms show ?thesis
    by (intro exI [of _ "[]"])
      (auto simp: inbound_arm_def input_message_def evolved_refl split: sum.splits)
next
  case (Some m)
  then obtain frame where x: "x = Inr frame" "dec frame = Inr m"
    by (auto simp: input_message_def split: sum.splits)
  obtain r1 s1 where h: "handle_inbound enc m s = (r1, s1)" by fastforce
  with assms x obtain e where "r1 = Inl e" "r = Inl e" "s' = s1"
    by (auto simp: inbound_arm_def split: sum.splits)
  with handle_inbound_cases [OF h] Some show ?thesis
    by (auto simp: input_sends_def input_events_def)
qed

lemma remote_turn_Return:
  assumes "remote_turn dec enc i s = Return r s'"
  shows "\<exists>out es rs. evolved s out es rs s' \<and> prefix out (input_sends dec enc i) \<and>
    prefix es (input_events dec i) \<and> final_replies i r rs"
proof (cases i)
  case (Inbound x)
  with assms inbound_arm_Return [of dec enc x s r s'] show ?thesis
    by (fastforce simp: remote_turn_def final_replies_def)
next
  case (Command c outcome)
  show ?thesis
  proof (cases c)
    case (Key k a ch)
    obtain x l where w: "write_body ''key injection'' (enc (key_message k a)) (rs_link s) = (x, l)" by fastforce
    with assms Command Key obtain e where "x = Inl e" "r = Inl ConnectionClosed" "s' = reply ch x (s\<lparr>rs_link := l\<rparr>)"
      by (cases x) (auto simp: remote_turn_def remote_command_arm_def write_remote_def Let_def)
    with write_body_traffic [OF w] Command Key show ?thesis
      by (intro exI [of _ "[]"] exI [of _ "[(ch, Inl e)]"]) (auto simp: evolved_def reply_def final_replies_def)
  next
    case (Close ch)
    with assms Command show ?thesis
      by (intro exI [of _ "[]"] exI [of _ "drop (length (rs_replies s)) (rs_replies s')"])
        (auto simp: remote_turn_def remote_command_arm_def evolved_def reply_def final_replies_def
          split: shutdown_outcome.splits)
  qed
next
  case CommandsClosed
  with assms show ?thesis
    by (intro exI [of _ "[]"]) (auto simp: remote_turn_def evolved_refl final_replies_def)
qed

subsection \<open>Runs of the task\<close>

abbreviation all_sends :: "remote_decoder \<Rightarrow> remote_encoder \<Rightarrow> remote_input list \<Rightarrow> bytes list" where
  "all_sends dec enc is \<equiv> concat (map (input_sends dec enc) is)"

abbreviation all_events :: "remote_decoder \<Rightarrow> remote_input list \<Rightarrow> remote_event list" where
  "all_events dec is \<equiv> concat (map (input_events dec) is)"

abbreviation all_replies :: "remote_input list \<Rightarrow> (nat \<times> (atv_error + unit)) list" where
  "all_replies is \<equiv> concat (map input_replies is)"

lemma run_remote_cases:
  "run_remote dec enc is s = (r, s', rest) \<Longrightarrow>
     (case r of
        None \<Rightarrow> rest = [] \<and> evolved s (all_sends dec enc is) (all_events dec is) (all_replies is) s'
      | Some x \<Rightarrow>
          (\<exists>pre i out es rs. is = pre @ i # rest \<and>
             evolved s (all_sends dec enc pre @ out) (all_events dec pre @ es) (all_replies pre @ rs) s' \<and>
             prefix out (input_sends dec enc i) \<and> prefix es (input_events dec i) \<and> final_replies i x rs))"
proof (induction "is" arbitrary: s)
  case Nil
  then show ?case by (auto simp: evolved_refl)
next
  case (Cons i "is")
  show ?case
  proof (cases "remote_turn dec enc i s")
    case (Continue s1)
    with Cons.prems have "run_remote dec enc is s1 = (r, s', rest)" by simp
    note IH = Cons.IH [OF this]
    note step = evolved_trans [OF remote_turn_Continue [OF Continue]]
    show ?thesis
    proof (cases r)
      case None
      with IH step show ?thesis by simp
    next
      case (Some x)
      with IH obtain pre j out es rs where "is = pre @ j # rest"
        and e: "evolved s1 (all_sends dec enc pre @ out) (all_events dec pre @ es) (all_replies pre @ rs) s'"
        and "prefix out (input_sends dec enc j)" "prefix es (input_events dec j)" "final_replies j x rs"
        by auto
      with step [OF e] Some show ?thesis
        by (auto intro!: exI [of _ "i # pre"] exI [of _ j] exI [of _ out] exI [of _ es] exI [of _ rs])
    qed
  next
    case (Return x s1)
    with Cons.prems have "r = Some x" "s1 = s'" "rest = is" by auto
    with remote_turn_Return [OF Return] show ?thesis
      by (auto intro!: exI [of _ "[]"] exI [of _ i])
  qed
qed

lemma evolved_volume_ok:
  assumes "remote_handshake dec enc ci l = (Inr hs, l0)" and "evolved (remote_session_of hs l0) out es rs s'"
    and "rs_volume s' = Some v"
  shows "tv_volume_ok v"
  using assms remote_handshake_volume_ok [OF assms(1)] volume_after_ok [of es "hs_volume hs" v]
  by (auto simp: evolved_def remote_session_of_def)

text \<open>
  C33. While the task of an established session runs, everything it did is determined by its
  inputs: it sent the answer to each ping and the message of each key command, in the order of
  the inputs; it published one event for each reported power state and volume, in order; and it
  answered each key command once, with success. The watched power state and volume are those of
  the last event, or of the handshake when there was none, and the volume is always valid.
\<close>

theorem remote_session_runs:
  assumes "remote_handshake dec enc ci l = (Inr hs, l0)"
    and "remote_task dec enc is (remote_session_of hs l0) = (None, s', rest)"
  shows "rest = [] \<and> lk_sent (rs_link s') = lk_sent l0 @ all_sends dec enc is \<and>
    rs_events s' = all_events dec is \<and> rs_replies s' = all_replies is \<and>
    rs_power s' = power_after (hs_powered_on hs) (rs_events s') \<and>
    rs_volume s' = volume_after (hs_volume hs) (rs_events s') \<and>
    (\<forall>v. rs_volume s' = Some v \<longrightarrow> tv_volume_ok v)"
proof -
  from assms(2) have "run_remote dec enc is (remote_session_of hs l0) = (None, s', rest)"
    by (auto simp: remote_task_def split: prod.splits option.splits)
  from run_remote_cases [OF this] have "rest = []"
    and e: "evolved (remote_session_of hs l0) (all_sends dec enc is) (all_events dec is) (all_replies is) s'"
    by auto
  with evolved_volume_ok [OF assms(1) e] show ?thesis
    by (auto simp: evolved_def remote_session_of_def)
qed

lemma remote_session_runs_witness:
  "\<exists>l0 s'. remote_handshake example_decode example_encode example_client example_link = (Inr example_handshake, l0) \<and>
     remote_task example_decode example_encode [Inbound (Inr [3])] (remote_session_of example_handshake l0) = (None, s', []) \<and>
     rs_events s' = [PowerChanged True, VolumeChanged \<lparr>tv_level = 40, tv_maximum = 100, tv_muted = False\<rparr>]"
proof -
  obtain l0 where run: "remote_handshake example_decode example_encode example_client example_link = (Inr example_handshake, l0)"
    using example_handshake_runs by blast
  have "\<exists>s'. remote_task example_decode example_encode [Inbound (Inr [3])] (remote_session_of example_handshake l0) = (None, s', [])"
    by (simp add: remote_task_def remote_turn_def inbound_arm_def handle_inbound_def example_remote_defs
        remote_message_default_def returnX_def validated_volume_def Let_def)
  then obtain s' where task:
    "remote_task example_decode example_encode [Inbound (Inr [3])] (remote_session_of example_handshake l0) = (None, s', [])"
    by blast
  from remote_session_runs [OF run task] run task show ?thesis
    by (auto simp: input_events_def input_message_def message_events_def example_remote_defs remote_message_default_def
        tv_volume_of_def)
qed



subsection \<open>Keys and capabilities\<close>

lemma contains_implemented:
  "contains IMPLEMENTED_FEATURES f \<Longrightarrow> contains (g AND IMPLEMENTED_FEATURES) f \<longleftrightarrow> contains g f"
  by (metis contains_def and.assoc)

lemma implemented_key_power [simp]:
  "contains IMPLEMENTED_FEATURES KEY" "contains IMPLEMENTED_FEATURES POWER"
  by (simp_all add: contains_def IMPLEMENTED_FEATURES_def KEY_def POWER_def PING_def VOLUME_def)

text \<open>
  Keys are injected exactly when the device announced the capability. After a successful
  handshake there is a message of the device with its configuration such that an operation of
  the handle issues its key command if the configuration has the key capability, and for the
  wake, sleep and power keys the power capability as well; otherwise it fails at once with the
  missing capability and issues nothing.
\<close>

theorem keys_need_the_capability:
  assumes "remote_handshake dec enc ci l = (Inr hs, l0)"
  shows "\<exists>ms configure m. took_messages dec l ms l0 \<and> m \<in> set ms \<and> rm_configure m = Some configure \<and>
    (let h = handle_of hs; key = contains (rc_features configure) KEY; power = contains (rc_features configure) POWER;
         press = (\<lambda>k. if \<not> power then Failed_Call (UnsupportedFeature ''power'')
                      else if \<not> key then Failed_Call (UnsupportedFeature ''key injection'')
                      else Issue (Key k Press) command_result)
     in (\<forall>k a. send_key h k a =
            (if key then Issue (Key k a) command_result else Failed_Call (UnsupportedFeature ''key injection''))) \<and>
        press_wake_key h = press KEYCODE_WAKEUP \<and> press_sleep_key h = press KEYCODE_SLEEP \<and>
        press_power_key h = press KEYCODE_POWER)"
proof -
  from remote_handshake_Inr [OF assms] obtain ms1 ms2 ms3 configure where
    "took_messages dec l (ms1 @ ms2 @ ms3) l0" "ms1 \<noteq> []" "rm_configure (last ms1) = Some configure"
    and features: "hs_features hs = rc_features configure AND IMPLEMENTED_FEATURES"
    by (auto simp: handshake_transcript_def)
  moreover have "contains (hs_features hs) KEY = contains (rc_features configure) KEY"
    "contains (hs_features hs) POWER = contains (rc_features configure) POWER"
    by (simp_all add: features contains_implemented)
  ultimately show ?thesis
    by (intro exI [of _ "ms1 @ ms2 @ ms3"] exI [of _ configure] exI [of _ "last ms1"])
      (simp add: Let_def handle_of_def send_key_def press_key_def press_wake_key_def press_sleep_key_def
        press_power_key_def require_feature_def ensure_def)
qed

lemma keys_need_the_capability_witness:
  "\<exists>l0 ms m configure.
     remote_handshake example_decode example_encode example_client example_link = (Inr example_handshake, l0) \<and>
     took_messages example_decode example_link ms l0 \<and> m \<in> set ms \<and> rm_configure m = Some configure \<and>
     (contains (rc_features configure) KEY \<longrightarrow>
        send_key (handle_of example_handshake) KEYCODE_WAKEUP Press = Issue (Key KEYCODE_WAKEUP Press) command_result)"
proof -
  obtain l0 where run: "remote_handshake example_decode example_encode example_client example_link = (Inr example_handshake, l0)"
    using example_handshake_runs by blast
  from keys_need_the_capability [OF run] obtain ms m configure where
    "took_messages example_decode example_link ms l0" "m \<in> set ms" "rm_configure m = Some configure"
    "\<forall>k a. send_key (handle_of example_handshake) k a =
       (if contains (rc_features configure) KEY then Issue (Key k a) command_result
        else Failed_Call (UnsupportedFeature ''key injection''))"
    unfolding Let_def by blast
  with run show ?thesis by auto
qed

end
