(* ===== verification/Atv_Identity.thy ===== *)
theory Atv_Identity
  imports Atv_Exchange
begin

text \<open>
  The client identity of Android TV (\<open>src/android_tv/identity.rs\<close>): importing and generating a
  certificate with its RSA key. The X.509 parser, the RSA library and the certificate generator
  are parameters; their errors are their display texts.
\<close>

definition RSA_BITS :: nat where "RSA_BITS = 2048"
definition MAX_COMMON_NAME_BYTES :: nat where "MAX_COMMON_NAME_BYTES = 128"
definition MAX_CERTIFICATE_DER_BYTES :: nat where "MAX_CERTIFICATE_DER_BYTES = 64 * 1024"
definition MAX_PRIVATE_KEY_DER_BYTES :: nat where "MAX_PRIVATE_KEY_DER_BYTES = 64 * 1024"

definition invalid_identity :: "string \<Rightarrow> atv_error" where
  "invalid_identity detail = InvalidIdentity detail"

definition crypto_error :: "string \<Rightarrow> atv_error" where
  "crypto_error detail = CryptoError detail"

datatype public_key = RsaKey bytes bytes | OtherKey

text \<open>The parameters of the self-signed certificate; times are in seconds.\<close>

record certificate_parameters =
  cp_subject_alt_names :: "string list"
  cp_common_name :: string
  cp_ca_path_length :: nat
  cp_serial_number :: u64
  cp_not_before :: int
  cp_not_after :: int

record 'k identity_libs =
  il_parse_certificate :: "bytes \<Rightarrow> string + bytes \<times> (string + public_key)"
  il_parse_key :: "bytes \<Rightarrow> string + 'k"
  il_validate_key :: "'k \<Rightarrow> string + unit"
  il_public :: "'k \<Rightarrow> bytes \<times> bytes"
  il_encode_key :: "'k \<Rightarrow> string + bytes"
  il_load_signing_key :: "bytes \<Rightarrow> string + unit"
  il_check_names :: "string list \<Rightarrow> string + unit"
  il_self_sign :: "bytes \<Rightarrow> certificate_parameters \<Rightarrow> string + bytes"

record remote_identity =
  id_certificate_der :: bytes
  id_private_key_pkcs8_der :: bytes
  id_modulus :: bytes
  id_exponent :: bytes

definition labelled :: "(string \<Rightarrow> atv_error) \<Rightarrow> string \<Rightarrow> string + 'a \<Rightarrow> atv_error + 'a" where
  "labelled f label r = (case r of Inl e \<Rightarrow> Inl (f (label @ e)) | Inr a \<Rightarrow> Inr a)"

definition minimal_unsigned :: "bytes \<Rightarrow> bytes" where
  "minimal_unsigned bs = dropWhile (\<lambda>b. b = 0) bs"

definition leading_zeros :: "u8 \<Rightarrow> nat" where
  "leading_zeros b = length (takeWhile (\<lambda>i. \<not> bit b i) [7, 6, 5, 4, 3, 2, 1, 0])"

definition unsigned_bits :: "bytes \<Rightarrow> nat" where
  "unsigned_bits bs = (case bs of [] \<Rightarrow> 0 | first # _ \<Rightarrow> length bs * 8 - leading_zeros first)"

definition rsa_parameters_from_certificate :: "'k identity_libs \<Rightarrow> bytes \<Rightarrow> atv_error + bytes \<times> bytes" where
  "rsa_parameters_from_certificate libs der =
     bindE (ensure (der \<noteq> [] \<and> length der \<le> MAX_CERTIFICATE_DER_BYTES)
              (invalid_identity ''X.509 certificate must be 1..=64 KiB'')) (\<lambda>_.
     bindE (labelled invalid_identity ''parse X.509 certificate: '' (il_parse_certificate libs der)) (\<lambda>(remainder, parsed).
     bindE (ensure (remainder = []) (invalid_identity ''X.509 certificate contains trailing bytes'')) (\<lambda>_.
     bindE (labelled invalid_identity ''parse certificate public key: '' parsed) (\<lambda>key.
     case key of
       OtherKey \<Rightarrow> Inl (invalid_identity ''certificate public key is not RSA'')
     | RsaKey n e \<Rightarrow>
         let modulus = minimal_unsigned n; exponent = minimal_unsigned e
         in if modulus = [] \<or> exponent = []
            then Inl (invalid_identity ''certificate contains an empty RSA parameter'')
            else Inr (modulus, exponent)))))"

definition from_der :: "'k identity_libs \<Rightarrow> bytes \<Rightarrow> bytes \<Rightarrow> atv_error + remote_identity" where
  "from_der libs certificate_der private_key_der =
     bindE (ensure (private_key_der \<noteq> [] \<and> length private_key_der \<le> MAX_PRIVATE_KEY_DER_BYTES)
              (invalid_identity ''PKCS#8 private key must be 1..=64 KiB'')) (\<lambda>_.
     bindE (rsa_parameters_from_certificate libs certificate_der) (\<lambda>(modulus, exponent).
     bindE (ensure (RSA_BITS \<le> unsigned_bits modulus) (invalid_identity ''RSA key is smaller than 2048 bits'')) (\<lambda>_.
     bindE (labelled invalid_identity ''parse PKCS#8 RSA key: '' (il_parse_key libs private_key_der)) (\<lambda>key.
     bindE (labelled invalid_identity ''validate RSA key: '' (il_validate_key libs key)) (\<lambda>_.
     bindE (ensure (il_public libs key = (modulus, exponent))
              (invalid_identity ''certificate public key does not match the private key'')) (\<lambda>_.
       Inr \<lparr>id_certificate_der = certificate_der, id_private_key_pkcs8_der = private_key_der,
            id_modulus = modulus, id_exponent = exponent\<rparr>))))))"

definition validate_common_name :: "string \<Rightarrow> atv_error + unit" where
  "validate_common_name name =
     ensure (name \<noteq> [] \<and> length name \<le> MAX_COMMON_NAME_BYTES \<and> no_control name)
       (InvalidClientInfo ''certificate common name must be 1..=128 bytes without control characters'')"

text \<open>The generated key is an argument, the outcome of the random generator; so are the two
  readings of the clock.\<close>

definition generate ::
  "'k identity_libs \<Rightarrow> string + 'k \<Rightarrow> int \<Rightarrow> int \<Rightarrow> string \<Rightarrow> atv_error + remote_identity" where
  "generate libs new_key now1 now2 common_name =
     bindE (validate_common_name common_name) (\<lambda>_.
     bindE (labelled crypto_error ''generate RSA key: '' new_key) (\<lambda>key.
     bindE (labelled crypto_error ''encode RSA key: '' (il_encode_key libs key)) (\<lambda>key_der.
     bindE (labelled crypto_error ''load RSA key for certificate: '' (il_load_signing_key libs key_der)) (\<lambda>_.
     bindE (labelled crypto_error ''build certificate parameters: ''
              (il_check_names libs [''chromiacast.local''])) (\<lambda>_.
     bindE (labelled crypto_error ''sign client certificate: ''
              (il_self_sign libs key_der
                 \<lparr>cp_subject_alt_names = [''chromiacast.local''], cp_common_name = common_name,
                  cp_ca_path_length = 0, cp_serial_number = 1000,
                  cp_not_before = now1 - 86400, cp_not_after = now2 + 3650 * 86400\<rparr>)) (\<lambda>certificate.
       from_der libs certificate key_der))))))"

subsection \<open>Sizes of unsigned integers\<close>

definition be_value :: "bytes \<Rightarrow> nat" where
  "be_value bs = foldl (\<lambda>acc b. acc * 256 + unat b) 0 bs"

lemma foldl_be_value:
  "foldl (\<lambda>acc b. acc * 256 + unat b) a (bs :: bytes) =
     a * 256 ^ length bs + foldl (\<lambda>acc b. acc * 256 + unat b) 0 bs"
proof (induction bs arbitrary: a)
  case (Cons b bs)
  from Cons.IH [of "a * 256 + unat b"] Cons.IH [of "unat b"] show ?case
    by (simp add: algebra_simps)
qed simp

lemma be_value_Cons: "be_value (b # bs) = unat b * 256 ^ length bs + be_value bs"
  using foldl_be_value [of "unat b" bs] by (simp add: be_value_def)

lemma be_value_less: "be_value bs < 256 ^ length bs"
proof (induction bs)
  case (Cons b bs)
  have "Suc (unat b) \<le> 256" using unat_lt [of b] by simp
  then have "Suc (unat b) * 256 ^ length bs \<le> 256 * 256 ^ length bs" by (rule mult_le_mono1)
  then have "256 ^ length bs + unat b * 256 ^ length bs \<le> 256 ^ length (b # bs)" by simp
  with Cons show ?case unfolding be_value_Cons by linarith
qed (simp add: be_value_def)

lemma be_value_minimal_unsigned: "be_value (minimal_unsigned bs) = be_value bs"
  by (induction bs) (auto simp: minimal_unsigned_def be_value_Cons)

text \<open>A byte that is not zero has its highest bit at seven minus the leading zeros.\<close>

lemma bit_unat: "bit (b :: u8) k \<longleftrightarrow> odd (unat b div 2 ^ k)"
  using bit_unsigned_iff [where ?'a = nat, of b k] by (simp add: bit_iff_odd [of "unat b"])

lemma bit_le_unat: "bit (b :: u8) k \<Longrightarrow> 2 ^ k \<le> unat b"
  unfolding bit_unat by (metis div_less dvd_0_right not_le)

lemma bit_clear_less:
  assumes "unat (b :: u8) < 2 ^ Suc k" and "\<not> bit b k"
  shows "unat b < 2 ^ k"
proof -
  have "unat b div 2 ^ k < 2" using assms(1) by (simp add: less_mult_imp_div_less)
  with assms(2) have "unat b div 2 ^ k = 0" by (auto simp: bit_unat less_2_cases_iff)
  then show ?thesis by (simp add: div_eq_0_iff)
qed

lemma leading_zeros_exact:
  assumes "(b :: u8) \<noteq> 0"
  shows "leading_zeros b \<le> 7 \<and> 2 ^ (7 - leading_zeros b) \<le> unat b \<and> unat b < 2 ^ (8 - leading_zeros b)"
proof -
  note less = bit_clear_less [of b 7, simplified] bit_clear_less [of b 6, simplified] bit_clear_less [of b 5, simplified]
    bit_clear_less [of b 4, simplified] bit_clear_less [of b 3, simplified] bit_clear_less [of b 2, simplified]
    bit_clear_less [of b 1, simplified] bit_clear_less [of b 0, simplified]
  have "unat b < 256" using unat_lt [of b] by simp
  moreover have "unat b \<noteq> 0" using assms by (simp add: unat_eq_0)
  ultimately show ?thesis
    using less bit_le_unat [of b 7] bit_le_unat [of b 6] bit_le_unat [of b 5] bit_le_unat [of b 4]
      bit_le_unat [of b 3] bit_le_unat [of b 2] bit_le_unat [of b 1] bit_le_unat [of b 0]
    by (simp add: leading_zeros_def split: if_splits) argo
qed

lemma unsigned_bits_exact:
  assumes "b \<noteq> 0"
  shows "2 ^ (unsigned_bits (b # bs) - 1) \<le> be_value (b # bs) \<and> be_value (b # bs) < 2 ^ unsigned_bits (b # bs)"
proof -
  let ?z = "leading_zeros b" and ?n = "8 * length bs"
  have z: "?z \<le> 7" "2 ^ (7 - ?z) \<le> unat b" "Suc (unat b) \<le> 2 ^ (8 - ?z)"
    using leading_zeros_exact [OF assms] by auto
  have pow: "(256 :: nat) ^ length bs = 2 ^ ?n" by (simp add: power_mult)
  have bits: "unsigned_bits (b # bs) - 1 = (7 - ?z) + ?n" "unsigned_bits (b # bs) = (8 - ?z) + ?n"
    using z(1) by (auto simp: unsigned_bits_def)
  have "2 ^ (7 - ?z) * 2 ^ ?n \<le> unat b * (2 :: nat) ^ ?n" using z(2) by (rule mult_le_mono1)
  then have low: "2 ^ (unsigned_bits (b # bs) - 1) \<le> unat b * (2 :: nat) ^ ?n"
    unfolding bits(1) power_add .
  have "Suc (unat b) * 2 ^ ?n \<le> (2 :: nat) ^ (8 - ?z) * 2 ^ ?n" using z(3) by (rule mult_le_mono1)
  then have "2 ^ ?n + unat b * 2 ^ ?n \<le> (2 :: nat) ^ unsigned_bits (b # bs)"
    unfolding bits(2) power_add by simp
  with low show ?thesis
    using be_value_less [of bs] unfolding be_value_Cons pow by linarith
qed

lemma minimal_unsigned_head: "minimal_unsigned bs = b # rest \<Longrightarrow> b \<noteq> 0"
  by (metis (mono_tags) hd_dropWhile list.distinct(1) list.sel(1) minimal_unsigned_def)

lemma unsigned_bits_minimal:
  assumes "minimal_unsigned bs = m" and "0 < k" and "k \<le> unsigned_bits m"
  shows "2 ^ (k - 1) \<le> be_value m"
proof (cases m)
  case Nil
  with assms show ?thesis by (simp add: unsigned_bits_def)
next
  case (Cons b rest)
  from unsigned_bits_exact [of b rest] minimal_unsigned_head [of bs b rest] assms(1) Cons
  have "2 ^ (unsigned_bits m - 1) \<le> be_value m" by simp
  moreover have "(2 :: nat) ^ (k - 1) \<le> 2 ^ (unsigned_bits m - 1)" using assms by (intro power_increasing) auto
  ultimately show ?thesis by linarith
qed

subsection \<open>Identities\<close>

lemma labelled_eq_Inr [simp]: "labelled f label r = Inr a \<longleftrightarrow> r = Inr a"
  by (auto simp: labelled_def split: sum.splits)

lemma rsa_parameters_Inr:
  assumes "rsa_parameters_from_certificate libs der = Inr (m, x)"
  shows "\<exists>n e. il_parse_certificate libs der = Inr ([], Inr (RsaKey n e)) \<and> m = minimal_unsigned n \<and>
    x = minimal_unsigned e \<and> m \<noteq> [] \<and> x \<noteq> []"
proof -
  from assms obtain key where "il_parse_certificate libs der = Inr ([], Inr key)"
    and "(case key of OtherKey \<Rightarrow> Inl (invalid_identity ''certificate public key is not RSA'')
      | RsaKey n e \<Rightarrow> let modulus = minimal_unsigned n; exponent = minimal_unsigned e
          in if modulus = [] \<or> exponent = []
             then Inl (invalid_identity ''certificate contains an empty RSA parameter'')
             else Inr (modulus, exponent)) = Inr (m, x)"
    by (auto simp: rsa_parameters_from_certificate_def bindE_eq_Inr_iff)
  then show ?thesis by (cases key) (auto simp: Let_def split: if_splits)
qed

lemma from_der_Inr:
  assumes "from_der libs certificate key_der = Inr i"
  shows "id_certificate_der i = certificate \<and> id_private_key_pkcs8_der i = key_der \<and>
    (\<exists>key n e. il_parse_key libs key_der = Inr key \<and> il_validate_key libs key = Inr () \<and>
       il_public libs key = (id_modulus i, id_exponent i) \<and>
       il_parse_certificate libs certificate = Inr ([], Inr (RsaKey n e)) \<and>
       be_value (id_modulus i) = be_value n \<and> be_value (id_exponent i) = be_value e \<and>
       2 ^ 2047 \<le> be_value (id_modulus i) \<and> id_exponent i \<noteq> [])"
proof -
  from assms obtain m x key where p: "rsa_parameters_from_certificate libs certificate = Inr (m, x)"
    and bits: "RSA_BITS \<le> unsigned_bits m" and key: "il_parse_key libs key_der = Inr key" "il_validate_key libs key = Inr ()"
    "il_public libs key = (m, x)"
    and i: "i = \<lparr>id_certificate_der = certificate, id_private_key_pkcs8_der = key_der, id_modulus = m, id_exponent = x\<rparr>"
    by (auto simp: from_der_def bindE_eq_Inr_iff)
  from rsa_parameters_Inr [OF p] obtain n e where ne: "il_parse_certificate libs certificate = Inr ([], Inr (RsaKey n e))"
    "m = minimal_unsigned n" "x = minimal_unsigned e" "x \<noteq> []" by blast
  have "2 ^ (RSA_BITS - 1) \<le> be_value m"
    using unsigned_bits_minimal [OF ne(2) [symmetric] _ bits] by (simp add: RSA_BITS_def)
  then have "2 ^ 2047 \<le> be_value m" by (simp add: RSA_BITS_def)
  with key ne i show ?thesis by (simp add: be_value_minimal_unsigned)
qed

text \<open>A one-key library for which everything is in order: a modulus of 256 bytes.\<close>

definition example_modulus :: bytes where "example_modulus = 0x80 # replicate 255 1"

definition example_identity_libs :: "unit identity_libs" where
  "example_identity_libs = \<lparr>il_parse_certificate = (\<lambda>der. Inr ([], Inr (RsaKey (0 # example_modulus) [1, 0, 1]))),
     il_parse_key = (\<lambda>der. Inr ()), il_validate_key = (\<lambda>key. Inr ()), il_public = (\<lambda>key. (example_modulus, [1, 0, 1])),
     il_encode_key = (\<lambda>key. Inr [1]), il_load_signing_key = (\<lambda>der. Inr ()),
     il_check_names = (\<lambda>names. Inr ()), il_self_sign = (\<lambda>der parameters. Inr [2])\<rparr>"

text \<open>
  C38. An identity is what it says it is. When importing or generating one succeeds, the private
  key parsed and validated, its public key is the one of the certificate with the same modulus
  and exponent as numbers, the modulus has at least 2048 bits, and importing the stored
  certificate and key again gives the same identity.
\<close>

theorem identity_sound:
  assumes "from_der libs certificate key_der = Inr i \<or> generate libs new_key now1 now2 name = Inr i"
  shows "(\<exists>key n e. il_parse_key libs (id_private_key_pkcs8_der i) = Inr key \<and> il_validate_key libs key = Inr () \<and>
      il_public libs key = (id_modulus i, id_exponent i) \<and>
      il_parse_certificate libs (id_certificate_der i) = Inr ([], Inr (RsaKey n e)) \<and>
      be_value (id_modulus i) = be_value n \<and> be_value (id_exponent i) = be_value e \<and>
      2 ^ 2047 \<le> be_value (id_modulus i)) \<and>
    from_der libs (id_certificate_der i) (id_private_key_pkcs8_der i) = Inr i"
proof -
  from assms obtain c k where d: "from_der libs c k = Inr i"
    by (auto simp: generate_def bindE_eq_Inr_iff)
  from from_der_Inr [OF d] d show ?thesis by auto
qed

lemma identity_sound_witness:
  "\<exists>i. generate example_identity_libs (Inr ()) 0 0 ''me'' = Inr i \<and> 2 ^ 2047 \<le> be_value (id_modulus i) \<and>
     from_der example_identity_libs (id_certificate_der i) (id_private_key_pkcs8_der i) = Inr i"
proof -
  have "\<exists>i. generate example_identity_libs (Inr ()) 0 0 ''me'' = Inr i"
    by (simp add: generate_def from_der_def rsa_parameters_from_certificate_def example_identity_libs_def example_modulus_def
        validate_common_name_def no_control_def utf8_width_def control_def is_control_def Let_def labelled_def
        MAX_COMMON_NAME_BYTES_def MAX_CERTIFICATE_DER_BYTES_def MAX_PRIVATE_KEY_DER_BYTES_def RSA_BITS_def
        minimal_unsigned_def unsigned_bits_def leading_zeros_def bit_unat)
  then obtain i where i: "generate example_identity_libs (Inr ()) 0 0 ''me'' = Inr i" by blast
  with identity_sound [OF disjI2 [OF i]] show ?thesis by blast
qed

end
