(* ===== verification/Atv_Pairing.thy ===== *)
theory Atv_Pairing
  imports Atv_Identity
begin

text \<open>
  Pairing with an Android TV (\<open>src/android_tv/pairing.rs\<close>, the pairing messages of \<open>proto.rs\<close> and
  \<open>connection.rs\<close>): the displayed code and the secret derived from it, and the two exchanges.
  The protobuf codec, SHA-256 and the TLS connection are parameters.
\<close>

subsection \<open>The pairing code\<close>

definition is_ascii_hexdigit :: "u8 \<Rightarrow> bool" where
  "is_ascii_hexdigit b \<longleftrightarrow> 48 \<le> b \<and> b \<le> 57 \<or> 97 \<le> b \<and> b \<le> 102 \<or> 65 \<le> b \<and> b \<le> 70"

definition hex_digit_value :: "u8 \<Rightarrow> (u8, atv_error) result" where
  "hex_digit_value b =
     (if 48 \<le> b \<and> b \<le> 57 then Inr (b - 48)
      else if 97 \<le> b \<and> b \<le> 102 then Inr (b - 97 + 10)
      else if 65 \<le> b \<and> b \<le> 70 then Inr (b - 65 + 10)
      else Inl Panic)"

fun hex_pairs :: "bytes \<Rightarrow> (bytes, atv_error) result" where
  "hex_pairs (a # b # rest) =
     bindR (hex_digit_value a) (\<lambda>hi. bindR (hex_digit_value b) (\<lambda>lo. bindR (hex_pairs rest) (\<lambda>bs.
       Inr ((push_bit 4 hi OR lo) # bs))))"
| "hex_pairs _ = Inr []"

definition string_bytes :: "string \<Rightarrow> bytes" where
  "string_bytes s = map of_char s"

definition parse_pairing_code :: "string \<Rightarrow> (bytes, atv_error) result" where
  "parse_pairing_code code =
     (let bytes = string_bytes code
      in if length bytes \<noteq> 6 \<or> \<not> list_all is_ascii_hexdigit bytes then Inl (Err InvalidPairingCode)
         else hex_pairs bytes)"

definition compute_pairing_secret ::
  "(bytes \<Rightarrow> bytes) \<Rightarrow> bytes \<Rightarrow> bytes \<Rightarrow> bytes \<Rightarrow> bytes \<Rightarrow> string \<Rightarrow> (bytes, atv_error) result" where
  "compute_pairing_secret sha256 client_modulus client_exponent server_modulus server_exponent pairing_code =
     bindR (parse_pairing_code pairing_code) (\<lambda>code.
     bindR (sliceR code 1 (length code)) (\<lambda>tail.
     let secret = sha256 (client_modulus @ client_exponent @ server_modulus @ server_exponent @ tail)
     in bindR (indexR secret 0) (\<lambda>s0.
        bindR (indexR code 0) (\<lambda>c0.
          if s0 \<noteq> c0 then Inl (Err InvalidPairingCode) else Inr secret))))"

subsection \<open>Messages\<close>

definition PAIRING_STATUS_OK :: i32 where "PAIRING_STATUS_OK = 200"
definition PAIRING_PROTOCOL_VERSION :: u32 where "PAIRING_PROTOCOL_VERSION = 2"
definition ROLE_INPUT :: i32 where "ROLE_INPUT = 1"
definition ENCODING_HEXADECIMAL :: i32 where "ENCODING_HEXADECIMAL = 3"
definition PAIRING_SYMBOL_LENGTH :: u32 where "PAIRING_SYMBOL_LENGTH = 6"

record pairing_encoding =
  pe_encoding_type :: i32
  pe_symbol_length :: u32

record pairing_request =
  pr_service_name :: string
  pr_client_name :: "string option"

record pairing_options =
  po_input_encodings :: "pairing_encoding list"
  po_output_encodings :: "pairing_encoding list"
  po_preferred_role :: "i32 option"

record pairing_configuration =
  pc_encoding :: "pairing_encoding option"
  pc_client_role :: i32

text \<open>A request acknowledgement is the optional server name; the secret and its acknowledgement are
  their bytes; the configuration acknowledgement has no fields.\<close>

record pairing_envelope =
  pv_protocol_version :: u32
  pv_status :: i32
  pv_pairing_request :: "pairing_request option"
  pv_pairing_request_ack :: "string option option"
  pv_options :: "pairing_options option"
  pv_configuration :: "pairing_configuration option"
  pv_configuration_ack :: "unit option"
  pv_secret :: "bytes option"
  pv_secret_ack :: "bytes option"

definition envelope_ok :: pairing_envelope where
  "envelope_ok =
     \<lparr>pv_protocol_version = PAIRING_PROTOCOL_VERSION, pv_status = PAIRING_STATUS_OK,
      pv_pairing_request = None, pv_pairing_request_ack = None, pv_options = None, pv_configuration = None,
      pv_configuration_ack = None, pv_secret = None, pv_secret_ack = None\<rparr>"

definition hexadecimal_pin :: pairing_encoding where
  "hexadecimal_pin = \<lparr>pe_encoding_type = ENCODING_HEXADECIMAL, pe_symbol_length = PAIRING_SYMBOL_LENGTH\<rparr>"

definition is_hexadecimal_pin :: "pairing_encoding \<Rightarrow> bool" where
  "is_hexadecimal_pin e \<longleftrightarrow>
     pe_encoding_type e = ENCODING_HEXADECIMAL \<and> pe_symbol_length e = PAIRING_SYMBOL_LENGTH"

type_synonym pairing_decoder = "bytes \<Rightarrow> string + pairing_envelope"
type_synonym pairing_encoder = "pairing_envelope \<Rightarrow> bytes"

subsection \<open>Exchanges\<close>

definition SERVICE_NAME :: string where "SERVICE_NAME = ''atvremote''"
definition MAX_PEER_NAME_BYTES :: nat where "MAX_PEER_NAME_BYTES = 256"
definition MAX_CLIENT_NAME_BYTES :: nat where "MAX_CLIENT_NAME_BYTES = 128"

definition validate_client_name :: "string \<Rightarrow> atv_error + unit" where
  "validate_client_name name =
     ensure (name \<noteq> [] \<and> length name \<le> MAX_CLIENT_NAME_BYTES \<and> no_control name)
       (InvalidClientInfo ''pairing client name must be 1..=128 bytes without control characters'')"

definition validate_peer_name :: "string \<Rightarrow> atv_error + string" where
  "validate_peer_name name =
     (if length name > MAX_PEER_NAME_BYTES \<or> \<not> no_control name
      then Inl (protocol_error ''pairing server name is invalid'') else Inr name)"

definition check_envelope :: "pairing_envelope \<Rightarrow> atv_error + pairing_envelope" where
  "check_envelope m =
     (if pv_status m \<noteq> PAIRING_STATUS_OK then Inl (PairingRejected (pv_status m))
      else if pv_protocol_version m = 0 \<or> pv_protocol_version m > 2
      then Inl (protocol_error (''unsupported pairing protocol version '' @ show_nat (unat (pv_protocol_version m))))
      else Inr m)"

definition read_pairing :: "pairing_decoder \<Rightarrow> string \<Rightarrow> pairing_envelope exchange" where
  "read_pairing dec operation =
     bindX (receive_frame operation) (\<lambda>frame. liftX
       (case dec frame of
          Inl e \<Rightarrow> Inl (protocol_error (''decode '' @ operation @ '': '' @ e))
        | Inr m \<Rightarrow> check_envelope m))"

definition write_pairing :: "pairing_encoder \<Rightarrow> pairing_envelope \<Rightarrow> string \<Rightarrow> unit exchange" where
  "write_pairing enc m operation = write_body operation (enc m)"

record pairing_exchange =
  px_client_modulus :: bytes
  px_client_exponent :: bytes
  px_server_modulus :: bytes
  px_server_exponent :: bytes
  px_server_name :: "string option"

definition request_envelope :: "string \<Rightarrow> pairing_envelope" where
  "request_envelope client_name =
     envelope_ok\<lparr>pv_pairing_request :=
       Some \<lparr>pr_service_name = SERVICE_NAME, pr_client_name = Some client_name\<rparr>\<rparr>"

definition options_envelope :: pairing_envelope where
  "options_envelope =
     envelope_ok\<lparr>pv_options :=
       Some \<lparr>po_input_encodings = [hexadecimal_pin], po_output_encodings = [], po_preferred_role = Some ROLE_INPUT\<rparr>\<rparr>"

definition configuration_envelope :: pairing_envelope where
  "configuration_envelope =
     envelope_ok\<lparr>pv_configuration :=
       Some \<lparr>pc_encoding = Some hexadecimal_pin, pc_client_role = ROLE_INPUT\<rparr>\<rparr>"

definition secret_envelope :: "bytes \<Rightarrow> pairing_envelope" where
  "secret_envelope secret = envelope_ok\<lparr>pv_secret := Some secret\<rparr>"

text \<open>\<open>map(validate_peer_name).transpose()?.filter(not empty)\<close>\<close>

definition checked_server_name :: "string option \<Rightarrow> atv_error + string option" where
  "checked_server_name name =
     (case name of
        None \<Rightarrow> Inr None
      | Some n \<Rightarrow> bindE (validate_peer_name n) (\<lambda>n. Inr (if n = [] then None else Some n)))"

definition begin_exchange ::
  "pairing_decoder \<Rightarrow> pairing_encoder \<Rightarrow> bytes \<Rightarrow> bytes \<Rightarrow> bytes \<Rightarrow> bytes \<Rightarrow> string \<Rightarrow> pairing_exchange exchange" where
  "begin_exchange dec enc client_modulus client_exponent server_modulus server_exponent client_name =
     bindX (write_pairing enc (request_envelope client_name) ''pairing request'') (\<lambda>_.
     bindX (read_pairing dec ''pairing acknowledgement'') (\<lambda>acknowledgement.
     bindX (liftX (bindE (ok_or (pv_pairing_request_ack acknowledgement)
              (protocol_error ''expected pairing-request acknowledgement'')) checked_server_name)) (\<lambda>server_name.
     bindX (write_pairing enc options_envelope ''pairing options'') (\<lambda>_.
     bindX (read_pairing dec ''device pairing options'') (\<lambda>reply.
     bindX (liftX (ok_or (pv_options reply) (protocol_error ''expected device pairing options''))) (\<lambda>device_options.
     bindX (liftX (ensure (list_ex is_hexadecimal_pin (po_output_encodings device_options))
              UnsupportedPairingConfiguration)) (\<lambda>_.
     bindX (write_pairing enc configuration_envelope ''pairing configuration'') (\<lambda>_.
     bindX (read_pairing dec ''pairing configuration acknowledgement'') (\<lambda>acknowledgement.
     bindX (liftX (ensure (pv_configuration_ack acknowledgement \<noteq> None)
              (protocol_error ''expected pairing-configuration acknowledgement''))) (\<lambda>_.
       returnX \<lparr>px_client_modulus = client_modulus, px_client_exponent = client_exponent,
                px_server_modulus = server_modulus, px_server_exponent = server_exponent,
                px_server_name = server_name\<rparr>))))))))))"

text \<open>The exchange that submits the secret; the final shutdown's outcome is ignored.\<close>

definition submit_secret :: "pairing_decoder \<Rightarrow> pairing_encoder \<Rightarrow> bytes \<Rightarrow> unit exchange" where
  "submit_secret dec enc secret =
     bindX (write_pairing enc (secret_envelope secret) ''pairing secret'') (\<lambda>_.
     bindX (read_pairing dec ''pairing-secret acknowledgement'') (\<lambda>acknowledgement.
       liftX (ensure (pv_secret_ack acknowledgement \<noteq> None)
         (protocol_error ''expected pairing-secret acknowledgement''))))"

definition finish_exchange ::
  "(bytes \<Rightarrow> bytes) \<Rightarrow> pairing_decoder \<Rightarrow> pairing_encoder \<Rightarrow> pairing_exchange \<Rightarrow> string \<Rightarrow> link \<Rightarrow>
     (unit, atv_error) result \<times> link" where
  "finish_exchange sha256 dec enc x pairing_code l =
     (case compute_pairing_secret sha256 (px_client_modulus x) (px_client_exponent x)
             (px_server_modulus x) (px_server_exponent x) pairing_code of
        Inl f \<Rightarrow> (Inl f, l)
      | Inr secret \<Rightarrow>
          (case submit_secret dec enc secret l of (Inl e, l') \<Rightarrow> (Inl (Err e), l') | (Inr u, l') \<Rightarrow> (Inr u, l')))"

subsection \<open>Connecting\<close>

datatype 'a tv_timed = Elapsed | Ended "string + 'a"

record tv_connect_env =
  ce_tcp :: "unit tv_timed"
  ce_nodelay :: "io_fault + unit"
  ce_client_auth :: "bytes \<Rightarrow> bytes \<Rightarrow> string + unit"
  ce_tls :: "link tv_timed"
  ce_peer_certificates :: "bytes list option"

definition tv_timed_step :: "string \<Rightarrow> string \<Rightarrow> 'a tv_timed \<Rightarrow> atv_error + 'a" where
  "tv_timed_step operation label t =
     (case t of
        Elapsed \<Rightarrow> Inl (TimedOut operation)
      | Ended (Inl e) \<Rightarrow> Inl (Connection (label @ e))
      | Ended (Inr a) \<Rightarrow> Inr a)"

definition atv_peer_certificate :: "tv_connect_env \<Rightarrow> atv_error + bytes" where
  "atv_peer_certificate env =
     ok_or (Option.bind (ce_peer_certificates env) (\<lambda>cs. case cs of [] \<Rightarrow> None | c # _ \<Rightarrow> Some c))
       (Connection ''device did not present a TLS certificate'')"

definition atv_connect :: "tv_connect_env \<Rightarrow> string \<Rightarrow> remote_identity \<Rightarrow> atv_error + link" where
  "atv_connect env address identity =
     bindE (tv_timed_step ''TCP connection'' (''connect to '' @ address @ '': '') (ce_tcp env)) (\<lambda>_.
     bindE (from_io (ce_nodelay env)) (\<lambda>_.
     bindE (case ce_client_auth env (id_certificate_der identity) (id_private_key_pkcs8_der identity) of
              Inl e \<Rightarrow> Inl (InvalidIdentity (''configure mutual TLS: '' @ e)) | Inr u \<Rightarrow> Inr u) (\<lambda>_.
     bindE (tv_timed_step ''TLS handshake'' (''TLS with '' @ address @ '': '') (ce_tls env)) (\<lambda>stream.
     bindE (atv_peer_certificate env) (\<lambda>_. Inr stream)))))"

definition begin_address ::
  "'k identity_libs \<Rightarrow> pairing_decoder \<Rightarrow> pairing_encoder \<Rightarrow> tv_connect_env \<Rightarrow> string \<Rightarrow> remote_identity \<Rightarrow> string \<Rightarrow>
     (atv_error + pairing_exchange) \<times> link option" where
  "begin_address libs dec enc env address identity client_name =
     (case bindE (validate_client_name client_name) (\<lambda>_.
             bindE (atv_connect env address identity) (\<lambda>connection.
             bindE (atv_peer_certificate env) (\<lambda>certificate.
             bindE (case rsa_parameters_from_certificate libs certificate of
                      Inl e \<Rightarrow> Inl (protocol_error
                        (''device TLS certificate is unusable for pairing: '' @ atv_error_display e))
                    | Inr p \<Rightarrow> Inr p) (\<lambda>parameters.
               Inr (connection, parameters))))) of
        Inl e \<Rightarrow> (Inl e, None)
      | Inr (connection, server_modulus, server_exponent) \<Rightarrow>
          (case begin_exchange dec enc (id_modulus identity) (id_exponent identity)
                  server_modulus server_exponent client_name connection of
             (r, l) \<Rightarrow> (r, Some l)))"

subsection \<open>Codes\<close>

text \<open>The two hexadecimal digits of a byte, in lower case.\<close>

definition hex_digit :: "u8 \<Rightarrow> u8" where
  "hex_digit v = (if v < 10 then 48 + v else 87 + v)"

definition hex_text :: "bytes \<Rightarrow> bytes" where
  "hex_text bs = concat (map (\<lambda>b. [hex_digit (drop_bit 4 b), hex_digit (b AND 15)]) bs)"

definition to_ascii_lowercase :: "u8 \<Rightarrow> u8" where
  "to_ascii_lowercase b = (if 65 \<le> b \<and> b \<le> 90 then b + 32 else b)"

lemma unat_byte_sub: "(k :: u8) \<le> a \<Longrightarrow> unat (a - k) = unat a - unat k"
  by (simp add: unat_sub word_le_nat_alt)

lemma unat_byte_add: "unat (k :: u8) + unat a < 256 \<Longrightarrow> unat (k + a) = unat k + unat a"
  by (simp add: unat_word_ariths)

lemma hex_digit_value_exact: "hex_digit_value a = Inr v \<longleftrightarrow> v < 16 \<and> to_ascii_lowercase a = hex_digit v"
proof -
  define n m where "n = unat a" and "m = unat v"
  have n: "n < 256" and m: "m < 256" using unat_lt [of a] unat_lt [of v] by (simp_all add: n_def m_def)
  have val_eq: "hex_digit_value a = Inr v \<longleftrightarrow>
      (if 48 \<le> n \<and> n \<le> 57 then m = n - 48 else if 97 \<le> n \<and> n \<le> 102 then m = n - 97 + 10
       else 65 \<le> n \<and> n \<le> 70 \<and> m = n - 65 + 10)"
    by (auto simp: hex_digit_value_def n_def m_def word_unat_eq_iff word_le_nat_alt unat_sub unat_word_ariths)
  have digit: "v < 16 \<and> to_ascii_lowercase a = hex_digit v \<longleftrightarrow>
      m < 16 \<and> (if 65 \<le> n \<and> n \<le> 90 then n + 32 else n) = (if m < 10 then 48 + m else 87 + m)"
    using m by (auto simp: to_ascii_lowercase_def hex_digit_def n_def m_def word_unat_eq_iff word_le_nat_alt
        word_less_nat_alt unat_word_ariths)
  show ?thesis unfolding val_eq digit using n m by auto
qed

lemma is_ascii_hexdigit_iff: "is_ascii_hexdigit b \<longleftrightarrow> (\<exists>v. hex_digit_value b = Inr v)"
  by (auto simp: is_ascii_hexdigit_def hex_digit_value_def)

lemma take_bit_nibble: "w < (16 :: u8) \<Longrightarrow> take_bit 4 w = w"
  by (simp add: word_less_nat_alt word_unat_eq_iff unsigned_take_bit_eq take_bit_nat_eq_self)

lemma unat_and_15: "unat ((w :: u8) AND 15) = unat w mod 16"
proof -
  have "w AND 15 = take_bit 4 w" by (simp add: take_bit_eq_mask mask_eq_exp_minus_1)
  then show ?thesis by (simp add: take_bit_eq_mod unat_mod)
qed

lemma nibbles_add:
  assumes "hi < (16 :: u8)" "lo < 16"
  shows "unat (push_bit 4 hi OR lo) = 16 * unat hi + unat lo"
proof -
  have "bit lo n \<Longrightarrow> n < 4" for n
    using take_bit_nibble [OF assms(2)] by (metis bit_take_bit_iff)
  then have "push_bit 4 hi OR lo = push_bit 4 hi + lo"
    by (intro disjunctive_add [symmetric]) (fastforce simp: bit_push_bit_iff not_less [symmetric])
  with assms show ?thesis
    by (simp add: push_bit_eq_mult unat_word_ariths word_less_nat_alt)
qed

lemma nibbles_exact:
  assumes "hi < (16 :: u8)" "lo < 16"
  shows "push_bit 4 hi OR lo = b \<longleftrightarrow> hi = drop_bit 4 b \<and> lo = b AND 15"
proof -
  have "unat (drop_bit 4 b) = unat b div 16" by (simp add: drop_bit_eq_div unat_div)
  moreover have "16 * h + l = n \<longleftrightarrow> h = n div 16 \<and> l = n mod 16" if "l < 16" for h l n :: nat
    using that by auto
  ultimately show ?thesis
    using assms nibbles_add [OF assms] unat_and_15 [of b]
    by (simp add: word_unat_eq_iff word_less_nat_alt)
qed

lemma nibble_less: "drop_bit 4 (b :: u8) < 16" "(b :: u8) AND 15 < 16"
  using unat_lt [of b] by (simp_all add: word_less_nat_alt drop_bit_eq_div unat_div unat_and_15)

lemma hex_text_simps [simp]:
  "hex_text [] = []" "hex_text (b # bs) = hex_digit (drop_bit 4 b) # hex_digit (b AND 15) # hex_text bs"
  by (simp_all add: hex_text_def)

lemma hex_pair_exact:
  "(\<exists>hi lo. hex_digit_value a = Inr hi \<and> hex_digit_value b = Inr lo \<and> push_bit 4 hi OR lo = x) \<longleftrightarrow>
     to_ascii_lowercase a = hex_digit (drop_bit 4 x) \<and> to_ascii_lowercase b = hex_digit (x AND 15)"
  unfolding hex_digit_value_exact using nibbles_exact nibble_less by metis

lemma hex_pairs_exact:
  "even (length xs) \<Longrightarrow> hex_pairs xs = Inr bs \<longleftrightarrow> map to_ascii_lowercase xs = hex_text bs"
proof (induction xs arbitrary: bs rule: induct_list012)
  case (3 a b rest)
  have "hex_pairs (a # b # rest) = Inr bs \<longleftrightarrow>
      (\<exists>x r. bs = x # r \<and> hex_pairs rest = Inr r \<and>
         (\<exists>hi lo. hex_digit_value a = Inr hi \<and> hex_digit_value b = Inr lo \<and> push_bit 4 hi OR lo = x))"
    by (auto simp: bindR_eq_Inr_iff)
  also have "\<dots> \<longleftrightarrow> (\<exists>x r. bs = x # r \<and> map to_ascii_lowercase rest = hex_text r \<and>
      to_ascii_lowercase a = hex_digit (drop_bit 4 x) \<and> to_ascii_lowercase b = hex_digit (x AND 15))"
    unfolding hex_pair_exact using 3 by auto
  also have "\<dots> \<longleftrightarrow> map to_ascii_lowercase (a # b # rest) = hex_text bs"
    by (cases bs) auto
  finally show ?case .
qed (auto simp: hex_text_def)

lemma lowercase_hexdigit: "to_ascii_lowercase a = hex_digit v \<Longrightarrow> v < 16 \<Longrightarrow> is_ascii_hexdigit a"
  using hex_digit_value_exact [of a v] by (auto simp: is_ascii_hexdigit_iff)

lemma hex_text_hexdigits:
  "map to_ascii_lowercase xs = hex_text bs \<Longrightarrow> list_all is_ascii_hexdigit xs \<and> length xs = 2 * length bs"
proof (induction bs arbitrary: xs)
  case (Cons b bs)
  then obtain x y ys where "xs = x # y # ys" "map to_ascii_lowercase ys = hex_text bs"
    "to_ascii_lowercase x = hex_digit (drop_bit 4 b)" "to_ascii_lowercase y = hex_digit (b AND 15)"
    by (auto simp: map_eq_Cons_conv)
  with Cons.IH [of ys] show ?case by (auto intro: lowercase_hexdigit nibble_less)
qed simp

lemma hex_pairs_defined: "list_all is_ascii_hexdigit xs \<Longrightarrow> \<exists>bs. hex_pairs xs = Inr bs"
proof (induction xs rule: induct_list012)
  case (3 a b rest)
  then obtain hi lo bs where "hex_digit_value a = Inr hi" "hex_digit_value b = Inr lo" "hex_pairs rest = Inr bs"
    by (auto simp: is_ascii_hexdigit_iff)
  then show ?case by simp
qed simp_all

lemma parse_pairing_code_Inr:
  "parse_pairing_code code = Inr bs \<longleftrightarrow>
     length bs = 3 \<and> map to_ascii_lowercase (string_bytes code) = hex_text bs"
proof -
  let ?xs = "string_bytes code"
  have "parse_pairing_code code = Inr bs \<longleftrightarrow> length ?xs = 6 \<and> list_all is_ascii_hexdigit ?xs \<and> hex_pairs ?xs = Inr bs"
    by (auto simp: parse_pairing_code_def Let_def)
  then show ?thesis using hex_pairs_exact [of ?xs bs] hex_text_hexdigits [of ?xs bs] by auto
qed

text \<open>
  The pairing code is read exactly. A code is accepted with the bytes \<open>bs\<close> if and only if
  there are three of them and the code is their hexadecimal text, in either case; every other
  code is rejected as an invalid pairing code, and no code makes the parser panic.
\<close>

theorem pairing_code_exact:
  "(parse_pairing_code code = Inr bs \<longleftrightarrow>
      length bs = 3 \<and> map to_ascii_lowercase (string_bytes code) = hex_text bs) \<and>
   ((\<exists>bs. parse_pairing_code code = Inr bs) \<or> parse_pairing_code code = Inl (Err InvalidPairingCode))"
  using parse_pairing_code_Inr [of code bs] hex_pairs_defined [of "string_bytes code"]
  by (auto simp: parse_pairing_code_def Let_def)

lemma compute_pairing_secret_Inr:
  assumes "compute_pairing_secret sha256 cm ce sm se code = Inr secret"
  shows "\<exists>c0 c1 c2. parse_pairing_code code = Inr [c0, c1, c2] \<and>
    secret = sha256 (cm @ ce @ sm @ se @ [c1, c2]) \<and> secret \<noteq> [] \<and> hd secret = c0"
proof -
  from assms obtain bs where bs: "parse_pairing_code code = Inr bs" by (auto simp: compute_pairing_secret_def bindR_eq_Inr_iff)
  with parse_pairing_code_Inr [of code bs] obtain c0 c1 c2 where "bs = [c0, c1, c2]"
    by (auto simp: length_Suc_conv numeral_3_eq_3)
  with assms bs show ?thesis
    by (auto simp: compute_pairing_secret_def Let_def bindR_eq_Inr_iff indexR_def sliceR_def hd_conv_nth split: if_splits)
qed

lemma compute_pairing_secret_errors:
  "compute_pairing_secret sha256 cm ce sm se code = Inl Panic \<or>
   compute_pairing_secret sha256 cm ce sm se code = Inl (Err InvalidPairingCode) \<or>
   (\<exists>secret. compute_pairing_secret sha256 cm ce sm se code = Inr secret)"
proof (cases "parse_pairing_code code")
  case (Inl f)
  with hex_pairs_defined [of "string_bytes code"] show ?thesis
    by (auto simp: compute_pairing_secret_def parse_pairing_code_def Let_def split: if_splits)
next
  case (Inr bs)
  then show ?thesis
    by (auto simp: compute_pairing_secret_def Let_def bindR_def indexR_def sliceR_def)
qed

lemma compute_pairing_secret_no_panic:
  assumes "\<And>x. sha256 x \<noteq> []"
  shows "no_panic (compute_pairing_secret sha256 cm ce sm se code)"
proof (cases "parse_pairing_code code")
  case (Inl f)
  with hex_pairs_defined [of "string_bytes code"] show ?thesis
    by (auto simp: compute_pairing_secret_def parse_pairing_code_def Let_def split: if_splits)
next
  case (Inr bs)
  with parse_pairing_code_Inr [of code bs] obtain c0 c1 c2 where "bs = [c0, c1, c2]"
    by (auto simp: length_Suc_conv numeral_3_eq_3)
  with Inr assms show ?thesis
    by (simp add: compute_pairing_secret_def Let_def indexR_def sliceR_def)
qed

subsection \<open>The exchanges\<close>

definition accepted_envelope :: "pairing_envelope \<Rightarrow> bool" where
  "accepted_envelope m \<longleftrightarrow>
     pv_status m = PAIRING_STATUS_OK \<and> 1 \<le> pv_protocol_version m \<and> pv_protocol_version m \<le> 2"

text \<open>The replies of a device that pairs.\<close>

definition pairing_replies :: "pairing_envelope \<Rightarrow> pairing_envelope \<Rightarrow> pairing_envelope \<Rightarrow> bool" where
  "pairing_replies acknowledgement options configured \<longleftrightarrow>
     list_all accepted_envelope [acknowledgement, options, configured] \<and>
     (\<exists>name checked. pv_pairing_request_ack acknowledgement = Some name \<and> checked_server_name name = Inr checked) \<and>
     (\<exists>os. pv_options options = Some os \<and> list_ex is_hexadecimal_pin (po_output_encodings os)) \<and>
     pv_configuration_ack configured \<noteq> None"

lemma version_range: "1 \<le> v \<and> v \<le> 2 \<longleftrightarrow> \<not> (v = 0 \<or> 2 < (v :: u32))"
  unfolding word_le_nat_alt word_less_nat_alt word_unat_eq_iff by (simp add: Suc_le_eq not_less)

lemma check_envelope_Inr: "check_envelope m = Inr m' \<longleftrightarrow> m' = m \<and> accepted_envelope m"
  unfolding check_envelope_def accepted_envelope_def version_range by auto

lemma read_pairing_Inr:
  assumes "read_pairing dec operation l = (Inr m, l')"
  shows "took_messages dec l [m] l' \<and> lk_sent l' = lk_sent l \<and> accepted_envelope m"
proof -
  from assms obtain frame where read: "receive_frame operation l = (Inr frame, l')"
    and m: "(case dec frame of Inl e \<Rightarrow> Inl (protocol_error (''decode '' @ operation @ '': '' @ e))
        | Inr m \<Rightarrow> check_envelope m) = Inr m"
    by (auto simp: read_pairing_def exchange_rules)
  from m have "dec frame = Inr m" "accepted_envelope m"
    by (auto simp: check_envelope_Inr split: sum.splits)
  with receive_frame_took [of operation l frame l' dec m, OF read] receive_frame_traffic [OF read]
  show ?thesis by simp
qed

lemma write_pairing_Inr:
  "write_pairing enc m operation l = (Inr u, l') \<Longrightarrow> lk_sent l' = lk_sent l @ [enc m] \<and> lk_inbound l' = lk_inbound l"
  by (auto simp: write_pairing_def dest!: write_body_traffic)

lemma took_after:
  "lk_inbound l = lk_inbound l0 \<Longrightarrow> took_messages dec l ms l' \<Longrightarrow> took_messages dec l0 ms l'"
  by (simp add: took_messages_def)

lemma begin_exchange_Inr:
  assumes "begin_exchange dec enc cm ce sm se name l = (Inr x, l')"
  shows "\<exists>a1 a2 a3. took_messages dec l [a1, a2, a3] l' \<and> pairing_replies a1 a2 a3 \<and>
    px_client_modulus x = cm \<and> px_client_exponent x = ce \<and> px_server_modulus x = sm \<and> px_server_exponent x = se \<and>
    lk_sent l' = lk_sent l @ map enc [request_envelope name, options_envelope, configuration_envelope]"
proof -
  from assms obtain l1 l2 l3 l4 l5 a1 a2 a3 server_name os where
    w1: "write_pairing enc (request_envelope name) ''pairing request'' l = (Inr (), l1)"
    and r1: "read_pairing dec ''pairing acknowledgement'' l1 = (Inr a1, l2)"
    and ack: "bindE (ok_or (pv_pairing_request_ack a1) (protocol_error ''expected pairing-request acknowledgement''))
        checked_server_name = Inr server_name"
    and w2: "write_pairing enc options_envelope ''pairing options'' l2 = (Inr (), l3)"
    and r2: "read_pairing dec ''device pairing options'' l3 = (Inr a2, l4)"
    and opts: "pv_options a2 = Some os" "list_ex is_hexadecimal_pin (po_output_encodings os)"
    and w3: "write_pairing enc configuration_envelope ''pairing configuration'' l4 = (Inr (), l5)"
    and r3: "read_pairing dec ''pairing configuration acknowledgement'' l5 = (Inr a3, l')"
    and conf: "pv_configuration_ack a3 \<noteq> None"
    and x: "x = \<lparr>px_client_modulus = cm, px_client_exponent = ce, px_server_modulus = sm, px_server_exponent = se,
        px_server_name = server_name\<rparr>"
    by (auto simp: begin_exchange_def exchange_rules)
  note sent = write_pairing_Inr [OF w1] write_pairing_Inr [OF w2] write_pairing_Inr [OF w3]
  note read = read_pairing_Inr [OF r1] read_pairing_Inr [OF r2] read_pairing_Inr [OF r3]
  have "took_messages dec l [a1] l2" "took_messages dec l2 [a2] l4" "took_messages dec l4 [a3] l'"
    using sent read took_after [of l1 l] took_after [of l3 l2] took_after [of l5 l4] by auto
  then have "took_messages dec l ([a1] @ [a2] @ [a3]) l'" by (blast intro: took_messages_append)
  moreover have "pairing_replies a1 a2 a3"
    using read ack opts conf by (auto simp: pairing_replies_def bindE_eq_Inr_iff)
  ultimately show ?thesis
    using sent read x by (intro exI [of _ a1] exI [of _ a2] exI [of _ a3]) simp
qed

lemma submit_secret_Inr:
  assumes "submit_secret dec enc secret l = (Inr u, l')"
  shows "\<exists>a. took_messages dec l [a] l' \<and> accepted_envelope a \<and> pv_secret_ack a \<noteq> None \<and>
    lk_sent l' = lk_sent l @ [enc (secret_envelope secret)]"
proof -
  from assms obtain l1 a where
    w: "write_pairing enc (secret_envelope secret) ''pairing secret'' l = (Inr (), l1)"
    and r: "read_pairing dec ''pairing-secret acknowledgement'' l1 = (Inr a, l')" and a: "pv_secret_ack a \<noteq> None"
    by (auto simp: submit_secret_def exchange_rules)
  from write_pairing_Inr [OF w] read_pairing_Inr [OF r] a took_after [of l1 l] show ?thesis
    by (intro exI [of _ a]) auto
qed

lemma finish_exchange_Inr:
  assumes "finish_exchange sha256 dec enc x code l = (Inr u, l')"
  obtains secret where "compute_pairing_secret sha256 (px_client_modulus x) (px_client_exponent x)
      (px_server_modulus x) (px_server_exponent x) code = Inr secret"
    and "submit_secret dec enc secret l = (Inr u, l')"
  using assms by (auto simp: finish_exchange_def split: sum.splits prod.splits)

lemma sends_begin_exchange:
  "sends (begin_exchange dec enc cm ce sm se name)
     (map enc [request_envelope name, options_envelope, configuration_envelope])"
  unfolding begin_exchange_def read_pairing_def write_pairing_def list.map
  by (intro sends_write_bindX sends_silent_bindX sends_rules)

subsubsection \<open>On a prompt connection\<close>

lemma ready_read_pairing:
  assumes "ready dec l (m # ms) out" and "accepted_envelope m"
  shows "\<exists>l'. read_pairing dec operation l = (Inr m, l') \<and> ready dec l' ms out \<and> lk_sent l' = lk_sent l"
  using ready_receive [OF assms(1), of operation] assms(2) check_envelope_Inr [of m m]
  by (auto simp: read_pairing_def bindX_def liftX_def)

lemma ready_write_pairing:
  assumes "ready dec l ms (enc m # out)"
  shows "\<exists>l'. write_pairing enc m operation l = (Inr (), l') \<and> ready dec l' ms out \<and> lk_sent l' = lk_sent l @ [enc m]"
  using ready_write [OF assms, of operation] by (simp add: write_pairing_def)

lemma begin_exchange_ready:
  assumes "pairing_replies a1 a2 a3"
    and "ready dec l ([a1, a2, a3] @ later)
           (map enc [request_envelope name, options_envelope, configuration_envelope] @ out)"
  shows "\<exists>x l'. begin_exchange dec enc cm ce sm se name l = (Inr x, l') \<and> ready dec l' later out \<and>
    px_client_modulus x = cm \<and> px_client_exponent x = ce \<and> px_server_modulus x = sm \<and> px_server_exponent x = se"
proof -
  from assms(1) obtain reported checked os where ok: "accepted_envelope a1" "accepted_envelope a2" "accepted_envelope a3"
    and ack: "pv_pairing_request_ack a1 = Some reported" "checked_server_name reported = Inr checked"
    and opts: "pv_options a2 = Some os" "list_ex is_hexadecimal_pin (po_output_encodings os)"
    and conf: "pv_configuration_ack a3 \<noteq> None"
    by (auto simp: pairing_replies_def)
  from assms(2) have start: "ready dec l (a1 # a2 # a3 # later)
      (enc (request_envelope name) # enc options_envelope # enc configuration_envelope # out)" by simp
  obtain l1 where l1: "write_pairing enc (request_envelope name) ''pairing request'' l = (Inr (), l1)"
    "ready dec l1 (a1 # a2 # a3 # later) (enc options_envelope # enc configuration_envelope # out)"
    using ready_write_pairing [where enc = enc, OF start] by blast
  obtain l2 where l2: "read_pairing dec ''pairing acknowledgement'' l1 = (Inr a1, l2)"
    "ready dec l2 (a2 # a3 # later) (enc options_envelope # enc configuration_envelope # out)"
    using ready_read_pairing [OF l1(2) ok(1)] by blast
  obtain l3 where l3: "write_pairing enc options_envelope ''pairing options'' l2 = (Inr (), l3)"
    "ready dec l3 (a2 # a3 # later) (enc configuration_envelope # out)"
    using ready_write_pairing [where enc = enc, OF l2(2)] by blast
  obtain l4 where l4: "read_pairing dec ''device pairing options'' l3 = (Inr a2, l4)"
    "ready dec l4 (a3 # later) (enc configuration_envelope # out)"
    using ready_read_pairing [OF l3(2) ok(2)] by blast
  obtain l5 where l5: "write_pairing enc configuration_envelope ''pairing configuration'' l4 = (Inr (), l5)"
    "ready dec l5 (a3 # later) out"
    using ready_write_pairing [where enc = enc, OF l4(2)] by blast
  obtain l6 where l6: "read_pairing dec ''pairing configuration acknowledgement'' l5 = (Inr a3, l6)" "ready dec l6 later out"
    using ready_read_pairing [OF l5(2) ok(3)] by blast
  show ?thesis
    using l1(1) l2(1) l3(1) l4(1) l5(1) l6 ack opts conf
    by (simp add: begin_exchange_def bindX_def liftX_def returnX_def)
qed

lemma finish_exchange_ready:
  assumes "compute_pairing_secret sha256 (px_client_modulus x) (px_client_exponent x) (px_server_modulus x)
      (px_server_exponent x) code = Inr secret"
    and "ready dec l (a # later) (enc (secret_envelope secret) # out)" and "accepted_envelope a" and "pv_secret_ack a \<noteq> None"
  shows "\<exists>l'. finish_exchange sha256 dec enc x code l = (Inr (), l')"
proof -
  obtain l1 where l1: "write_pairing enc (secret_envelope secret) ''pairing secret'' l = (Inr (), l1)" "ready dec l1 (a # later) out"
    using ready_write_pairing [where enc = enc, OF assms(2)] by blast
  obtain l2 where "read_pairing dec ''pairing-secret acknowledgement'' l1 = (Inr a, l2)"
    using ready_read_pairing [OF l1(2) assms(3)] by blast
  with l1 assms(1,4) show ?thesis
    by (simp add: finish_exchange_def submit_secret_def bindX_def liftX_def)
qed

text \<open>A device that shows the code \<open>82ABCD\<close>, with a hash that fits it.\<close>

definition example_hash :: "bytes \<Rightarrow> bytes" where "example_hash bs = [0x82, of_nat (length bs)]"

definition pairing_decode :: pairing_decoder where
  "pairing_decode frame =
     (if frame = [1] then Inr (envelope_ok\<lparr>pv_pairing_request_ack := Some (Some ''TV'')\<rparr>)
      else if frame = [2] then Inr (envelope_ok\<lparr>pv_options :=
        Some \<lparr>po_input_encodings = [], po_output_encodings = [hexadecimal_pin], po_preferred_role = None\<rparr>\<rparr>)
      else if frame = [3] then Inr (envelope_ok\<lparr>pv_configuration_ack := Some ()\<rparr>)
      else Inr (envelope_ok\<lparr>pv_secret_ack := Some []\<rparr>))"

definition pairing_encode :: pairing_encoder where "pairing_encode m = [7]"

definition pairing_link :: link where
  "pairing_link = \<lparr>lk_inbound = [(1, Inr [1]), (1, Inr [2]), (1, Inr [3]), (1, Inr [4])],
     lk_writes = [(1, Inr ()), (1, Inr ()), (1, Inr ()), (1, Inr ())], lk_sent = [], lk_clock = 0, lk_deadline = None\<rparr>"

lemma example_pairs:
  "\<exists>x l1 l2. begin_exchange pairing_decode pairing_encode [1] [2] [3] [4] ''me'' pairing_link = (Inr x, l1) \<and>
     finish_exchange example_hash pairing_decode pairing_encode x ''82ABCD'' l1 = (Inr (), l2)"
proof -
  let ?a = "\<lambda>i. projr (pairing_decode [i])"
  have replies: "pairing_replies (?a 1) (?a 2) (?a 3)"
    by (simp add: pairing_replies_def accepted_envelope_def pairing_decode_def envelope_ok_def PAIRING_STATUS_OK_def
        PAIRING_PROTOCOL_VERSION_def checked_server_name_def validate_peer_name_def MAX_PEER_NAME_BYTES_def no_control_def
        utf8_width_def control_def is_control_def Let_def is_hexadecimal_pin_def hexadecimal_pin_def)
  have "ready pairing_decode pairing_link ([?a 1, ?a 2, ?a 3] @ [?a 4])
      (map pairing_encode [request_envelope ''me'', options_envelope, configuration_envelope] @
       [pairing_encode (secret_envelope [0x82, 6])])"
    unfolding ready_def
    by (intro conjI exI [of _ "[(1, [1]), (1, [2]), (1, [3]), (1, [4])]"] exI [of _ "[]"])
      (simp_all add: pairing_link_def pairing_decode_def pairing_encode_def prompt_def EXCHANGE_TIMEOUT_def from_secs_def
        fits_body_def MAX_FRAME_SIZE_def)
  from begin_exchange_ready [where enc = pairing_encode, OF replies this] obtain x l1 where
    b: "begin_exchange pairing_decode pairing_encode [1] [2] [3] [4] ''me'' pairing_link = (Inr x, l1)"
    "ready pairing_decode l1 [?a 4] [pairing_encode (secret_envelope [0x82, 6])]"
    "px_client_modulus x = [1]" "px_client_exponent x = [2]" "px_server_modulus x = [3]" "px_server_exponent x = [4]"
    by blast
  have "compute_pairing_secret example_hash [1] [2] [3] [4] ''82ABCD'' = Inr [0x82, 6]"
    by (simp add: compute_pairing_secret_def parse_pairing_code_def string_bytes_def is_ascii_hexdigit_def hex_digit_value_def
        example_hash_def Let_def push_bit_eq_mult)
  with finish_exchange_ready [where enc = pairing_encode, OF _ b(2), of example_hash x "''82ABCD''"] b show ?thesis
    by (auto simp: pairing_decode_def accepted_envelope_def envelope_ok_def PAIRING_STATUS_OK_def PAIRING_PROTOCOL_VERSION_def)
qed

text \<open>
  C31. Pairing is sound. When both exchanges succeed, the device acknowledged, in this order, the
  request, the options with a six-digit hexadecimal display, the configuration and the secret,
  each with status 200 and a protocol version of one or two. The client sent exactly the
  request, the options, the configuration and the secret; the secret is the hash of both keys
  and the last two bytes of the code, and its first byte is the first byte of the code.
\<close>

theorem pairing_sound:
  assumes "begin_exchange dec enc cm ce sm se name l = (Inr x, l1)"
    and "finish_exchange sha256 dec enc x code l1 = (Inr (), l2)"
  shows "\<exists>a1 a2 a3 a4 c0 c1 c2 secret. took_messages dec l [a1, a2, a3, a4] l2 \<and> pairing_replies a1 a2 a3 \<and>
    accepted_envelope a4 \<and> pv_secret_ack a4 \<noteq> None \<and>
    map to_ascii_lowercase (string_bytes code) = hex_text [c0, c1, c2] \<and>
    secret = sha256 (cm @ ce @ sm @ se @ [c1, c2]) \<and> hd secret = c0 \<and>
    lk_sent l2 = lk_sent l @ map enc [request_envelope name, options_envelope, configuration_envelope, secret_envelope secret]"
proof -
  from begin_exchange_Inr [OF assms(1)] obtain a1 a2 a3 where b: "took_messages dec l [a1, a2, a3] l1"
    "pairing_replies a1 a2 a3" "px_client_modulus x = cm" "px_client_exponent x = ce" "px_server_modulus x = sm"
    "px_server_exponent x = se"
    "lk_sent l1 = lk_sent l @ map enc [request_envelope name, options_envelope, configuration_envelope]"
    by blast
  obtain secret where secret: "compute_pairing_secret sha256 cm ce sm se code = Inr secret"
    and submit: "submit_secret dec enc secret l1 = (Inr (), l2)"
    using finish_exchange_Inr [OF assms(2)] b by metis
  from submit_secret_Inr [OF submit] obtain a4 where a4: "took_messages dec l1 [a4] l2" "accepted_envelope a4"
    "pv_secret_ack a4 \<noteq> None" "lk_sent l2 = lk_sent l1 @ [enc (secret_envelope secret)]" by blast
  from compute_pairing_secret_Inr [OF secret] parse_pairing_code_Inr obtain c0 c1 c2 where
    "map to_ascii_lowercase (string_bytes code) = hex_text [c0, c1, c2]"
    "secret = sha256 (cm @ ce @ sm @ se @ [c1, c2])" "hd secret = c0" by blast
  moreover have "took_messages dec l ([a1, a2, a3] @ [a4]) l2" using b(1) a4(1) by (rule took_messages_append)
  ultimately show ?thesis using b a4 by fastforce
qed

lemma pairing_sound_witness:
  "\<exists>(l2 :: link) secret. lk_sent l2 = map pairing_encode [request_envelope ''me'', options_envelope, configuration_envelope, secret_envelope secret] \<and>
     hd secret = 0x82"
proof -
  obtain x l1 l2 where run: "begin_exchange pairing_decode pairing_encode [1] [2] [3] [4] ''me'' pairing_link = (Inr x, l1)"
    "finish_exchange example_hash pairing_decode pairing_encode x ''82ABCD'' l1 = (Inr (), l2)"
    using example_pairs by blast
  from pairing_sound [OF run] obtain secret c1 c2 where "secret = example_hash ([1] @ [2] @ [3] @ [4] @ [c1, c2])"
    "lk_sent l2 = lk_sent pairing_link @ map pairing_encode [request_envelope ''me'', options_envelope, configuration_envelope, secret_envelope secret]"
    by blast
  then show ?thesis by (intro exI [of _ l2] exI [of _ secret]) (simp add: pairing_link_def example_hash_def)
qed

text \<open>
  C32. The secret is given away only after the configuration was agreed, and only for the code the
  device shows. However the first exchange ends, it sent at most the request, the options and
  the configuration. With a code that is not six hexadecimal digits, or whose first byte is not
  the first byte of the hash, the second exchange fails with an invalid pairing code before it
  sends or reads anything; and it never panics.
\<close>

theorem secret_withheld:
  assumes "\<And>bs. sha256 bs \<noteq> []"
  shows "prefix (lk_sent (snd (begin_exchange dec enc cm ce sm se name l)))
      (lk_sent l @ map enc [request_envelope name, options_envelope, configuration_envelope]) \<and>
    no_panic (fst (finish_exchange sha256 dec enc x code l)) \<and>
    ((\<forall>c0 c1 c2. parse_pairing_code code = Inr [c0, c1, c2] \<longrightarrow>
        hd (sha256 (px_client_modulus x @ px_client_exponent x @ px_server_modulus x @ px_server_exponent x @ [c1, c2])) \<noteq> c0) \<longrightarrow>
      finish_exchange sha256 dec enc x code l = (Inl (Err InvalidPairingCode), l))"
proof (intro conjI impI)
  show "prefix (lk_sent (snd (begin_exchange dec enc cm ce sm se name l)))
      (lk_sent l @ map enc [request_envelope name, options_envelope, configuration_envelope])"
    using sends_begin_exchange [of dec enc cm ce sm se name] unfolding sends_def
    by (metis prod.collapse same_prefix_prefix)
  let ?secret = "compute_pairing_secret sha256 (px_client_modulus x) (px_client_exponent x) (px_server_modulus x)
      (px_server_exponent x) code"
  have safe: "no_panic ?secret" by (rule compute_pairing_secret_no_panic) (rule assms)
  then show "no_panic (fst (finish_exchange sha256 dec enc x code l))"
    by (auto simp: finish_exchange_def no_panic_def split: sum.splits prod.splits)
  assume wrong: "\<forall>c0 c1 c2. parse_pairing_code code = Inr [c0, c1, c2] \<longrightarrow>
      hd (sha256 (px_client_modulus x @ px_client_exponent x @ px_server_modulus x @ px_server_exponent x @ [c1, c2])) \<noteq> c0"
  have "\<nexists>secret. ?secret = Inr secret" using wrong compute_pairing_secret_Inr by blast
  then have "?secret = Inl (Err InvalidPairingCode)"
    using safe compute_pairing_secret_errors [of sha256 _ _ _ _ code] by (metis no_panic_def)
  then show "finish_exchange sha256 dec enc x code l = (Inl (Err InvalidPairingCode), l)"
    by (simp add: finish_exchange_def)
qed

lemma secret_withheld_witness:
  "finish_exchange example_hash pairing_decode pairing_encode
     \<lparr>px_client_modulus = [1], px_client_exponent = [2], px_server_modulus = [3], px_server_exponent = [4], px_server_name = None\<rparr>
     ''00ABCD'' pairing_link = (Inl (Err InvalidPairingCode), pairing_link)"
proof -
  have "parse_pairing_code ''00ABCD'' = Inr [0, 0xAB, 0xCD]"
    by (simp add: parse_pairing_code_def string_bytes_def is_ascii_hexdigit_def hex_digit_value_def Let_def push_bit_eq_mult)
  then show ?thesis
    using secret_withheld [of example_hash] by (simp add: example_hash_def)
qed

end
