(* ===== verification/Atv_Client.thy ===== *)
theory Atv_Client
  imports Atv_Session Atv_Pairing
begin

text \<open>
  Opening a remote (\<open>AndroidTvRemote::connect_address\<close> in \<open>src/android_tv/remote.rs\<close> and
  \<open>RemoteSession::start\<close> in \<open>src/android_tv/remote_session.rs\<close>): the connection, the handshake and
  the task with its handle, put together.
\<close>

definition remote_start ::
  "remote_decoder \<Rightarrow> remote_encoder \<Rightarrow> remote_client_info \<Rightarrow> link \<Rightarrow> atv_error + remote_handle \<times> remote_state" where
  "remote_start dec enc ci l =
     (case remote_handshake dec enc ci l of
        (Inl e, _) \<Rightarrow> Inl e
      | (Inr hs, l') \<Rightarrow> Inr (handle_of hs, remote_session_of hs l'))"

definition remote_connect_address ::
  "remote_decoder \<Rightarrow> remote_encoder \<Rightarrow> tv_connect_env \<Rightarrow> string \<Rightarrow> remote_identity \<Rightarrow> remote_client_info \<Rightarrow>
     atv_error + remote_handle \<times> remote_state" where
  "remote_connect_address dec enc env address identity ci =
     bindE (atv_connect env address identity) (remote_start dec enc ci)"

text \<open>
  A remote exists only over a connection on which the device presented a certificate and the
  client's own identity was accepted for mutual TLS; its handle and its session both come from
  the one handshake on that connection.
\<close>

lemma remote_connect_address_Inr:
  assumes "remote_connect_address dec enc env address identity ci = Inr (h, s)"
  shows "\<exists>l hs l'. atv_connect env address identity = Inr l \<and>
    remote_handshake dec enc ci l = (Inr hs, l') \<and> h = handle_of hs \<and> s = remote_session_of hs l' \<and>
    ce_client_auth env (id_certificate_der identity) (id_private_key_pkcs8_der identity) = Inr () \<and>
    (\<exists>c cs. ce_peer_certificates env = Some (c # cs))"
proof -
  obtain l where l: "atv_connect env address identity = Inr l" and r: "remote_start dec enc ci l = Inr (h, s)"
    using assms by (auto simp: remote_connect_address_def bindE_eq_Inr_iff)
  obtain hs l' where "remote_handshake dec enc ci l = (Inr hs, l')" "h = handle_of hs" "s = remote_session_of hs l'"
    using r by (auto simp: remote_start_def split: prod.splits sum.splits)
  moreover have "ce_client_auth env (id_certificate_der identity) (id_private_key_pkcs8_der identity) = Inr ()"
    and "\<exists>c. atv_peer_certificate env = Inr c"
    using l by (auto simp: atv_connect_def bindE_eq_Inr_iff split: sum.splits)
  moreover from this have "\<exists>c cs. ce_peer_certificates env = Some (c # cs)"
    by (cases "ce_peer_certificates env"; cases "the (ce_peer_certificates env)")
       (auto simp: atv_peer_certificate_def ok_or_def)
  ultimately show ?thesis using l by blast
qed

end
