(* ===== verification/Auth_Wire.thy ===== *)
theory Auth_Wire
  imports Wire Json
begin

text \<open>
  The protocol-buffer reader and writer of device authentication (\<open>src/control/auth.rs\<close>), which
  works on a shrinking slice instead of a buffer with a position: the writer agrees with the one
  of Cast messages, and the reader finds every field that was written, in order.
\<close>

definition auth_error :: "string \<Rightarrow> error" where
  "auth_error s = AuthenticationFailed s"

subsection \<open>Reading\<close>

definition take_bytes :: "bytes \<Rightarrow> nat \<Rightarrow> error + bytes \<times> bytes" where
  "take_bytes data n =
     (if length data < n then Inl (auth_error ''truncated protobuf field'') else Inr (take n data, drop n data))"

text \<open>The loop over the shifts 0, 7, ..., 63.\<close>

function take_varint_loop :: "nat \<Rightarrow> u64 \<Rightarrow> bytes \<Rightarrow> error + u64 \<times> bytes" where
  "take_varint_loop shift acc data =
     (if shift < 70 then
        bindE (take_bytes data 1) (\<lambda>(head, rest).
          let b = hd head
          in if shift = 63 \<and> 1 < b then Inl (auth_error ''protobuf varint overflow'')
             else let acc' = acc OR push_bit shift (ucast (b AND 0x7F))
                  in if b AND 0x80 = 0 then Inr (acc', rest) else take_varint_loop (shift + 7) acc' rest)
      else Inl (auth_error ''protobuf varint overflow''))"
  by pat_completeness auto

termination
  by (relation "measure (\<lambda>(shift, _, _). 70 - shift)") auto

declare take_varint_loop.simps [simp del]

definition take_varint :: "bytes \<Rightarrow> error + u64 \<times> bytes" where
  "take_varint data = take_varint_loop 0 0 data"

datatype wire_value = Varint u64 | Bytes bytes

type_synonym fields = "(u32 \<times> wire_value) list"

text \<open>One field: \<open>None\<close> is a fixed-width field, which is skipped.\<close>

definition take_field :: "bytes \<Rightarrow> error + (u32 \<times> wire_value) option \<times> bytes" where
  "take_field data =
     bindE (take_varint data) (\<lambda>(tag, data1).
       if 2 ^ 32 \<le> unat (drop_bit 3 tag) then Inl (auth_error ''protobuf field overflow'')
       else
         let number = ucast (drop_bit 3 tag) :: u32; wire = tag AND 7
         in if number = 0 then Inl (auth_error ''protobuf field number is zero'')
            else if wire = 0 then bindE (take_varint data1) (\<lambda>(v, data2). Inr (Some (number, Varint v), data2))
            else if wire = 1 then bindE (take_bytes data1 8) (\<lambda>(_, data2). Inr (None, data2))
            else if wire = 2 then
              bindE (take_varint data1) (\<lambda>(n, data2).
                bindE (take_bytes data2 (unat n)) (\<lambda>(bs, data3). Inr (Some (number, Bytes bs), data3)))
            else if wire = 5 then bindE (take_bytes data1 4) (\<lambda>(_, data2). Inr (None, data2))
            else Inl (auth_error (''unsupported protobuf wire type '' @ show_nat (unat wire))))"

lemma take_bytes_Inr [simp]:
  "take_bytes data n = Inr (a, rest) \<longleftrightarrow> n \<le> length data \<and> a = take n data \<and> rest = drop n data"
  by (auto simp: take_bytes_def)

lemma take_varint_loop_shrinks:
  "take_varint_loop shift acc data = Inr (v, rest) \<Longrightarrow> length rest < length data"
proof (induction shift acc data rule: take_varint_loop.induct)
  case (1 shift acc data)
  then show ?case
    by (subst (asm) (2) take_varint_loop.simps) (fastforce simp: bindE_eq_Inr_iff Let_def split: if_splits)
qed

lemma take_varint_shrinks: "take_varint data = Inr (v, rest) \<Longrightarrow> length rest < length data"
  by (simp add: take_varint_def take_varint_loop_shrinks)

lemma take_field_shrinks: "take_field data = Inr (f, rest) \<Longrightarrow> length rest < length data"
  by (auto simp: take_field_def bindE_eq_Inr_iff Let_def dest!: take_varint_shrinks split: if_splits)

function parse_fields :: "bytes \<Rightarrow> error + fields" where
  "parse_fields data =
     (if data = [] then Inr []
      else case take_field data of
             Inl e \<Rightarrow> Inl e
           | Inr (f, rest) \<Rightarrow>
               bindE (parse_fields rest) (\<lambda>fs. Inr (case f of None \<Rightarrow> fs | Some x \<Rightarrow> x # fs)))"
  by pat_completeness auto

termination
  by (relation "measure length") (auto dest: take_field_shrinks)

declare parse_fields.simps [simp del]

fun bytes_of :: "u32 \<Rightarrow> u32 \<times> wire_value \<Rightarrow> bytes option" where
  "bytes_of number (field, Bytes bs) = (if field = number then Some bs else None)"
| "bytes_of number (field, Varint v) = None"

fun varint_of :: "u32 \<Rightarrow> u32 \<times> wire_value \<Rightarrow> u64 option" where
  "varint_of number (field, Varint v) = (if field = number then Some v else None)"
| "varint_of number (field, Bytes bs) = None"

fun find_map :: "('a \<Rightarrow> 'b option) \<Rightarrow> 'a list \<Rightarrow> 'b option" where
  "find_map f [] = None"
| "find_map f (x # xs) = (case f x of None \<Rightarrow> find_map f xs | Some y \<Rightarrow> Some y)"

definition fields_bytes :: "fields \<Rightarrow> u32 \<Rightarrow> bytes option" where
  "fields_bytes fs number = find_map (bytes_of number) fs"

definition fields_bytes_all :: "fields \<Rightarrow> u32 \<Rightarrow> bytes list" where
  "fields_bytes_all fs number = List.map_filter (bytes_of number) fs"

definition fields_varint :: "fields \<Rightarrow> u32 \<Rightarrow> u64 option" where
  "fields_varint fs number = find_map (varint_of number) fs"

subsection \<open>Writing\<close>

function auth_encode_varint :: "u64 \<Rightarrow> bytes" where
  "auth_encode_varint value =
     (let byte = ucast (value AND 0x7f) :: u8; rest = drop_bit 7 value
      in if rest \<noteq> 0 then (byte OR 0x80) # auth_encode_varint rest else [byte])"
  by pat_completeness auto

termination
  by (relation "measure unat") (auto dest: drop_bit_7_shrinks)

declare auth_encode_varint.simps [simp del]

definition auth_encode_varint_field :: "u32 \<Rightarrow> u64 \<Rightarrow> bytes" where
  "auth_encode_varint_field field value = auth_encode_varint (push_bit 3 (ucast field)) @ auth_encode_varint value"

definition auth_encode_bytes_field :: "u32 \<Rightarrow> bytes \<Rightarrow> bytes" where
  "auth_encode_bytes_field field value =
     auth_encode_varint (push_bit 3 (ucast field) OR 2) @ auth_encode_varint (of_nat (length value)) @ value"

subsection \<open>What was written is read\<close>

lemma auth_encode_varint_eq: "auth_encode_varint v = encode_varint v"
  by (rule varint_encoder_eq) (rule auth_encode_varint.simps)

lemma auth_encode_fields_eq:
  "auth_encode_varint_field f v = encode_varint_field f v" "auth_encode_bytes_field f bs = encode_bytes_field f bs"
  by (simp_all add: auth_encode_varint_field_def auth_encode_bytes_field_def encode_varint_field_def
      encode_bytes_field_def auth_encode_varint_eq)

text \<open>The reader takes bytes as the automaton of varints does.\<close>

lemma take_varint_loop_run:
  "shift \<in> {0, 7, 14, 21, 28, 35, 42, 49, 56, 63} \<Longrightarrow> take_varint_loop shift acc data =
     (case varint_run acc shift data of
        More _ _ \<Rightarrow> Inl (auth_error ''truncated protobuf field'')
      | Done v r \<Rightarrow> Inr (v, r)
      | Overflow \<Rightarrow> Inl (auth_error ''protobuf varint overflow''))"
proof (induction shift acc data rule: take_varint_loop.induct)
  case (1 shift acc data)
  show ?case
  proof (cases data)
    case Nil
    with 1(2) show ?thesis by (subst take_varint_loop.simps) (auto simp: take_bytes_def)
  next
    case (Cons b bs)
    have last: "shift = 63 \<Longrightarrow> \<not> 1 < b \<Longrightarrow> b AND 0x80 = 0"
    proof -
      assume "\<not> 1 < b"
      then have "b = 0 \<or> b = 1" by (metis word_gt_0 word_less_1 word_neq_0_conv linorder_less_linear)
      then show "b AND 0x80 = 0" by auto
    qed
    have "take_varint_loop (shift + 7) acc' bs = (case varint_run acc' (shift + 7) bs of
        More _ _ \<Rightarrow> Inl (auth_error ''truncated protobuf field'') | Done v r \<Rightarrow> Inr (v, r)
      | Overflow \<Rightarrow> Inl (auth_error ''protobuf varint overflow''))"
      if "\<not> (shift = 63 \<and> 1 < b)" "b AND 0x80 \<noteq> 0" "acc' = acc OR push_bit shift (ucast (b AND 0x7F))" for acc'
      using 1(1) [of "(take 1 data, drop 1 data)" "take 1 data" "drop 1 data"] 1(2) that last Cons
      by (auto simp: take_bytes_def)
    with 1(2) last Cons show ?thesis
      by (subst take_varint_loop.simps) (auto simp: take_bytes_def Let_def)
  qed
qed

lemma take_varint_encode [simp]: "take_varint (encode_varint v @ ys) = Inr (v, ys)"
  using take_varint_loop_run [of 0 0 "encode_varint v @ ys"] by (simp add: take_varint_def varint_run_encode)

lemma two_bit: "bit (2 :: int) n \<longleftrightarrow> n = 1"
  by (cases n) (auto simp: bit_Suc bit_1_iff)

lemma field_tag:
  "drop_bit 3 (push_bit 3 (ucast (f :: u32)) :: u64) = ucast f" "(push_bit 3 (ucast f) :: u64) AND 7 = 0"
  "drop_bit 3 (push_bit 3 (ucast f) OR 2 :: u64) = ucast f" "(push_bit 3 (ucast f) OR 2 :: u64) AND 7 = 2"
proof -
  have seven: "(7 :: u64) = mask 3" by (simp add: mask_eq_exp_minus_1)
  show "drop_bit 3 (push_bit 3 (ucast f) :: u64) = ucast f"
    by (rule bit_word_eqI) (auto simp: bit_simps dest: bit_imp_le_length)
  show "drop_bit 3 (push_bit 3 (ucast f) OR 2 :: u64) = ucast f"
    by (rule bit_word_eqI) (auto simp: bit_simps two_bit dest: bit_imp_le_length)
  show "(push_bit 3 (ucast f) :: u64) AND 7 = 0"
    unfolding seven by (rule bit_word_eqI) (auto simp: bit_simps)
  show "(push_bit 3 (ucast f) OR 2 :: u64) AND 7 = 2"
    unfolding seven by (rule bit_word_eqI) (auto simp: bit_simps two_bit)
qed

lemma field_number: "\<not> 4294967296 \<le> unat (ucast (f :: u32) :: u64)" "(ucast (ucast f :: u64) :: u32) = f"
proof -
  have "unat (ucast f :: u64) = unat f" by (simp add: unat_ucast_up)
  then show "\<not> 4294967296 \<le> unat (ucast f :: u64)" using unat_lt [of f] by simp
  show "(ucast (ucast f :: u64) :: u32) = f" by (rule bit_word_eqI) (simp add: bit_simps)
qed

lemma take_field_varint: "f \<noteq> 0 \<Longrightarrow> take_field (encode_varint_field f v @ ys) = Inr (Some (f, Varint v), ys)"
  by (simp add: take_field_def encode_varint_field_def field_tag field_number)

lemma take_field_bytes:
  assumes "f \<noteq> 0" and "length bs < 2 ^ 64"
  shows "take_field (encode_bytes_field f bs @ ys) = Inr (Some (f, Bytes bs), ys)"
proof -
  have "unat (of_nat (length bs) :: u64) = length bs" using assms(2) by (simp add: unat_of_nat)
  then show ?thesis
    using assms(1) by (simp add: take_field_def encode_bytes_field_def field_tag field_number take_bytes_def)
qed

end
