(* ===== verification/Atv_Scanner.thy ===== *)
theory Atv_Scanner
  imports Auth_Wire "HOL-Library.Sublist"
begin

text \<open>
  The diagnostic scanner of inbound Remote Service frames (\<open>top_level_field_numbers\<close> and
  \<open>take_varint\<close> at the end of \<open>src/android_tv/remote_session.rs\<close>): it lists the field numbers of
  a protobuf message without its payloads. It is an independent implementation of the reader of
  device-authentication messages, and the two accept the same byte strings.
\<close>

function scan_varint_loop :: "nat \<Rightarrow> u64 \<Rightarrow> bytes \<Rightarrow> (u64 \<times> bytes) option" where
  "scan_varint_loop shift v bs =
     (if shift \<le> 63 then
        (case bs of
           [] \<Rightarrow> None
         | byte # rest \<Rightarrow>
             if shift = 63 \<and> byte > 1 then None
             else let v' = v OR push_bit shift (ucast (byte AND 0x7f))
                  in if byte AND 0x80 = 0 then Some (v', rest) else scan_varint_loop (shift + 7) v' rest)
      else None)"
  by pat_completeness auto

termination
  by (relation "measure (\<lambda>(shift, _, _). 64 - shift)") auto

declare scan_varint_loop.simps [simp del]

definition scan_varint :: "bytes \<Rightarrow> (u64 \<times> bytes) option" where
  "scan_varint bs = scan_varint_loop 0 0 bs"

definition scan_skip :: "nat \<Rightarrow> bytes \<Rightarrow> bytes option" where
  "scan_skip n bs = (if n \<le> length bs then Some (drop n bs) else None)"

text \<open>One turn of the loop: the field number and what follows the field.\<close>

definition scan_field :: "bytes \<Rightarrow> (u32 \<times> bytes) option" where
  "scan_field bs =
     Option.bind (scan_varint bs) (\<lambda>(key, bs).
       if 2 ^ 32 \<le> unat (drop_bit 3 key) then None
       else
         let field = ucast (drop_bit 3 key) :: u32; wire = key AND 0x07
         in if field = 0 then None
            else map_option (Pair field)
              (if wire = 0 then map_option snd (scan_varint bs)
               else if wire = 1 then scan_skip 8 bs
               else if wire = 2 then Option.bind (scan_varint bs) (\<lambda>(n, bs). scan_skip (unat n) bs)
               else if wire = 5 then scan_skip 4 bs
               else None))"

definition to_option :: "'e + 'a \<Rightarrow> 'a option" where
  "to_option r = (case r of Inl _ \<Rightarrow> None | Inr a \<Rightarrow> Some a)"

lemma to_option_simps [simp]: "to_option (Inl e) = None" "to_option (Inr a) = Some a"
  by (simp_all add: to_option_def)

lemma to_option_bindE: "to_option (bindE m f) = Option.bind (to_option m) (\<lambda>a. to_option (f a))"
  by (cases m) simp_all

lemma scan_varint_loop_eq:
  "7 dvd shift \<Longrightarrow> scan_varint_loop shift v bs = to_option (take_varint_loop shift v bs)"
proof (induction shift v bs rule: scan_varint_loop.induct)
  case (1 shift v bs)
  have range: "shift \<le> 63 \<longleftrightarrow> shift < 70"
    using 1(2) by (auto simp: dvd_def)
  show ?case
  proof (cases bs)
    case Nil
    then show ?thesis
      by (simp add: scan_varint_loop.simps [of shift] take_varint_loop.simps [of shift] take_bytes_def to_option_bindE)
  next
    case (Cons b rest)
    with 1 show ?thesis
      by (simp add: scan_varint_loop.simps [of shift v "b # rest"] take_varint_loop.simps [of shift v "b # rest"]
          take_bytes_def range Let_def)
  qed
qed

lemma scan_varint_eq: "scan_varint bs = to_option (take_varint bs)"
  by (simp add: scan_varint_def take_varint_def scan_varint_loop_eq)

lemma skip_bytes_eq: "scan_skip n bs = map_option snd (to_option (take_bytes bs n))"
  by (simp add: scan_skip_def take_bytes_def)

text \<open>Both readers consume the same bytes of a field and agree on its number.\<close>

definition same_field :: "error + (u32 \<times> wire_value) option \<times> bytes \<Rightarrow> (u32 \<times> bytes) option \<Rightarrow> bool" where
  "same_field r s \<longleftrightarrow>
     (case r of
        Inl e \<Rightarrow> s = None
      | Inr (f, rest) \<Rightarrow> (\<exists>number. s = Some (number, rest) \<and> (\<forall>n v. f = Some (n, v) \<longrightarrow> n = number)))"

lemma same_field_Inl: "same_field (Inl e) None"
  by (simp add: same_field_def)

lemma same_field_value:
  "same_field (bindE m (\<lambda>(v, rest). Inr (Some (n, g v), rest))) (map_option (Pair n) (map_option snd (to_option m)))"
  by (cases m) (auto simp: same_field_def split: prod.splits)

lemma same_field_skip:
  "same_field (bindE m (\<lambda>(v, rest). Inr (None, rest))) (map_option (Pair n) (map_option snd (to_option m)))"
  by (cases m) (auto simp: same_field_def split: prod.splits)

lemma same_field_bind:
  "(\<And>v rest. same_field (f v rest) (map_option (Pair n) (g v rest))) \<Longrightarrow>
     same_field (bindE m (\<lambda>(v, rest). f v rest)) (map_option (Pair n) (Option.bind (to_option m) (\<lambda>(v, rest). g v rest)))"
  by (cases m) (auto simp: same_field_def split: prod.splits)

lemma scan_field_take_field: "same_field (take_field bs) (scan_field bs)"
proof (cases "take_varint bs")
  case (Inl e)
  then show ?thesis by (simp add: take_field_def scan_field_def scan_varint_eq same_field_def)
next
  case (Inr p)
  obtain tag bs1 where p: "p = (tag, bs1)" by (cases p)
  show ?thesis
    unfolding take_field_def scan_field_def scan_varint_eq skip_bytes_eq Inr p Let_def bindE_simps to_option_simps
      Option.bind.simps prod.case
    by (auto simp: same_field_Inl same_field_value same_field_skip intro!: same_field_bind)
qed

lemma scan_field_shrinks: "scan_field bs = Some (field, rest) \<Longrightarrow> length rest < length bs"
  using scan_field_take_field [of bs] take_field_shrinks [of bs]
  by (fastforce simp: same_field_def split: sum.splits)

function top_level_field_numbers :: "bytes \<Rightarrow> u32 list option" where
  "top_level_field_numbers bs =
     (if bs = [] then Some []
      else case scan_field bs of
             None \<Rightarrow> None
           | Some (field, rest) \<Rightarrow> map_option (\<lambda>fields. field # fields) (top_level_field_numbers rest))"
  by pat_completeness auto

termination
  by (relation "measure length") (auto dest: scan_field_shrinks)

declare top_level_field_numbers.simps [simp del]

text \<open>
  The diagnostic scanner and the reader of device-authentication messages accept the same
  byte strings, and the scanner reports every field the reader returns, in order. What it
  reports in addition are the fixed-width fields, which the reader skips.
\<close>

theorem field_scanner_agrees:
  "case parse_fields bs of
     Inl e \<Rightarrow> top_level_field_numbers bs = None
   | Inr fs \<Rightarrow> \<exists>numbers. top_level_field_numbers bs = Some numbers \<and> subseq (map fst fs) numbers"
proof (induction bs rule: top_level_field_numbers.induct)
  case (1 bs)
  show ?case
  proof (cases "bs = []")
    case True
    then show ?thesis by (simp add: parse_fields.simps [of "[]"] top_level_field_numbers.simps [of "[]"])
  next
    case False
    note unfold = parse_fields.simps [of bs] top_level_field_numbers.simps [of bs] False
    show ?thesis
    proof (cases "take_field bs")
      case (Inl e)
      with scan_field_take_field [of bs] show ?thesis by (simp add: unfold same_field_def)
    next
      case (Inr p)
      obtain f rest where p: "p = (f, rest)" by (cases p)
      with Inr scan_field_take_field [of bs] obtain number where
        n: "scan_field bs = Some (number, rest)" "\<forall>n v. f = Some (n, v) \<longrightarrow> n = number"
        by (auto simp: same_field_def)
      from 1 [OF False n(1) refl] Inr p n show ?thesis
        by (cases "parse_fields rest"; cases f) (auto simp: unfold)
    qed
  qed
qed

end
