(* ===== verification/Control_Messages.thy ===== *)
theory Control_Messages
  imports Json Cast_Message Byte_Source "HOL-Library.AList"
begin

text \<open>
  What the Cast control channel says (\<open>src/control/mod.rs\<close>): the namespaces and identifiers, the
  receiver status and its applications, the requests and the events, and the functions that read
  the JSON of a message. The JSON text library (\<open>serde_json\<close>) is a parameter \<open>parse\<close> of the
  functions that read text: \<open>Inl\<close> is its error text, \<open>Inr\<close> the value.
\<close>

definition CAST_PORT :: u16 where "CAST_PORT = 8009"
definition APP_MIRRORING :: string where "APP_MIRRORING = ''0F5096E8''"
definition NS_CONNECTION :: string where "NS_CONNECTION = ''urn:x-cast:com.google.cast.tp.connection''"
definition NS_DEVICE_AUTH :: string where "NS_DEVICE_AUTH = ''urn:x-cast:com.google.cast.tp.deviceauth''"
definition NS_HEARTBEAT :: string where "NS_HEARTBEAT = ''urn:x-cast:com.google.cast.tp.heartbeat''"
definition NS_RECEIVER :: string where "NS_RECEIVER = ''urn:x-cast:com.google.cast.receiver''"
definition NS_RECEIVER_DISCOVERY :: string where
  "NS_RECEIVER_DISCOVERY = ''urn:x-cast:com.google.cast.receiver.discovery''"
definition NS_SETUP :: string where "NS_SETUP = ''urn:x-cast:com.google.cast.setup''"
definition NS_WEBRTC :: string where "NS_WEBRTC = ''urn:x-cast:com.google.cast.webrtc''"
definition SENDER_ID :: string where "SENDER_ID = ''sender-0''"
definition RECEIVER_ID :: string where "RECEIVER_ID = ''receiver-0''"
definition HEARTBEAT_INTERVAL :: duration where "HEARTBEAT_INTERVAL = from_secs 5"
definition HEARTBEAT_TIMEOUT :: duration where "HEARTBEAT_TIMEOUT = from_secs 15"
definition REQUEST_TIMEOUT :: duration where "REQUEST_TIMEOUT = from_secs 10"

lemmas namespace_defs = NS_CONNECTION_def NS_DEVICE_AUTH_def NS_HEARTBEAT_def NS_RECEIVER_def
  NS_RECEIVER_DISCOVERY_def NS_SETUP_def NS_WEBRTC_def

text \<open>The seven namespaces are pairwise different.\<close>

lemma namespace_neq [simp]:
  "NS_CONNECTION \<noteq> NS_DEVICE_AUTH" "NS_CONNECTION \<noteq> NS_HEARTBEAT" "NS_CONNECTION \<noteq> NS_RECEIVER" "NS_CONNECTION \<noteq> NS_RECEIVER_DISCOVERY" "NS_CONNECTION \<noteq> NS_SETUP" "NS_CONNECTION \<noteq> NS_WEBRTC"
  "NS_DEVICE_AUTH \<noteq> NS_CONNECTION" "NS_DEVICE_AUTH \<noteq> NS_HEARTBEAT" "NS_DEVICE_AUTH \<noteq> NS_RECEIVER" "NS_DEVICE_AUTH \<noteq> NS_RECEIVER_DISCOVERY" "NS_DEVICE_AUTH \<noteq> NS_SETUP" "NS_DEVICE_AUTH \<noteq> NS_WEBRTC"
  "NS_HEARTBEAT \<noteq> NS_CONNECTION" "NS_HEARTBEAT \<noteq> NS_DEVICE_AUTH" "NS_HEARTBEAT \<noteq> NS_RECEIVER" "NS_HEARTBEAT \<noteq> NS_RECEIVER_DISCOVERY" "NS_HEARTBEAT \<noteq> NS_SETUP" "NS_HEARTBEAT \<noteq> NS_WEBRTC"
  "NS_RECEIVER \<noteq> NS_CONNECTION" "NS_RECEIVER \<noteq> NS_DEVICE_AUTH" "NS_RECEIVER \<noteq> NS_HEARTBEAT" "NS_RECEIVER \<noteq> NS_RECEIVER_DISCOVERY" "NS_RECEIVER \<noteq> NS_SETUP" "NS_RECEIVER \<noteq> NS_WEBRTC"
  "NS_RECEIVER_DISCOVERY \<noteq> NS_CONNECTION" "NS_RECEIVER_DISCOVERY \<noteq> NS_DEVICE_AUTH" "NS_RECEIVER_DISCOVERY \<noteq> NS_HEARTBEAT" "NS_RECEIVER_DISCOVERY \<noteq> NS_RECEIVER" "NS_RECEIVER_DISCOVERY \<noteq> NS_SETUP" "NS_RECEIVER_DISCOVERY \<noteq> NS_WEBRTC"
  "NS_SETUP \<noteq> NS_CONNECTION" "NS_SETUP \<noteq> NS_DEVICE_AUTH" "NS_SETUP \<noteq> NS_HEARTBEAT" "NS_SETUP \<noteq> NS_RECEIVER" "NS_SETUP \<noteq> NS_RECEIVER_DISCOVERY" "NS_SETUP \<noteq> NS_WEBRTC"
  "NS_WEBRTC \<noteq> NS_CONNECTION" "NS_WEBRTC \<noteq> NS_DEVICE_AUTH" "NS_WEBRTC \<noteq> NS_HEARTBEAT" "NS_WEBRTC \<noteq> NS_RECEIVER" "NS_WEBRTC \<noteq> NS_RECEIVER_DISCOVERY" "NS_WEBRTC \<noteq> NS_SETUP"
  by (simp_all add: namespace_defs)

lemma endpoint_neq [simp]: "RECEIVER_ID \<noteq> SENDER_ID" "SENDER_ID \<noteq> RECEIVER_ID"
  by (simp_all add: SENDER_ID_def RECEIVER_ID_def)

subsection \<open>Data\<close>

record cast_app =
  ca_app_id :: string
  ca_transport_id :: string
  ca_session_id :: string
  ca_display_name :: "string option"

record receiver_status =
  rs_applications :: "cast_app list"
  rs_volume_level :: "u64 option"
  rs_muted :: "bool option"

datatype app_availability = AppAvailable | AppUnavailable

datatype control_close_reason = Requested | PeerClosed | HeartbeatTimeout | CloseError string

datatype control_event = StatusChanged receiver_status | ApplicationStopped cast_app
  | ChannelClosed control_close_reason

datatype receiver_operation = Availability string | Launch string | SetVolume | Status | StopApp

datatype product_info_operation = DeviceInfo | EurekaInfo

text \<open>\<open>Display\<close> of an I/O error made from a text, and of the crate's errors.\<close>

fun io_display :: "io_fault \<Rightarrow> string" where
  "io_display (UnexpectedEof s) = s"
| "io_display (InvalidData s) = s"
| "io_display (OtherIo s) = s"

fun error_display :: "error \<Rightarrow> string" where
  "error_display (InvalidPacket s) = ''invalid packet: '' @ s"
| "error_display (CryptoFailed s) = ''crypto error: '' @ s"
| "error_display (NegotiationFailed s) = ''negotiation failed: '' @ s"
| "error_display NoAcceptedStreams = ''no streams accepted by receiver''"
| "error_display (ConnectionFailed s) = ''connection failed: '' @ s"
| "error_display (AuthenticationFailed s) = ''device authentication failed: '' @ s"
| "error_display (ProtocolError s) = ''protocol error: '' @ s"
| "error_display (SetupFailed s) = ''setup endpoint query failed: '' @ s"
| "error_display (AppLaunchFailed s) = ''app launch failed: '' @ s"
| "error_display (Io s) = s"
| "error_display (JsonFailed s) = s"

definition control_closed_error :: error where
  "control_closed_error = ConnectionFailed ''control channel closed''"

subsection \<open>Requests\<close>

text \<open>\<open>u32\<close> numbers in JSON, and assignment to a member of a value (\<open>value["key"] = v\<close>), which
  panics unless the value is an object or null.\<close>

definition json_id :: "u32 \<Rightarrow> json" where
  "json_id n = json_nat (unat n)"

fun json_set :: "json \<Rightarrow> string \<Rightarrow> json \<Rightarrow> (json, error) result" where
  "json_set (JObject ms) key v = Inr (JObject (AList.update key v ms))"
| "json_set JNull key v = Inr (JObject [(key, v)])"
| "json_set _ key v = Inl Panic"

fun operation_payload :: "receiver_operation \<Rightarrow> u32 \<Rightarrow> (json, error) result" where
  "operation_payload (Availability app_id) request_id =
     Inr (JObject [(''type'', JString ''GET_APP_AVAILABILITY''), (''appId'', JArray [JString app_id]),
       (''requestId'', json_id request_id)])"
| "operation_payload (Launch app_id) request_id =
     Inr (JObject [(''type'', JString ''LAUNCH''), (''appId'', JString app_id), (''requestId'', json_id request_id)])"
| "operation_payload Status request_id =
     Inr (JObject [(''type'', JString ''GET_STATUS''), (''requestId'', json_id request_id)])"
| "operation_payload SetVolume request_id = Inl Panic"
| "operation_payload StopApp request_id = Inl Panic"

fun info_namespace :: "product_info_operation \<Rightarrow> string" where
  "info_namespace DeviceInfo = NS_RECEIVER_DISCOVERY"
| "info_namespace EurekaInfo = NS_SETUP"

fun info_message_type :: "product_info_operation \<Rightarrow> string" where
  "info_message_type DeviceInfo = ''GET_DEVICE_INFO''"
| "info_message_type EurekaInfo = ''eureka_info''"

fun request_id_field :: "product_info_operation \<Rightarrow> string" where
  "request_id_field DeviceInfo = ''requestId''"
| "request_id_field EurekaInfo = ''request_id''"

fun accepts_response_type :: "product_info_operation \<Rightarrow> string \<Rightarrow> bool" where
  "accepts_response_type DeviceInfo message_type = (message_type \<in> {''DEVICE_INFO'', ''GET_DEVICE_INFO''})"
| "accepts_response_type EurekaInfo message_type = (message_type = ''eureka_info'')"

definition from_namespace :: "string \<Rightarrow> product_info_operation option" where
  "from_namespace ns =
     (if ns = NS_RECEIVER_DISCOVERY then Some DeviceInfo
      else if ns = NS_SETUP then Some EurekaInfo else None)"

subsection \<open>Reading a message\<close>

definition json_message_type :: "json \<Rightarrow> string option" where
  "json_message_type v =
     Option.bind (case json_get v ''type'' of None \<Rightarrow> json_get v ''responseType'' | Some t \<Rightarrow> Some t) as_str"

definition json_u32 :: "json \<Rightarrow> string \<Rightarrow> u32 option" where
  "json_u32 v field =
     Option.bind (get_u64 v field) (\<lambda>n. if n < 2 ^ 32 then Some (of_nat n) else None)"

definition cast_message_type :: "(string \<Rightarrow> string + json) \<Rightarrow> cast_message \<Rightarrow> string option" where
  "cast_message_type parse m =
     (case payload m of
        PString s \<Rightarrow> (case parse s of Inr v \<Rightarrow> json_message_type v | Inl e \<Rightarrow> None)
      | PBinary b \<Rightarrow> None)"

definition message_is_type :: "(string \<Rightarrow> string + json) \<Rightarrow> cast_message \<Rightarrow> string \<Rightarrow> bool" where
  "message_is_type parse m expected = (cast_message_type parse m = Some expected)"

fun as_object :: "json \<Rightarrow> (string \<times> json) list option" where
  "as_object (JObject ms) = Some ms"
| "as_object _ = None"

text \<open>\<open>Value::as_f64\<close>: a number as a 64-bit float, an integer rounded to the nearest one, ties
  to even.\<close>

fun bit_length :: "nat \<Rightarrow> nat" where
  "bit_length n = (if n = 0 then 0 else Suc (bit_length (n div 2)))"

declare bit_length.simps [simp del]

definition f64_of_nat :: "nat \<Rightarrow> u64" where
  "f64_of_nat n =
     (if n = 0 then 0
      else let e = bit_length n - 1
           in if e \<le> 52 then of_nat ((e + 1023) * 2 ^ 52 + (n * 2 ^ (52 - e) - 2 ^ 52))
              else let s = e - 52; q = n div 2 ^ s; r = n mod 2 ^ s; half = 2 ^ (s - 1);
                       q' = (if half < r \<or> (r = half \<and> odd q) then q + 1 else q)
                   in of_nat ((e + 1023) * 2 ^ 52 + (q' - 2 ^ 52)))"

fun as_f64 :: "json \<Rightarrow> u64 option" where
  "as_f64 (JFloat b) = Some b"
| "as_f64 (JInt i) = Some (if i < 0 then f64_of_nat (nat (- i)) OR 0x8000000000000000 else f64_of_nat (nat i))"
| "as_f64 _ = None"

definition parse_cast_app :: "json \<Rightarrow> cast_app option" where
  "parse_cast_app v =
     Option.bind (get_str v ''appId'') (\<lambda>app_id.
     Option.bind (get_str v ''transportId'') (\<lambda>transport_id.
       Some \<lparr>ca_app_id = app_id, ca_transport_id = transport_id,
         ca_session_id = (case get_str v ''sessionId'' of None \<Rightarrow> [] | Some s \<Rightarrow> s),
         ca_display_name = get_str v ''displayName''\<rparr>))"

definition parse_receiver_status :: "json \<Rightarrow> error + receiver_status" where
  "parse_receiver_status v =
     (case Option.bind (json_get v ''status'') as_object of
        None \<Rightarrow> Inl (ProtocolError ''RECEIVER_STATUS omitted status'')
      | Some status \<Rightarrow>
          let volume = Option.bind (map_of status ''volume'') as_object
          in Inr \<lparr>rs_applications =
               (case Option.bind (map_of status ''applications'') as_array of
                  None \<Rightarrow> [] | Some apps \<Rightarrow> List.map_filter parse_cast_app apps),
             rs_volume_level = Option.bind (Option.bind volume (\<lambda>ms. map_of ms ''level'')) as_f64,
             rs_muted = Option.bind (Option.bind volume (\<lambda>ms. map_of ms ''muted'')) as_bool\<rparr>)"

definition receiver_status_contains_app :: "json \<Rightarrow> string \<Rightarrow> bool" where
  "receiver_status_contains_app v app_id =
     (case Option.bind (Option.bind (json_get v ''status'') (\<lambda>s. json_get s ''applications'')) as_array of
        None \<Rightarrow> False
      | Some apps \<Rightarrow> list_ex (\<lambda>app. get_str app ''appId'' = Some app_id) apps)"

definition receiver_error_description :: "json \<Rightarrow> string \<Rightarrow> string" where
  "receiver_error_description v fallback =
     (case Option.bind (case json_get v ''reason'' of None \<Rightarrow> json_get v ''error'' | Some r \<Rightarrow> Some r)
            (\<lambda>e. case get_str e ''description'' of None \<Rightarrow> as_str e | Some d \<Rightarrow> Some d) of
        None \<Rightarrow> fallback
      | Some d \<Rightarrow> d)"

subsection \<open>Facts about the readers\<close>

lemma json_u32_id [simp]: "json_get v f = Some (json_id n) \<Longrightarrow> json_u32 v f = Some n"
  using unat_lt [of n] by (simp add: json_u32_def get_u64_def json_id_def)

lemma from_namespace_Some: "from_namespace ns = Some op \<longleftrightarrow> ns = info_namespace op"
  by (cases op) (auto simp: from_namespace_def)

lemma parsed_app_listed:
  assumes "parse_receiver_status v = Inr status" and "app \<in> set (rs_applications status)"
  shows "receiver_status_contains_app v (ca_app_id app)"
proof -
  from assms(1) obtain ms where ms: "json_get v ''status'' = Some (JObject ms)"
    "rs_applications status = (case Option.bind (map_of ms ''applications'') as_array of
       None \<Rightarrow> [] | Some apps \<Rightarrow> List.map_filter parse_cast_app apps)"
    by (auto simp: parse_receiver_status_def bind_eq_Some_conv Let_def elim: as_object.elims split: option.splits)
  with assms(2) obtain apps a where "Option.bind (map_of ms ''applications'') as_array = Some apps"
    "a \<in> set apps" "parse_cast_app a = Some app"
    by (auto simp: List.map_filter_def split: option.splits)
  with ms(1) show ?thesis
    by (auto simp: receiver_status_contains_app_def list_ex_iff parse_cast_app_def bind_eq_Some_conv)
qed

end
