(* ===== verification/Pending.thy ===== *)
theory Pending
  imports Control_Messages "HOL-Library.Multiset"
begin

text \<open>
  The tables of requests that wait for an answer (\<open>src/control/mod.rs\<close>), the identifiers they
  are filed under, and the functions that settle requests when an answer, an error or the end of
  the channel arrives. A table is an association list in order of insertion; the source's hash
  map iterates in an unspecified order, which no result below depends on beyond the order in
  which different callers are answered. A one-shot response channel is a number, and what is
  sent on it a pair of that number and the result.

  The locale \<open>settles\<close> is the contract of every function that settles requests; the loop
  relies on nothing else to show that each caller is answered once.
\<close>

record 'k pending =
  subject :: 'k
  response_sender :: nat

type_synonym 'k pending_table = "(u32 \<times> 'k pending) list"
type_synonym reply = "error + json"
type_synonym replies = "(nat \<times> reply) list"

definition channels :: "'k pending_table \<Rightarrow> nat list" where
  "channels t = map (\<lambda>(_, p). response_sender p) t"

subsection \<open>Identifiers\<close>

text \<open>The loop of \<open>allocate_id\<close> ends only if an identifier is free: it may be \<open>None\<close>.\<close>

partial_function (option) allocate_id :: "u32 \<Rightarrow> (u32 \<times> 'v) list \<Rightarrow> (u32 \<times> u32) option" where
  "allocate_id next pending =
     (let next' = max (next + 1) 1
      in if next \<noteq> 0 \<and> map_of pending next = None then Some (next, next')
         else allocate_id next' pending)"

subsection \<open>Settling requests\<close>

fun settle :: "u32 list \<Rightarrow> ('k \<Rightarrow> reply) \<Rightarrow> 'k pending_table \<Rightarrow> 'k pending_table \<times> replies" where
  "settle [] r t = (t, [])"
| "settle (rid # ids) r t =
     (case map_of t rid of
        None \<Rightarrow> settle ids r t
      | Some p \<Rightarrow>
          let (t', rs) = settle ids r (AList.delete rid t)
          in (t', (response_sender p, r (subject p)) # rs))"

fun status_completes :: "json \<Rightarrow> receiver_operation \<Rightarrow> bool" where
  "status_completes v (Launch app_id) = receiver_status_contains_app v app_id"
| "status_completes v (Availability app_id) = False"
| "status_completes v _ = True"

fun launch_visible :: "json \<Rightarrow> receiver_operation \<Rightarrow> bool" where
  "launch_visible v (Launch app_id) = receiver_status_contains_app v app_id"
| "launch_visible v _ = False"

definition complete_receiver_status ::
  "json \<Rightarrow> receiver_operation pending_table \<Rightarrow> receiver_operation pending_table \<times> replies" where
  "complete_receiver_status v t =
     (case Option.bind (json_u32 v ''requestId'') (\<lambda>rid. case map_of t rid of
             None \<Rightarrow> None
           | Some p \<Rightarrow> if status_completes v (subject p) then Some rid else None) of
        Some rid \<Rightarrow> settle [rid] (\<lambda>_. Inr v) t
      | None \<Rightarrow> settle (map fst (filter (\<lambda>(_, p). launch_visible v (subject p)) t)) (\<lambda>_. Inr v) t)"

definition complete_receiver_request ::
  "json \<Rightarrow> (receiver_operation \<Rightarrow> bool) \<Rightarrow> receiver_operation pending_table \<Rightarrow>
     receiver_operation pending_table \<times> replies" where
  "complete_receiver_request v expected t =
     (case json_u32 v ''requestId'' of
        None \<Rightarrow> (t, [])
      | Some rid \<Rightarrow>
          (case map_of t rid of
             None \<Rightarrow> (t, [])
           | Some p \<Rightarrow> if expected (subject p) then settle [rid] (\<lambda>_. Inr v) t else (t, [])))"

definition complete_offer ::
  "json \<Rightarrow> string \<Rightarrow> string pending_table \<Rightarrow> string pending_table \<times> replies" where
  "complete_offer v source t =
     (case json_u32 v ''seqNum'' of
        None \<Rightarrow> (t, [])
      | Some rid \<Rightarrow>
          (case map_of t rid of
             None \<Rightarrow> (t, [])
           | Some p \<Rightarrow> if subject p = source then settle [rid] (\<lambda>_. Inr v) t else (t, [])))"

text \<open>The only element of an iterator that has exactly one.\<close>

fun the_only :: "'a list \<Rightarrow> 'a option" where
  "the_only [x] = Some x"
| "the_only _ = None"

fun reports_failure :: "string option \<Rightarrow> receiver_operation \<Rightarrow> bool" where
  "reports_failure None operation = True"
| "reports_failure (Some reported) (Launch app_id) = (app_id = reported)"
| "reports_failure (Some reported) _ = False"

fun request_error :: "string \<Rightarrow> receiver_operation \<Rightarrow> error" where
  "request_error detail (Launch app_id) = AppLaunchFailed detail"
| "request_error detail _ = ProtocolError detail"

definition fail_receiver_request ::
  "json \<Rightarrow> string \<Rightarrow> receiver_operation pending_table \<Rightarrow> receiver_operation pending_table \<times> replies" where
  "fail_receiver_request v detail t =
     (case (case json_u32 v ''requestId'' of
              Some rid \<Rightarrow> Some rid
            | None \<Rightarrow>
                the_only (map fst (filter (\<lambda>(_, p). reports_failure (get_str v ''appId'') (subject p)) t))) of
        None \<Rightarrow> (t, [])
      | Some rid \<Rightarrow> settle [rid] (\<lambda>operation. Inl (request_error detail operation)) t)"

definition fail_offer ::
  "json \<Rightarrow> string \<Rightarrow> string \<Rightarrow> string pending_table \<Rightarrow> string pending_table \<times> replies" where
  "fail_offer v source detail t =
     (case (case json_u32 v ''seqNum'' of
              Some rid \<Rightarrow> Some rid
            | None \<Rightarrow> the_only (map fst (filter (\<lambda>(_, p). subject p = source) t))) of
        None \<Rightarrow> (t, [])
      | Some rid \<Rightarrow>
          (case map_of t rid of
             None \<Rightarrow> (t, [])
           | Some p \<Rightarrow>
               if subject p = source then settle [rid] (\<lambda>_. Inl (NegotiationFailed detail)) t else (t, [])))"

definition fail_offers_for_destination ::
  "string \<Rightarrow> string \<Rightarrow> string pending_table \<Rightarrow> string pending_table \<times> replies" where
  "fail_offers_for_destination destination detail t =
     settle (map fst (filter (\<lambda>(_, p). subject p = destination) t))
       (\<lambda>_. Inl (NegotiationFailed detail)) t"

definition drain_failed :: "string \<Rightarrow> 'k pending_table \<Rightarrow> replies" where
  "drain_failed detail t = map (\<lambda>(_, p). (response_sender p, Inl (ConnectionFailed detail))) t"

definition retain_open :: "(nat \<Rightarrow> bool) \<Rightarrow> 'k pending_table \<Rightarrow> 'k pending_table" where
  "retain_open is_closed t = filter (\<lambda>(_, p). \<not> is_closed (response_sender p)) t"

text \<open>The \<open>Debug\<close> form of a string: quoted, with the escapes of ASCII characters.\<close>

definition escape_debug :: "char \<Rightarrow> string" where
  "escape_debug c =
     (let n = of_char c :: nat
      in if n = 0 then [CHR 0x5C, CHR ''0''] else if n = 9 then [CHR 0x5C, CHR ''t''] else if n = 10 then [CHR 0x5C, CHR ''n''] else if n = 13 then [CHR 0x5C, CHR ''r'']
         else if n = 34 \<or> n = 92 then [CHR 0x5C, c]
         else if n < 32 \<or> n = 127 then
           [CHR 0x5C] @ ''u{'' @ (if 15 < n then [''0123456789abcdef'' ! (n div 16)] else []) @
             [''0123456789abcdef'' ! (n mod 16)] @ ''}''
         else [c])"

definition debug_str :: "string \<Rightarrow> string" where
  "debug_str s = [CHR 0x22] @ concat (map escape_debug s) @ [CHR 0x22]"

definition dispatch_product_info_message ::
  "(string \<Rightarrow> string + json) \<Rightarrow> cast_message \<Rightarrow> product_info_operation pending_table \<Rightarrow>
     (product_info_operation pending_table \<times> replies, error) result" where
  "dispatch_product_info_message parse m t =
     (case from_namespace (namespace m) of
        None \<Rightarrow> Inl Panic
      | Some operation \<Rightarrow>
          if source_id m \<noteq> RECEIVER_ID \<or> destination_id m \<noteq> SENDER_ID then Inr (t, [])
          else
            case payload m of
              PBinary b \<Rightarrow> Inl (Err (ProtocolError (''non-JSON response on '' @ namespace m)))
            | PString s \<Rightarrow>
                (case parse s of
                   Inl e \<Rightarrow> Inl (Err (ProtocolError (''invalid JSON on namespace '' @ namespace m @ '': '' @ e)))
                 | Inr v \<Rightarrow>
                     (case json_u32 v (request_id_field operation) of
                        None \<Rightarrow> Inr (t, [])
                      | Some rid \<Rightarrow>
                          (case map_of t rid of
                             None \<Rightarrow> Inr (t, [])
                           | Some p \<Rightarrow>
                               if subject p \<noteq> operation then Inr (t, [])
                               else
                                 let message_type = (case json_message_type v of None \<Rightarrow> [] | Some x \<Rightarrow> x);
                                     response =
                                       (if accepts_response_type operation message_type \<or>
                                           message_type = ''INVALID_REQUEST'' then Inr v
                                        else Inl (ProtocolError (''correlated '' @ info_message_type operation @
                                          '' response has unexpected type '' @ debug_str message_type)))
                                 in Inr (settle [rid] (\<lambda>_. response) t)))))"


subsection \<open>Allocation\<close>

text \<open>The number of identifiers the loop tries before it comes to \<open>f\<close>.\<close>

definition id_distance :: "u32 \<Rightarrow> u32 \<Rightarrow> nat" where
  "id_distance next f = (if unat next \<le> unat f then unat f - unat next else 2 ^ 32 - 1 - unat next + unat f)"

lemma unat_next_id: "unat (max (next + 1) 1 :: u32) = (if unat next = 2 ^ 32 - 1 then 1 else unat next + 1)"
proof -
  have "unat (next + 1) = (if unat next = 2 ^ 32 - 1 then 0 else unat next + 1)"
    using unat_lt [of "next"] by (auto simp: unat_word_ariths)
  then show ?thesis by (auto simp: max_def word_le_nat_alt split: if_splits)
qed

lemma id_distance_next:
  assumes "f \<noteq> 0" and "next \<noteq> f"
  shows "id_distance (max (next + 1) 1) f < id_distance next f"
proof -
  have "m < n \<or> n < m \<Longrightarrow> 0 < m \<Longrightarrow> n < M \<Longrightarrow> m < M \<Longrightarrow> n' = (if n = M - 1 then 1 else n + 1) \<Longrightarrow>
      (if n' \<le> m then m - n' else M - 1 - n' + m) < (if n \<le> m then m - n else M - 1 - n + m)"
    for m n n' M :: nat by (cases "n = M - 1") auto
  moreover have "0 < unat f" using assms(1) unat_eq_zero [of f] by linarith
  moreover have "unat next \<noteq> unat f" using assms(2) by (simp add: word_unat_eq_iff)
  moreover have "unat f < 2 ^ 32" "unat next < 2 ^ 32" using unat_lt [of f] unat_lt [of "next"] by simp_all
  ultimately show ?thesis
    unfolding id_distance_def using unat_next_id [of "next"] by (metis linorder_neqE_nat)
qed

lemma allocate_id_returns:
  assumes "f \<noteq> 0" and "map_of pending f = None"
  shows "allocate_id next pending \<noteq> None"
proof (induction "id_distance next f" arbitrary: "next" rule: less_induct)
  case less
  show ?case
  proof (cases "next \<noteq> 0 \<and> map_of pending next = None")
    case True
    then show ?thesis by (subst allocate_id.simps) (simp add: Let_def)
  next
    case False
    with assms have "next \<noteq> f" by auto
    from less [OF id_distance_next [OF assms(1) this]] False show ?thesis
      by (subst allocate_id.simps) (auto simp: Let_def)
  qed
qed

lemma allocate_id_fresh:
  assumes "allocate_id next pending = Some (rid, next')"
  shows "rid \<noteq> 0 \<and> map_of pending rid = None \<and> next' = max (rid + 1) 1"
  using allocate_id.raw_induct [of "\<lambda>_ pending (rid, next').
      rid \<noteq> 0 \<and> map_of pending rid = None \<and> next' = max (rid + 1) 1", OF _ assms]
  by (fastforce simp: Let_def split: if_splits)

lemma free_id:
  assumes "length pending < 2 ^ 32 - 1"
  shows "\<exists>f. f \<noteq> (0 :: u32) \<and> map_of pending f = None"
proof -
  have "card (insert 0 (fst ` set pending)) \<le> Suc (card (fst ` set pending))"
    by (rule card_insert_le_m1) auto
  also have "\<dots> \<le> Suc (length pending)"
    using card_length [of "map fst pending"] by simp
  also have "\<dots> < card (UNIV :: u32 set)" using assms by (simp add: card_word)
  finally have "insert 0 (fst ` set pending) \<noteq> UNIV" by auto
  then show ?thesis by (auto simp: map_of_eq_None_iff)
qed

text \<open>
  C30. Identifiers are always found and never reused while in use: when some identifier other
  than zero is free, in particular when fewer than \<open>2 ^ 32 - 1\<close> requests wait, the allocation
  loop ends; it ends only with an identifier that is not zero and that no waiting request has.
\<close>

theorem allocate_id_terminates:
  "(allocate_id next pending \<noteq> None) = (\<exists>f. f \<noteq> 0 \<and> map_of pending f = None) \<and>
   (length pending < 2 ^ 32 - 1 \<longrightarrow> (\<exists>rid next'. allocate_id next pending = Some (rid, next'))) \<and>
   (\<forall>rid next'. allocate_id next pending = Some (rid, next') \<longrightarrow>
      rid \<noteq> 0 \<and> map_of pending rid = None \<and> next' \<noteq> 0)"
proof (intro conjI allI impI)
  show "(allocate_id next pending \<noteq> None) = (\<exists>f. f \<noteq> 0 \<and> map_of pending f = None)"
  proof
    assume "allocate_id next pending \<noteq> None"
    then obtain rid next' where "allocate_id next pending = Some (rid, next')" by auto
    from allocate_id_fresh [OF this] show "\<exists>f. f \<noteq> 0 \<and> map_of pending f = None" by blast
  qed (use allocate_id_returns in blast)
  show "\<exists>rid next'. allocate_id next pending = Some (rid, next')" if small: "length pending < 2 ^ 32 - 1"
  proof -
    obtain f where "f \<noteq> 0" "map_of pending f = None" using free_id [OF small] by blast
    from allocate_id_returns [OF this] show ?thesis by auto
  qed
next
  fix rid next'
  assume "allocate_id next pending = Some (rid, next')"
  note * = allocate_id_fresh [OF this]
  then show "rid \<noteq> 0" "map_of pending rid = None" by simp_all
  have "unat next' \<noteq> 0" using * unat_next_id [of rid] by (simp split: if_splits)
  then show "next' \<noteq> 0" by auto
qed

theorem allocate_id_terminates_witness:
  "(\<exists>rid next'. allocate_id 1 [(1, ()), (2, ())] = Some (rid, next')) \<and>
   allocate_id 1 [(1, ()), (2, ())] = Some (3, 4)"
proof
  have "length [(1 :: u32, ()), (2, ())] < 2 ^ 32 - 1" by simp
  with allocate_id_terminates [THEN conjunct2, THEN conjunct1]
  show "\<exists>rid next'. allocate_id 1 [(1, ()), (2, ())] = Some (rid, next')" by (rule mp)
  have "allocate_id 3 [(1, ()), (2, ())] = Some (3, 4)"
    by (subst allocate_id.simps) (simp add: Let_def max_def word_le_nat_alt)
  then have "allocate_id 2 [(1, ()), (2, ())] = Some (3, 4)"
    by (subst allocate_id.simps) (simp add: Let_def max_def word_le_nat_alt)
  then show "allocate_id 1 [(1, ()), (2, ())] = Some (3, 4)"
    by (subst allocate_id.simps) (simp add: Let_def max_def word_le_nat_alt)
qed

subsection \<open>The contract of settling\<close>

text \<open>The effect of \<open>settle\<close>: the requests of the given identifiers leave the table, each with
  its reply, and the others stay.\<close>

lemma channels_simps [simp]:
  "channels [] = []" "channels ((rid, p) # t) = response_sender p # channels t"
  by (simp_all add: channels_def)

lemma channels_delete:
  "distinct (map fst t) \<Longrightarrow> map_of t rid = Some p \<Longrightarrow>
     mset (channels t) = add_mset (response_sender p) (mset (channels (AList.delete rid t)))"
  by (induction t) (auto split: if_splits simp: AList.delete_id)

definition replied :: "('k \<Rightarrow> reply) \<Rightarrow> u32 \<times> 'k pending \<Rightarrow> nat \<times> reply" where
  "replied r e = (response_sender (snd e), r (subject (snd e)))"

lemma settle_effect:
  assumes "distinct (map fst t)" and "settle ids r t = (t', rs)"
  shows "t' = filter (\<lambda>(rid, _). rid \<notin> set ids) t" (is "?T t ids t'")
    and "mset (channels t) = mset (channels t') + mset (map fst rs)"
    and "set rs = replied r ` {e \<in> set t. fst e \<in> set ids}"
proof -
  have "?T t ids t' \<and> mset (channels t) = mset (channels t') + mset (map fst rs) \<and>
      set rs = replied r ` {e \<in> set t. fst e \<in> set ids}"
    using assms
  proof (induction ids r t arbitrary: t' rs rule: settle.induct)
    case (1 r t)
    then show ?case by (simp add: case_prod_unfold)
  next
    case (2 rid ids r t)
    show ?case
    proof (cases "map_of t rid")
      case None
      then have no: "(rid, p) \<notin> set t" for p by (auto simp: map_of_eq_None_iff rev_image_eqI)
      then have eqs: "filter (\<lambda>(k, _). k \<notin> set (rid # ids)) t = filter (\<lambda>(k, _). k \<notin> set ids) t"
        "{e \<in> set t. fst e \<in> set (rid # ids)} = {e \<in> set t. fst e \<in> set ids}"
        by (auto intro!: filter_cong)
      have "settle ids r t = (t', rs)" using 2(4) None by simp
      from 2(1) [OF None 2(3) this] show ?thesis unfolding eqs .
    next
      case (Some p)
      then obtain rs' where s: "settle ids r (AList.delete rid t) = (t', rs')"
        "rs = (response_sender p, r (subject p)) # rs'" using 2(4) by (auto split: prod.splits)
      note ih = 2(2) [OF Some distinct_delete [OF 2(3)] s(1)]
      have "(k, q) \<in> set t \<longleftrightarrow> map_of t k = Some q" for k q using 2(3) by simp
      then have one: "{e \<in> set t. fst e = rid} = {(rid, p)}" using Some by (auto simp del: map_of_eq_Some_iff)
      have "{e \<in> set t. fst e \<in> set (rid # ids)} =
          {e \<in> set t. fst e = rid} \<union> {e \<in> set (AList.delete rid t). fst e \<in> set ids}"
        by (auto simp: AList.delete_eq)
      then have "{e \<in> set t. fst e \<in> set (rid # ids)} =
          insert (rid, p) {e \<in> set (AList.delete rid t). fst e \<in> set ids}" unfolding one by simp
      moreover have "set rs = insert (replied r (rid, p)) (set rs')" using s(2) by (simp add: replied_def)
      ultimately have "set rs = replied r ` {e \<in> set t. fst e \<in> set (rid # ids)}" using ih by simp
      moreover have "t' = filter (\<lambda>(k, _). k \<notin> set (rid # ids)) t"
        using ih by (auto simp: AList.delete_eq filter_filter intro!: filter_cong)
      ultimately show ?thesis using ih s(2) channels_delete [OF 2(3) Some] by simp
    qed
  qed
  then show "?T t ids t'" and "mset (channels t) = mset (channels t') + mset (map fst rs)"
    and "set rs = replied r ` {e \<in> set t. fst e \<in> set ids}" by blast+
qed

text \<open>
  What the loop relies on: an action on a table only settles requests of the table. Then the
  table keeps its shape, and every caller that waited still waits or has been answered.
\<close>

locale settles =
  fixes act :: "'x \<Rightarrow> 'k pending_table \<Rightarrow> 'k pending_table \<times> replies"
  assumes act_settles: "\<exists>ids r. act x t = settle ids r t"
begin

lemma act_filter:
  assumes "distinct (map fst t)" and "act x t = (t', rs)"
  shows "\<exists>P. t' = filter P t"
proof -
  obtain ids r where "act x t = settle ids r t" using act_settles by blast
  then have "settle ids r t = (t', rs)" using assms(2) by simp
  from settle_effect(1) [OF assms(1) this] show ?thesis by blast
qed

lemma act_distinct: "distinct (map fst t) \<Longrightarrow> act x t = (t', rs) \<Longrightarrow> distinct (map fst t')"
  using act_filter [of t x t' rs] by (auto simp: distinct_map_filter)

lemma act_length: "distinct (map fst t) \<Longrightarrow> act x t = (t', rs) \<Longrightarrow> length t' \<le> length t"
  by (auto dest!: act_filter)

lemma act_conserves:
  assumes "distinct (map fst t)" and "act x t = (t', rs)"
  shows "mset (channels t) = mset (channels t') + mset (map fst rs)"
proof -
  obtain ids r where "act x t = settle ids r t" using act_settles by blast
  then have "settle ids r t = (t', rs)" using assms(2) by simp
  from settle_effect(2) [OF assms(1) this] show ?thesis .
qed

lemma act_reply_once:
  assumes "distinct (map fst t)" and "distinct (channels t)" and "act x t = (t', rs)"
  shows "distinct (map fst rs)" and "set (channels t') \<inter> fst ` set rs = {}"
    and "set (channels t) = set (channels t') \<union> fst ` set rs"
proof -
  have "mset (channels t) = mset (channels t' @ map fst rs)" using act_conserves [OF assms(1, 3)] by simp
  from mset_eq_imp_distinct_iff [OF this] mset_eq_setD [OF this] assms(2)
  show "distinct (map fst rs)" "set (channels t') \<inter> fst ` set rs = {}"
    "set (channels t) = set (channels t') \<union> fst ` set rs" by auto
qed

end

lemma settles_nothing [simp]: "\<exists>ids r. (t, []) = settle ids r t"
  by (intro exI [of _ "[]"]) simp

lemma settles_itself [simp]: "\<exists>ids' r'. settle ids r t = settle ids' r' t"
  by blast

declare settle.simps [simp del]

interpretation status: settles complete_receiver_status
  by unfold_locales (auto simp: complete_receiver_status_def split: option.splits)

interpretation answer: settles "\<lambda>(v, expected). complete_receiver_request v expected"
  by unfold_locales (auto simp: complete_receiver_request_def split: option.splits)

interpretation offer_answer: settles "\<lambda>(v, source). complete_offer v source"
  by unfold_locales (auto simp: complete_offer_def split: option.splits)

interpretation failure: settles "\<lambda>(v, detail). fail_receiver_request v detail"
  by unfold_locales (auto simp: fail_receiver_request_def split: option.splits)

interpretation offer_failure: settles "\<lambda>(v, source, detail). fail_offer v source detail"
  by unfold_locales (auto simp: fail_offer_def split: option.splits)

interpretation transport_closed: settles "\<lambda>(destination, detail). fail_offers_for_destination destination detail"
  by unfold_locales (auto simp: fail_offers_for_destination_def)

lemma product_info_settles:
  "dispatch_product_info_message parse m t = Inr s \<Longrightarrow> \<exists>ids r. s = settle ids r t"
  unfolding dispatch_product_info_message_def Let_def
  by (simp split: option.splits if_splits payload.splits sum.splits) auto

definition info_settled ::
  "(string \<Rightarrow> string + json) \<times> cast_message \<Rightarrow> product_info_operation pending_table \<Rightarrow>
     product_info_operation pending_table \<times> replies" where
  "info_settled = (\<lambda>(parse, m) t.
     case dispatch_product_info_message parse m t of Inr s \<Rightarrow> s | Inl _ \<Rightarrow> (t, []))"

interpretation info: settles info_settled
proof
  fix x t
  show "\<exists>ids r. info_settled x t = settle ids r t"
    using product_info_settles [of "fst x" "snd x" t]
    by (cases "dispatch_product_info_message (fst x) (snd x) t") (simp_all add: info_settled_def case_prod_unfold)
qed

end
