(* ===== verification/Control_Loop.thy ===== *)
theory Control_Loop
  imports Pending
begin

text \<open>
  The control task of a Cast connection (\<open>control_loop\<close> in \<open>src/control/mod.rs\<close>): one iteration
  of its \<open>select!\<close> loop with its three arms, the dispatch of messages, the orderly teardown and
  the end of the task.

  Parameters: \<open>parse\<close> and \<open>print\<close> are the JSON text library, \<open>wr n\<close> is the outcome of the
  \<open>n\<close>-th write to the stream (\<open>None\<close> is success). An iteration gets which response channels
  their callers have dropped, the time, and the arm that is ready. The state has, beside the
  variables of the loop, what it has sent on response channels, on the event channel and on the
  stream so far.
\<close>

datatype channel_answer = Answered reply | Written "error + unit" | CloseAcknowledged

datatype control_command =
    ReceiverRequest receiver_operation "json option" nat
  | ProductInfoRequest product_info_operation nat
  | SendOffer string json nat
  | SendFire string string json nat
  | CloseControl nat

record control_state =
  next_request_id :: u32
  next_product_info_request_id :: u32
  next_sequence_number :: u32
  pending_receiver :: "receiver_operation pending_table"
  pending_product_info :: "product_info_operation pending_table"
  pending_offers :: "string pending_table"
  known_apps :: "(string \<times> cast_app) list"
  last_heartbeat :: instant
  ct_replies :: "(nat \<times> channel_answer) list"
  ct_events :: "control_event list"
  ct_written :: "(cast_message \<times> io_fault option) list"

definition control_init :: "instant \<Rightarrow> control_state" where
  "control_init now =
     \<lparr>next_request_id = 1, next_product_info_request_id = 1, next_sequence_number = 1,
      pending_receiver = [], pending_product_info = [], pending_offers = [], known_apps = [],
      last_heartbeat = now, ct_replies = [], ct_events = [], ct_written = []\<rparr>"

text \<open>How an iteration ends: the loop goes on, it breaks with a result and a reason, it panics, or
  it never ends because no identifier is free.\<close>

datatype flow = Continue | Break "error + unit" control_close_reason | Crash | Hang

datatype arm = Incoming "io_fault + cast_message" | Command "control_command option" | HeartbeatTick

record loop_input =
  li_closed :: "nat \<Rightarrow> bool"
  li_now :: instant
  li_arm :: arm

definition emit :: "control_event list \<Rightarrow> control_state \<Rightarrow> control_state" where
  "emit evs s = s\<lparr>ct_events := ct_events s @ evs\<rparr>"

definition answer_all :: "replies \<Rightarrow> control_state \<Rightarrow> control_state" where
  "answer_all rs s = s\<lparr>ct_replies := ct_replies s @ map (\<lambda>(c, r). (c, Answered r)) rs\<rparr>"

subsection \<open>Writing\<close>

definition write_json_message_timed ::
  "(json \<Rightarrow> string) \<Rightarrow> (nat \<Rightarrow> io_fault option) \<Rightarrow> string \<Rightarrow> string \<Rightarrow> string \<Rightarrow> json \<Rightarrow> control_state \<Rightarrow>
     control_state \<times> io_fault option" where
  "write_json_message_timed print wr source destination ns v s =
     (let m = \<lparr>source_id = source, destination_id = destination, namespace = ns, payload = PString (print v)\<rparr>;
          outcome = wr (length (ct_written s))
      in (s\<lparr>ct_written := ct_written s @ [(m, outcome)]\<rparr>, outcome))"

definition write_failed :: "string \<Rightarrow> io_fault \<Rightarrow> flow" where
  "write_failed context e =
     (let detail = context @ io_display e in Break (Inl (ConnectionFailed detail)) (CloseError detail))"

definition write_or_break ::
  "(json \<Rightarrow> string) \<Rightarrow> (nat \<Rightarrow> io_fault option) \<Rightarrow> string \<Rightarrow> string \<Rightarrow> string \<Rightarrow> json \<Rightarrow> control_state \<Rightarrow>
     control_state \<times> flow" where
  "write_or_break print wr context destination ns v s =
     (case write_json_message_timed print wr SENDER_ID destination ns v s of
        (s', None) \<Rightarrow> (s', Continue)
      | (s', Some e) \<Rightarrow> (s', write_failed context e))"

definition typed :: "string \<Rightarrow> json" where
  "typed t = JObject [(''type'', JString t)]"

definition teardown_app ::
  "(json \<Rightarrow> string) \<Rightarrow> (nat \<Rightarrow> io_fault option) \<Rightarrow> cast_app \<Rightarrow> control_state \<Rightarrow> control_state \<times> io_fault option" where
  "teardown_app print wr app s =
     (case write_json_message_timed print wr SENDER_ID (ca_transport_id app) NS_CONNECTION (typed ''CLOSE'') s of
        (s', Some e) \<Rightarrow> (s', Some e)
      | (s', None) \<Rightarrow>
          if ca_session_id app \<noteq> [] then
            write_json_message_timed print wr SENDER_ID RECEIVER_ID NS_RECEIVER
              (JObject [(''type'', JString ''STOP''), (''sessionId'', JString (ca_session_id app)),
                 (''requestId'', json_nat 0)]) s'
          else (s', None))"

primrec send_teardown ::
  "(json \<Rightarrow> string) \<Rightarrow> (nat \<Rightarrow> io_fault option) \<Rightarrow> cast_app list \<Rightarrow> control_state \<Rightarrow> control_state \<times> io_fault option" where
  "send_teardown print wr [] s =
     write_json_message_timed print wr SENDER_ID RECEIVER_ID NS_CONNECTION (typed ''CLOSE'') s"
| "send_teardown print wr (app # apps) s =
     (case teardown_app print wr app s of
        (s', Some e) \<Rightarrow> (s', Some e)
      | (s', None) \<Rightarrow> send_teardown print wr apps s')"

definition teardown_arm ::
  "(json \<Rightarrow> string) \<Rightarrow> (nat \<Rightarrow> io_fault option) \<Rightarrow> control_state \<Rightarrow> control_state \<times> flow" where
  "teardown_arm print wr s =
     (case send_teardown print wr (map snd (known_apps s)) s of
        (s', None) \<Rightarrow> (s', Break (Inr ()) Requested)
      | (s', Some e) \<Rightarrow> (s', write_failed ''send Cast teardown: '' e))"

subsection \<open>Messages of the receiver\<close>

definition apps_by_transport :: "cast_app list \<Rightarrow> (string \<times> cast_app) list" where
  "apps_by_transport apps = fold (\<lambda>app m. AList.update (ca_transport_id app) app m) apps []"

definition publish_receiver_status :: "receiver_status \<Rightarrow> control_state \<Rightarrow> control_state" where
  "publish_receiver_status status s =
     (let new_apps = apps_by_transport (rs_applications status);
          gone = filter (\<lambda>(transport, _). map_of new_apps transport = None) (known_apps s)
      in emit (map (\<lambda>(_, app). ApplicationStopped app) gone @ [StatusChanged status])
           (s\<lparr>known_apps := new_apps\<rparr>))"

definition settle_receiver ::
  "(receiver_operation pending_table \<Rightarrow> receiver_operation pending_table \<times> replies) \<Rightarrow> control_state \<Rightarrow> control_state" where
  "settle_receiver f s = (let (t, rs) = f (pending_receiver s) in answer_all rs (s\<lparr>pending_receiver := t\<rparr>))"

definition settle_offers ::
  "(string pending_table \<Rightarrow> string pending_table \<times> replies) \<Rightarrow> control_state \<Rightarrow> control_state" where
  "settle_offers f s = (let (t, rs) = f (pending_offers s) in answer_all rs (s\<lparr>pending_offers := t\<rparr>))"

fun is_availability :: "receiver_operation \<Rightarrow> bool" where
  "is_availability (Availability app_id) = True"
| "is_availability _ = False"

definition dispatch_receiver :: "cast_message \<Rightarrow> json \<Rightarrow> string \<Rightarrow> control_state \<Rightarrow> error + control_state" where
  "dispatch_receiver m v message_type s =
     (if source_id m \<noteq> RECEIVER_ID then Inr s
      else if message_type = ''RECEIVER_STATUS'' then
        (case parse_receiver_status v of
           Inl e \<Rightarrow> Inl e
         | Inr status \<Rightarrow> Inr (settle_receiver (complete_receiver_status v) (publish_receiver_status status s)))
      else if message_type = ''GET_APP_AVAILABILITY'' then
        Inr (settle_receiver (complete_receiver_request v is_availability) s)
      else if message_type = ''LAUNCH_ERROR'' \<or> message_type = ''INVALID_REQUEST'' then
        Inr (settle_receiver (fail_receiver_request v (receiver_error_description v message_type)) s)
      else Inr s)"

definition dispatch_webrtc :: "cast_message \<Rightarrow> json \<Rightarrow> string \<Rightarrow> control_state \<Rightarrow> control_state" where
  "dispatch_webrtc m v message_type s =
     (if message_type = ''ANSWER'' then settle_offers (complete_offer v (source_id m)) s
      else if message_type = ''INVALID_REQUEST'' then
        settle_offers (fail_offer v (source_id m) (receiver_error_description v message_type)) s
      else s)"

definition dispatch_json_message ::
  "(string \<Rightarrow> string + json) \<Rightarrow> cast_message \<Rightarrow> control_state \<Rightarrow> error + control_state" where
  "dispatch_json_message parse m s =
     (if namespace m \<noteq> NS_RECEIVER \<and> namespace m \<noteq> NS_WEBRTC then Inr s
      else
        case payload m of
          PBinary b \<Rightarrow> Inr s
        | PString text \<Rightarrow>
            (case parse text of
               Inl e \<Rightarrow> Inl (ProtocolError (''invalid JSON on namespace '' @ namespace m @ '': '' @ e))
             | Inr v \<Rightarrow>
                 let message_type = (case json_message_type v of None \<Rightarrow> [] | Some t \<Rightarrow> t)
                 in if namespace m = NS_RECEIVER then dispatch_receiver m v message_type s
                    else Inr (dispatch_webrtc m v message_type s)))"

definition heartbeat_message ::
  "(string \<Rightarrow> string + json) \<Rightarrow> (json \<Rightarrow> string) \<Rightarrow> (nat \<Rightarrow> io_fault option) \<Rightarrow> instant \<Rightarrow> cast_message \<Rightarrow>
     control_state \<Rightarrow> control_state \<times> flow" where
  "heartbeat_message parse print wr now m s =
     (let is_ping = message_is_type parse m ''PING''; is_pong = message_is_type parse m ''PONG'';
          s1 = (if is_ping \<or> is_pong then s\<lparr>last_heartbeat := now\<rparr> else s)
      in if is_ping
         then write_or_break print wr ''send heartbeat PONG: '' (source_id m) NS_HEARTBEAT (typed ''PONG'') s1
         else (s1, Continue))"

definition connection_closed :: "cast_message \<Rightarrow> control_state \<Rightarrow> control_state \<times> flow" where
  "connection_closed m s =
     (if source_id m = RECEIVER_ID
      then (s, Break (Inl (ConnectionFailed ''receiver closed the platform connection'')) PeerClosed)
      else
        let s1 = (case map_of (known_apps s) (source_id m) of
                    None \<Rightarrow> s
                  | Some app \<Rightarrow>
                      emit [ApplicationStopped app]
                        (s\<lparr>known_apps := AList.delete (source_id m) (known_apps s)\<rparr>))
        in (settle_offers (fail_offers_for_destination (source_id m) ''application transport closed'') s1, Continue))"

definition dispatch_failed :: "error \<Rightarrow> flow" where
  "dispatch_failed e = Break (Inl e) (CloseError (error_display e))"

definition incoming_arm ::
  "(string \<Rightarrow> string + json) \<Rightarrow> (json \<Rightarrow> string) \<Rightarrow> (nat \<Rightarrow> io_fault option) \<Rightarrow> instant \<Rightarrow>
     io_fault + cast_message \<Rightarrow> control_state \<Rightarrow> control_state \<times> flow" where
  "incoming_arm parse print wr now incoming s =
     (case incoming of
        Inl (UnexpectedEof _) \<Rightarrow> (s, Break (Inl (ConnectionFailed ''receiver closed the TLS stream'')) PeerClosed)
      | Inl e \<Rightarrow> (s, write_failed ''read Cast message: '' e)
      | Inr m \<Rightarrow>
          if namespace m = NS_HEARTBEAT then heartbeat_message parse print wr now m s
          else if namespace m = NS_CONNECTION \<and> message_is_type parse m ''CLOSE'' then connection_closed m s
          else if from_namespace (namespace m) \<noteq> None then
            (case dispatch_product_info_message parse m (pending_product_info s) of
               Inl (Err e) \<Rightarrow> (s, dispatch_failed e)
             | Inl Panic \<Rightarrow> (s, Crash)
             | Inr (t, rs) \<Rightarrow> (answer_all rs (s\<lparr>pending_product_info := t\<rparr>), Continue))
          else
            (case dispatch_json_message parse m s of
               Inl e \<Rightarrow> (s, dispatch_failed e)
             | Inr s' \<Rightarrow> (s', Continue)))"

subsection \<open>Commands of the caller\<close>

definition receiver_request_arm ::
  "(json \<Rightarrow> string) \<Rightarrow> (nat \<Rightarrow> io_fault option) \<Rightarrow> receiver_operation \<Rightarrow> json option \<Rightarrow> nat \<Rightarrow> control_state \<Rightarrow>
     control_state \<times> flow" where
  "receiver_request_arm print wr operation custom sender s =
     (case allocate_id (next_request_id s) (pending_receiver s) of
        None \<Rightarrow> (s, Hang)
      | Some (rid, next') \<Rightarrow>
          (case bindR (case custom of None \<Rightarrow> operation_payload operation rid | Some v \<Rightarrow> Inr v)
                 (\<lambda>v. json_set v ''requestId'' (json_id rid)) of
             Inl _ \<Rightarrow> (s\<lparr>next_request_id := next'\<rparr>, Crash)
           | Inr v \<Rightarrow>
               write_or_break print wr ''send receiver request: '' RECEIVER_ID NS_RECEIVER v
                 (s\<lparr>next_request_id := next',
                    pending_receiver := AList.update rid \<lparr>subject = operation, response_sender = sender\<rparr>
                      (pending_receiver s)\<rparr>)))"

definition product_info_arm ::
  "(json \<Rightarrow> string) \<Rightarrow> (nat \<Rightarrow> io_fault option) \<Rightarrow> product_info_operation \<Rightarrow> nat \<Rightarrow> control_state \<Rightarrow>
     control_state \<times> flow" where
  "product_info_arm print wr operation sender s =
     (case allocate_id (next_product_info_request_id s) (pending_product_info s) of
        None \<Rightarrow> (s, Hang)
      | Some (rid, next') \<Rightarrow>
          (case json_set (typed (info_message_type operation)) (request_id_field operation) (json_id rid) of
             Inl _ \<Rightarrow> (s\<lparr>next_product_info_request_id := next'\<rparr>, Crash)
           | Inr v \<Rightarrow>
               write_or_break print wr ''send product-info request: '' RECEIVER_ID (info_namespace operation) v
                 (s\<lparr>next_product_info_request_id := next',
                    pending_product_info := AList.update rid \<lparr>subject = operation, response_sender = sender\<rparr>
                      (pending_product_info s)\<rparr>)))"

definition offer_arm ::
  "(json \<Rightarrow> string) \<Rightarrow> (nat \<Rightarrow> io_fault option) \<Rightarrow> string \<Rightarrow> json \<Rightarrow> nat \<Rightarrow> control_state \<Rightarrow> control_state \<times> flow" where
  "offer_arm print wr destination offer sender s =
     (case allocate_id (next_sequence_number s) (pending_offers s) of
        None \<Rightarrow> (s, Hang)
      | Some (rid, next') \<Rightarrow>
          write_or_break print wr ''send streaming OFFER: '' destination NS_WEBRTC
            (JObject [(''type'', JString ''OFFER''), (''seqNum'', json_id rid), (''offer'', offer)])
            (s\<lparr>next_sequence_number := next',
               pending_offers := AList.update rid \<lparr>subject = destination, response_sender = sender\<rparr>
                 (pending_offers s)\<rparr>))"

definition fire_arm ::
  "(json \<Rightarrow> string) \<Rightarrow> (nat \<Rightarrow> io_fault option) \<Rightarrow> string \<Rightarrow> string \<Rightarrow> json \<Rightarrow> nat \<Rightarrow> control_state \<Rightarrow>
     control_state \<times> flow" where
  "fire_arm print wr ns destination v sender s =
     (case write_json_message_timed print wr SENDER_ID destination ns v s of
        (s', None) \<Rightarrow> (s'\<lparr>ct_replies := ct_replies s' @ [(sender, Written (Inr ()))]\<rparr>, Continue)
      | (s', Some e) \<Rightarrow>
          let detail = ''send Cast message: '' @ io_display e
          in (s'\<lparr>ct_replies := ct_replies s' @ [(sender, Written (Inl (ConnectionFailed detail)))]\<rparr>,
              write_failed ''send Cast message: '' e))"

definition close_arm ::
  "(json \<Rightarrow> string) \<Rightarrow> (nat \<Rightarrow> io_fault option) \<Rightarrow> nat \<Rightarrow> control_state \<Rightarrow> control_state \<times> flow" where
  "close_arm print wr sender s =
     (let (s', f) = teardown_arm print wr s
      in (s'\<lparr>ct_replies := ct_replies s' @ [(sender, CloseAcknowledged)]\<rparr>, f))"

fun control_command_arm ::
  "(json \<Rightarrow> string) \<Rightarrow> (nat \<Rightarrow> io_fault option) \<Rightarrow> control_command option \<Rightarrow> control_state \<Rightarrow> control_state \<times> flow" where
  "control_command_arm print wr (Some (ReceiverRequest operation custom sender)) s =
     receiver_request_arm print wr operation custom sender s"
| "control_command_arm print wr (Some (ProductInfoRequest operation sender)) s = product_info_arm print wr operation sender s"
| "control_command_arm print wr (Some (SendOffer destination offer sender)) s = offer_arm print wr destination offer sender s"
| "control_command_arm print wr (Some (SendFire ns destination v sender)) s = fire_arm print wr ns destination v sender s"
| "control_command_arm print wr (Some (CloseControl sender)) s = close_arm print wr sender s"
| "control_command_arm print wr None s = teardown_arm print wr s"

definition heartbeat_arm ::
  "(json \<Rightarrow> string) \<Rightarrow> (nat \<Rightarrow> io_fault option) \<Rightarrow> instant \<Rightarrow> control_state \<Rightarrow> control_state \<times> flow" where
  "heartbeat_arm print wr now s =
     (if HEARTBEAT_TIMEOUT \<le> now - last_heartbeat s
      then (s, Break (Inl (ConnectionFailed ''receiver heartbeat timed out'')) HeartbeatTimeout)
      else write_or_break print wr ''send heartbeat PING: '' RECEIVER_ID NS_HEARTBEAT (typed ''PING'') s)"

subsection \<open>The loop\<close>

definition prune :: "(nat \<Rightarrow> bool) \<Rightarrow> control_state \<Rightarrow> control_state" where
  "prune is_closed s =
     s\<lparr>pending_receiver := retain_open is_closed (pending_receiver s),
       pending_product_info := retain_open is_closed (pending_product_info s),
       pending_offers := retain_open is_closed (pending_offers s)\<rparr>"

definition control_step ::
  "(string \<Rightarrow> string + json) \<Rightarrow> (json \<Rightarrow> string) \<Rightarrow> (nat \<Rightarrow> io_fault option) \<Rightarrow> loop_input \<Rightarrow> control_state \<Rightarrow>
     control_state \<times> flow" where
  "control_step parse print wr i s0 =
     (let s = prune (li_closed i) s0
      in case li_arm i of
           Incoming incoming \<Rightarrow> incoming_arm parse print wr (li_now i) incoming s
         | Command command \<Rightarrow> control_command_arm print wr command s
         | HeartbeatTick \<Rightarrow> heartbeat_arm print wr (li_now i) s)"

definition fail_all_pending :: "string \<Rightarrow> control_state \<Rightarrow> control_state" where
  "fail_all_pending detail s =
     answer_all (drain_failed detail (pending_receiver s) @ drain_failed detail (pending_product_info s) @
         drain_failed detail (pending_offers s))
       (s\<lparr>pending_receiver := [], pending_product_info := [], pending_offers := []\<rparr>)"

definition finish :: "error + unit \<Rightarrow> control_close_reason \<Rightarrow> control_state \<Rightarrow> control_state" where
  "finish r reason s =
     emit [ChannelClosed reason]
       (fail_all_pending (case r of Inr _ \<Rightarrow> ''control channel closed'' | Inl e \<Rightarrow> error_display e) s)"

fun control_loop ::
  "(string \<Rightarrow> string + json) \<Rightarrow> (json \<Rightarrow> string) \<Rightarrow> (nat \<Rightarrow> io_fault option) \<Rightarrow> loop_input list \<Rightarrow> control_state \<Rightarrow>
     control_state \<times> flow \<times> loop_input list" where
  "control_loop parse print wr [] s = (s, Continue, [])"
| "control_loop parse print wr (i # rest) s =
     (case control_step parse print wr i s of
        (s', Continue) \<Rightarrow> control_loop parse print wr rest s'
      | (s', Break r reason) \<Rightarrow> (finish r reason s', Break r reason, rest)
      | (s', Crash) \<Rightarrow> (s', Crash, rest)
      | (s', Hang) \<Rightarrow> (s', Hang, rest))"

end
