(* ===== verification/Control_Correct.thy ===== *)
theory Control_Correct
  imports Control_Loop
begin

text \<open>
  Correctness of the control task: every caller gets exactly one answer, answers go only to the
  callers whose request they answer, the heartbeat decides when the receiver is lost, and the
  events tell exactly which applications are gone.
\<close>

subsection \<open>The books\<close>

definition waiting :: "control_state \<Rightarrow> nat list" where
  "waiting s = channels (pending_receiver s) @ channels (pending_product_info s) @ channels (pending_offers s)"

definition answered :: "control_state \<Rightarrow> nat list" where
  "answered s = map fst (ct_replies s)"

definition balance :: "control_state \<Rightarrow> nat multiset" where
  "balance s = mset (waiting s) + mset (answered s)"

definition tables_ok :: "control_state \<Rightarrow> bool" where
  "tables_ok s \<longleftrightarrow> distinct (map fst (pending_receiver s)) \<and> distinct (map fst (pending_product_info s)) \<and>
     distinct (map fst (pending_offers s))"

fun submitted :: "arm \<Rightarrow> nat list" where
  "submitted (Command (Some (ReceiverRequest operation custom c))) = [c]"
| "submitted (Command (Some (ProductInfoRequest operation c))) = [c]"
| "submitted (Command (Some (SendOffer destination offer c))) = [c]"
| "submitted (Command (Some (SendFire ns destination v c))) = [c]"
| "submitted (Command (Some (CloseControl c))) = [c]"
| "submitted _ = []"

lemmas book_defs = waiting_def answered_def balance_def tables_ok_def

text \<open>Writing changes neither tables nor answers.\<close>

lemma book_simps [simp]:
  "balance (s\<lparr>ct_written := l\<rparr>) = balance s" "balance (s\<lparr>known_apps := k\<rparr>) = balance s"
  "balance (s\<lparr>last_heartbeat := t\<rparr>) = balance s" "balance (emit evs s) = balance s"
  "tables_ok (s\<lparr>ct_written := l\<rparr>) = tables_ok s" "tables_ok (s\<lparr>known_apps := k\<rparr>) = tables_ok s"
  "tables_ok (s\<lparr>last_heartbeat := t\<rparr>) = tables_ok s" "tables_ok (emit evs s) = tables_ok s"
  "tables_ok (s\<lparr>ct_replies := r\<rparr>) = tables_ok s"
  "balance (s\<lparr>ct_replies := ct_replies s @ rs\<rparr>) = balance s + mset (map fst rs)"
  "balance (s\<lparr>ct_written := l, ct_replies := ct_replies s @ rs\<rparr>) = balance s + mset (map fst rs)"
  by (simp_all add: book_defs emit_def)

lemma answer_all_simps [simp]:
  "pending_receiver (answer_all rs s) = pending_receiver s"
  "pending_product_info (answer_all rs s) = pending_product_info s"
  "pending_offers (answer_all rs s) = pending_offers s"
  "ct_events (answer_all rs s) = ct_events s" "known_apps (answer_all rs s) = known_apps s"
  "last_heartbeat (answer_all rs s) = last_heartbeat s" "ct_written (answer_all rs s) = ct_written s"
  "image_mset fst (mset (ct_replies (answer_all rs s))) = image_mset fst (mset (ct_replies s)) + image_mset fst (mset rs)"
  by (simp_all add: answer_all_def multiset.map_comp comp_def case_prod_unfold)

lemma write_only_writes:
  "write_json_message_timed print wr source destination ns v s = (s', e) \<Longrightarrow> \<exists>l. s' = s\<lparr>ct_written := l\<rparr>"
  by (auto simp: write_json_message_timed_def Let_def)

lemma write_failed_flow [simp]: "write_failed context e \<noteq> Continue" "write_failed context e \<noteq> Crash"
  "write_failed context e \<noteq> Hang"
  by (simp_all add: write_failed_def Let_def)

lemma write_or_break_writes:
  "write_or_break print wr context destination ns v s = (s', f) \<Longrightarrow>
     (\<exists>l. s' = s\<lparr>ct_written := l\<rparr>) \<and> f \<noteq> Crash \<and> f \<noteq> Hang"
  by (auto simp: write_or_break_def dest!: write_only_writes split: prod.splits option.splits)

lemma teardown_app_writes: "teardown_app print wr app s = (s', e) \<Longrightarrow> \<exists>l. s' = s\<lparr>ct_written := l\<rparr>"
  by (auto simp: teardown_app_def dest!: write_only_writes split: prod.splits option.splits if_splits)

lemma send_teardown_writes: "send_teardown print wr apps s = (s', e) \<Longrightarrow> \<exists>l. s' = s\<lparr>ct_written := l\<rparr>"
proof (induction apps arbitrary: s)
  case Nil
  then show ?case by (auto dest: write_only_writes)
next
  case (Cons app apps)
  then obtain s1 e1 where 1: "teardown_app print wr app s = (s1, e1)" by fastforce
  obtain l where "s1 = s\<lparr>ct_written := l\<rparr>" using teardown_app_writes [OF 1] by blast
  with 1 Cons.prems Cons.IH [of s1] show ?case by (cases e1) auto
qed

lemma teardown_arm_writes:
  "teardown_arm print wr s = (s', f) \<Longrightarrow> (\<exists>l. s' = s\<lparr>ct_written := l\<rparr>) \<and> f \<noteq> Crash \<and> f \<noteq> Hang \<and> f \<noteq> Continue"
  by (auto simp: teardown_arm_def dest!: send_teardown_writes split: prod.splits option.splits)

subsection \<open>Every arm keeps the books\<close>

definition keeps_books :: "nat list \<Rightarrow> control_state \<Rightarrow> control_state \<Rightarrow> bool" where
  "keeps_books new s s' \<longleftrightarrow> (tables_ok s \<longrightarrow> tables_ok s' \<and> balance s' = balance s + mset new)"

lemma keeps_books_refl [simp]: "keeps_books [] s s"
  by (simp add: keeps_books_def)

lemma keeps_books_trans: "keeps_books a s s1 \<Longrightarrow> keeps_books b s1 s2 \<Longrightarrow> keeps_books (a @ b) s s2"
  by (auto simp: keeps_books_def)

lemma keeps_books_settle_receiver:
  assumes "settles (\<lambda>_ :: unit. f)"
  shows "keeps_books [] s (settle_receiver f s)"
proof -
  obtain t rs where "f (pending_receiver s) = (t, rs)" by fastforce
  with settles.act_distinct [OF assms] settles.act_conserves [OF assms] show ?thesis
    by (auto simp: keeps_books_def settle_receiver_def book_defs)
qed

lemma keeps_books_settle_offers:
  assumes "settles (\<lambda>_ :: unit. f)"
  shows "keeps_books [] s (settle_offers f s)"
proof -
  obtain t rs where "f (pending_offers s) = (t, rs)" by fastforce
  with settles.act_distinct [OF assms] settles.act_conserves [OF assms] show ?thesis
    by (auto simp: keeps_books_def settle_offers_def book_defs)
qed

text \<open>The actions the loop applies, by their interpretations of the contract.\<close>

lemma settles_fixed:
  "settles (\<lambda>_ :: unit. complete_receiver_status v)" "settles (\<lambda>_ :: unit. complete_receiver_request v expected)"
  "settles (\<lambda>_ :: unit. fail_receiver_request v detail)" "settles (\<lambda>_ :: unit. complete_offer v source)"
  "settles (\<lambda>_ :: unit. fail_offer v source detail)"
  "settles (\<lambda>_ :: unit. fail_offers_for_destination source detail)"
  using status.act_settles answer.act_settles [of "(v, expected)"] failure.act_settles [of "(v, detail)"]
    offer_answer.act_settles [of "(v, source)"] offer_failure.act_settles [of "(v, source, detail)"]
    transport_closed.act_settles [of "(source, detail)"]
  by (auto intro!: settles.intro)

lemmas keeps_books_rules = keeps_books_settle_receiver [OF settles_fixed(1)] keeps_books_settle_receiver [OF settles_fixed(2)]
  keeps_books_settle_receiver [OF settles_fixed(3)] keeps_books_settle_offers [OF settles_fixed(4)]
  keeps_books_settle_offers [OF settles_fixed(5)] keeps_books_settle_offers [OF settles_fixed(6)]

lemma keeps_books_dispatch:
  "dispatch_json_message parse m s = Inr s' \<Longrightarrow> keeps_books [] s s'"
proof -
  have pub: "keeps_books [] s (publish_receiver_status status s)" for status
    by (simp add: keeps_books_def publish_receiver_status_def Let_def)
  have st: "keeps_books [] s (settle_receiver (complete_receiver_status v) (publish_receiver_status status s))"
    for v status using keeps_books_trans [OF pub keeps_books_rules(1)] by simp
  assume "dispatch_json_message parse m s = Inr s'"
  then show ?thesis
    by (auto simp: dispatch_json_message_def dispatch_receiver_def dispatch_webrtc_def Let_def
        intro: keeps_books_rules st split: if_splits payload.splits sum.splits)
qed

lemma keeps_books_connection_closed:
  assumes "connection_closed m s = (s', f)"
  shows "keeps_books [] s s'"
proof (cases "source_id m = RECEIVER_ID")
  case True
  with assms show ?thesis by (simp add: connection_closed_def)
next
  case False
  define s1 where "s1 = (case map_of (known_apps s) (source_id m) of None \<Rightarrow> s
      | Some app \<Rightarrow> emit [ApplicationStopped app] (s\<lparr>known_apps := AList.delete (source_id m) (known_apps s)\<rparr>))"
  have "keeps_books [] s s1" by (simp add: s1_def keeps_books_def split: option.splits)
  from keeps_books_trans [OF this keeps_books_rules(6)] assms False show ?thesis
    unfolding connection_closed_def s1_def Let_def by auto
qed

lemma incoming_cases:
  assumes "incoming_arm parse print wr now (Inr m) s = (s', f)"
  obtains (heartbeat) "namespace m = NS_HEARTBEAT" "heartbeat_message parse print wr now m s = (s', f)"
    | (closed) "namespace m = NS_CONNECTION" "connection_closed m s = (s', f)"
    | (info) t rs where "dispatch_product_info_message parse m (pending_product_info s) = Inr (t, rs)"
        "s' = answer_all rs (s\<lparr>pending_product_info := t\<rparr>)" "f = Continue"
    | (json) "dispatch_json_message parse m s = Inr s'" "f = Continue"
    | (failed) "s' = s" "f \<noteq> Continue"
proof -
  let ?d = "dispatch_product_info_message parse m (pending_product_info s)"
  consider "namespace m = NS_HEARTBEAT"
    | "namespace m \<noteq> NS_HEARTBEAT" "namespace m = NS_CONNECTION \<and> message_is_type parse m ''CLOSE''"
    | "namespace m \<noteq> NS_HEARTBEAT" "\<not> (namespace m = NS_CONNECTION \<and> message_is_type parse m ''CLOSE'')"
        "from_namespace (namespace m) \<noteq> None"
    | "namespace m \<noteq> NS_HEARTBEAT" "\<not> (namespace m = NS_CONNECTION \<and> message_is_type parse m ''CLOSE'')"
        "from_namespace (namespace m) = None" by argo
  then show thesis
  proof cases
    case 1
    with assms show thesis by (intro heartbeat) (simp_all add: incoming_arm_def)
  next
    case 2
    with assms show thesis by (intro closed) (simp_all add: incoming_arm_def)
  next
    case 3
    have "(s', f) = (case ?d of Inl (Err e) \<Rightarrow> (s, dispatch_failed e) | Inl Panic \<Rightarrow> (s, Crash)
        | Inr (t, rs) \<Rightarrow> (answer_all rs (s\<lparr>pending_product_info := t\<rparr>), Continue))"
      using assms 3 unfolding incoming_arm_def by simp
    then show thesis
      using info failed by (auto simp: dispatch_failed_def split: sum.splits fault.splits prod.splits)
  next
    case 4
    then have "(s', f) = (case dispatch_json_message parse m s of Inl e \<Rightarrow> (s, dispatch_failed e) | Inr s1 \<Rightarrow> (s1, Continue))"
      using assms unfolding incoming_arm_def by (auto split: if_split_asm)
    then show thesis using json failed by (auto simp: dispatch_failed_def split: sum.splits)
  qed
qed

lemma keeps_books_incoming:
  assumes "incoming_arm parse print wr now incoming s = (s', f)"
  shows "keeps_books [] s s'"
proof (cases incoming)
  case (Inl e)
  with assms show ?thesis by (cases e) (auto simp: incoming_arm_def)
next
  case (Inr m)
  with assms have "incoming_arm parse print wr now (Inr m) s = (s', f)" by simp
  then show ?thesis
  proof (cases rule: incoming_cases)
    case heartbeat
    then show ?thesis
      by (auto simp: heartbeat_message_def Let_def keeps_books_def dest!: write_or_break_writes split: if_splits)
  next
    case (info t rs)
    then have "info_settled (parse, m) (pending_product_info s) = (t, rs)" by (simp add: info_settled_def)
    with info.act_distinct [OF _ this] info.act_conserves [OF _ this] info(2) show ?thesis
      by (auto simp: keeps_books_def book_defs)
  qed (auto intro: keeps_books_connection_closed keeps_books_dispatch)
qed

lemma map_fst_update_new: "map_of t rid = None \<Longrightarrow> AList.update rid v t = t @ [(rid, v)]"
  by (induction t) auto

lemma channels_append [simp]: "channels (t @ u) = channels t @ channels u"
  by (simp add: channels_def)

lemma keeps_books_filed:
  "map_of (pending_receiver s) rid = None \<Longrightarrow> response_sender p = c \<Longrightarrow>
     keeps_books [c] s (s\<lparr>next_request_id := n, pending_receiver := AList.update rid p (pending_receiver s)\<rparr>)"
  "map_of (pending_product_info s) rid = None \<Longrightarrow> response_sender q = c \<Longrightarrow>
     keeps_books [c] s (s\<lparr>next_product_info_request_id := n,
       pending_product_info := AList.update rid q (pending_product_info s)\<rparr>)"
  "map_of (pending_offers s) rid = None \<Longrightarrow> response_sender w = c \<Longrightarrow>
     keeps_books [c] s (s\<lparr>next_sequence_number := n, pending_offers := AList.update rid w (pending_offers s)\<rparr>)"
  by (auto simp: keeps_books_def book_defs map_fst_update_new map_of_eq_None_iff)

lemma keeps_books_written:
  assumes "keeps_books new s s1" and "write_or_break print wr context destination ns v s1 = (s', f)"
  shows "keeps_books new s s'"
  using assms write_or_break_writes [OF assms(2)] by (auto simp: keeps_books_def)

lemma keeps_books_receiver_request:
  assumes "receiver_request_arm print wr operation custom sender s = (s', f)" and "f \<noteq> Crash" and "f \<noteq> Hang"
  shows "keeps_books [sender] s s'"
proof -
  obtain rid n where a: "allocate_id (next_request_id s) (pending_receiver s) = Some (rid, n)"
    using assms by (auto simp: receiver_request_arm_def split: option.splits)
  let ?p = "\<lparr>subject = operation, response_sender = sender\<rparr>"
  obtain v where "write_or_break print wr ''send receiver request: '' RECEIVER_ID NS_RECEIVER v
      (s\<lparr>next_request_id := n, pending_receiver := AList.update rid ?p (pending_receiver s)\<rparr>) = (s', f)"
    using assms a by (auto simp: receiver_request_arm_def split: sum.splits)
  from keeps_books_written [OF keeps_books_filed(1) this] allocate_id_fresh [OF a] show ?thesis by simp
qed

lemma keeps_books_product_info:
  assumes "product_info_arm print wr operation sender s = (s', f)" and "f \<noteq> Crash" and "f \<noteq> Hang"
  shows "keeps_books [sender] s s'"
proof -
  obtain rid n where a: "allocate_id (next_product_info_request_id s) (pending_product_info s) = Some (rid, n)"
    using assms by (auto simp: product_info_arm_def split: option.splits)
  let ?p = "\<lparr>subject = operation, response_sender = sender\<rparr>"
  obtain v where "write_or_break print wr ''send product-info request: '' RECEIVER_ID (info_namespace operation) v
      (s\<lparr>next_product_info_request_id := n,
         pending_product_info := AList.update rid ?p (pending_product_info s)\<rparr>) = (s', f)"
    using assms a by (auto simp: product_info_arm_def split: sum.splits)
  from keeps_books_written [OF keeps_books_filed(2) this] allocate_id_fresh [OF a] show ?thesis by simp
qed

lemma keeps_books_offer:
  assumes "offer_arm print wr destination offer sender s = (s', f)" and "f \<noteq> Hang"
  shows "keeps_books [sender] s s'"
proof -
  obtain rid n where a: "allocate_id (next_sequence_number s) (pending_offers s) = Some (rid, n)"
    using assms by (auto simp: offer_arm_def split: option.splits)
  let ?p = "\<lparr>subject = destination, response_sender = sender\<rparr>"
  obtain v where "write_or_break print wr ''send streaming OFFER: '' destination NS_WEBRTC v
      (s\<lparr>next_sequence_number := n, pending_offers := AList.update rid ?p (pending_offers s)\<rparr>) = (s', f)"
    using assms a by (auto simp: offer_arm_def)
  from keeps_books_written [OF keeps_books_filed(3) this] allocate_id_fresh [OF a] show ?thesis by simp
qed

lemma keeps_books_fire: "fire_arm print wr ns destination v sender s = (s', f) \<Longrightarrow> keeps_books [sender] s s'"
  by (auto simp: fire_arm_def keeps_books_def Let_def dest!: write_only_writes split: prod.splits option.splits)

lemma keeps_books_close: "close_arm print wr sender s = (s', f) \<Longrightarrow> keeps_books [sender] s s'"
  by (auto simp: close_arm_def keeps_books_def dest!: teardown_arm_writes split: prod.splits)

lemma keeps_books_command:
  "control_command_arm print wr command s = (s', f) \<Longrightarrow> f \<noteq> Crash \<Longrightarrow> f \<noteq> Hang \<Longrightarrow>
     keeps_books (submitted (Command command)) s s'"
proof (induction print wr command s rule: control_command_arm.induct)
  case (6 print wr s)
  then show ?case by (auto simp: keeps_books_def dest!: teardown_arm_writes)
qed (simp_all add: keeps_books_receiver_request keeps_books_product_info keeps_books_offer keeps_books_fire
    keeps_books_close)

lemma keeps_books_heartbeat: "heartbeat_arm print wr now s = (s', f) \<Longrightarrow> keeps_books [] s s'"
  by (auto simp: heartbeat_arm_def keeps_books_def dest!: write_or_break_writes split: if_splits)

subsection \<open>The whole loop keeps the books\<close>

text \<open>Pruning drops only requests whose callers are gone.\<close>

lemma retain_open_split:
  "mset (channels t) = mset (channels (retain_open is_closed t)) + mset (filter is_closed (channels t))"
  by (induction t) (auto simp: retain_open_def)

lemma split_three:
  fixes a b c :: "'a multiset"
  assumes "a = a' + x" and "b = b' + y" and "c = c' + z"
  shows "a + (b + c) + r = a' + (b' + c') + r + (x + (y + z))"
  unfolding assms by (simp add: ac_simps)

lemma prune_books:
  assumes "tables_ok s"
  shows "tables_ok (prune is_closed s) \<and>
    balance s = balance (prune is_closed s) + mset (filter is_closed (waiting s))"
proof -
  have "tables_ok (prune is_closed s)"
    using assms by (simp add: prune_def book_defs retain_open_def distinct_map_filter)
  then show ?thesis
    using split_three [OF retain_open_split [of "pending_receiver s" is_closed]
        retain_open_split [of "pending_product_info s" is_closed] retain_open_split [of "pending_offers s" is_closed],
        of "mset (answered s)"]
    by (simp add: prune_def balance_def waiting_def answered_def)
qed

lemma control_step_books:
  assumes "tables_ok s" and "control_step parse print wr i s = (s', f)" and "f \<noteq> Crash" and "f \<noteq> Hang"
  shows "tables_ok s' \<and> (\<exists>dropped. balance s + mset (submitted (li_arm i)) = balance s' + dropped \<and>
    (\<forall>c. c \<in># dropped \<longrightarrow> li_closed i c))"
proof -
  note p = prune_books [OF assms(1), of "li_closed i"]
  have "keeps_books (submitted (li_arm i)) (prune (li_closed i) s) s'"
    using assms(2-4)
    by (cases "li_arm i") (auto simp: control_step_def dest: keeps_books_incoming keeps_books_command keeps_books_heartbeat)
  with p have "tables_ok s'" "balance s + mset (submitted (li_arm i)) =
      balance s' + mset (filter (li_closed i) (waiting s))" by (auto simp: keeps_books_def)
  then show ?thesis by (intro conjI exI [of _ "mset (filter (li_closed i) (waiting s))"]) auto
qed

lemma finish_books:
  "tables_ok s \<Longrightarrow> balance (finish r reason s) = balance s \<and> waiting (finish r reason s) = [] \<and>
     tables_ok (finish r reason s) \<and>
     ct_events (finish r reason s) = ct_events s @ [ChannelClosed reason]"
  by (auto simp: finish_def emit_def fail_all_pending_def drain_failed_def channels_def book_defs
      multiset.map_comp comp_def case_prod_unfold split: sum.splits)

lemma control_loop_books:
  assumes "tables_ok s" and "control_loop parse print wr inputs s = (s', f, rest)" and "f \<noteq> Crash" and "f \<noteq> Hang"
  shows "tables_ok s' \<and> (\<exists>used dropped. inputs = used @ rest \<and>
    balance s + mset (concat (map (\<lambda>i. submitted (li_arm i)) used)) = balance s' + dropped \<and>
    (\<forall>c. c \<in># dropped \<longrightarrow> (\<exists>i\<in>set used. li_closed i c)) \<and>
    (\<forall>r reason. f = Break r reason \<longrightarrow> waiting s' = [] \<and> (\<exists>evs. ct_events s' = evs @ [ChannelClosed reason])))"
  using assms
proof (induction inputs arbitrary: s)
  case Nil
  then show ?case by (intro conjI exI [of _ "[]"] exI [of _ "{#}"]) auto
next
  case (Cons i inputs)
  obtain s1 f1 where step: "control_step parse print wr i s = (s1, f1)" by fastforce
  then have f1: "f1 \<noteq> Crash" "f1 \<noteq> Hang" using Cons.prems by auto
  obtain dropped where b: "tables_ok s1" "balance s + mset (submitted (li_arm i)) = balance s1 + dropped"
    "\<forall>c. c \<in># dropped \<longrightarrow> li_closed i c" using control_step_books [OF Cons.prems(1) step f1] by blast
  show ?case
  proof (cases f1)
    case Continue
    then have "control_loop parse print wr inputs s1 = (s', f, rest)" using Cons.prems(2) step by simp
    from Cons.IH [OF b(1) this Cons.prems(3, 4)] obtain used dropped' where
      ok: "tables_ok s'" and ih: "inputs = used @ rest" "balance s1 + mset (concat (map (\<lambda>i. submitted (li_arm i)) used)) = balance s' + dropped'"
        "\<forall>c. c \<in># dropped' \<longrightarrow> (\<exists>i\<in>set used. li_closed i c)"
        "\<forall>r reason. f = Break r reason \<longrightarrow> waiting s' = [] \<and> (\<exists>evs. ct_events s' = evs @ [ChannelClosed reason])"
      by blast
    have "balance s + mset (concat (map (\<lambda>i. submitted (li_arm i)) (i # used))) = balance s' + (dropped + dropped')"
      using b(2) ih(2) by (simp flip: add.assoc)
    then show ?thesis
      using ok ih b(3) by (intro conjI exI [of _ "i # used"] exI [of _ "dropped + dropped'"]) auto
  next
    case (Break r reason)
    then have e: "s' = finish r reason s1" "f = Break r reason" "rest = inputs" using Cons.prems(2) step by auto
    then show ?thesis
      using finish_books [OF b(1)] b by (intro conjI exI [of _ "[i]"] exI [of _ dropped]) auto
  qed (use f1 in auto)
qed

lemma control_init_books: "tables_ok (control_init t)" "balance (control_init t) = {#}"
  by (simp_all add: control_init_def book_defs)

text \<open>
  C2. Every caller is answered exactly once. When the control task has ended, whatever the
  receiver sent, whichever writes failed and whatever the order of events, no request is left
  waiting, the last event announces why the channel closed, no response channel got two answers
  and none that was not submitted got one, and each caller that submitted a request and never
  gave up waiting has its answer.
\<close>

theorem every_caller_answered_once:
  assumes "control_loop parse print wr inputs (control_init t) = (s, Break r reason, rest)"
    and "distinct (concat (map (\<lambda>i. submitted (li_arm i)) inputs))"
  shows "\<exists>used. inputs = used @ rest \<and> waiting s = [] \<and> last (ct_events s) = ChannelClosed reason \<and>
    distinct (answered s) \<and> set (answered s) \<subseteq> set (concat (map (\<lambda>i. submitted (li_arm i)) used)) \<and>
    (\<forall>c \<in> set (concat (map (\<lambda>i. submitted (li_arm i)) used)).
       (\<forall>i\<in>set used. \<not> li_closed i c) \<longrightarrow> c \<in> set (answered s))"
proof -
  obtain used dropped where u: "inputs = used @ rest"
    "mset (concat (map (\<lambda>i. submitted (li_arm i)) used)) = balance s + dropped"
    "\<forall>c. c \<in># dropped \<longrightarrow> (\<exists>i\<in>set used. li_closed i c)" "waiting s = []"
    "\<exists>evs. ct_events s = evs @ [ChannelClosed reason]"
    using control_loop_books [OF control_init_books(1) assms(1)] by (auto simp: control_init_books)
  let ?sub = "concat (map (\<lambda>i. submitted (li_arm i)) used)"
  obtain ds where "mset ds = dropped" using ex_mset by blast
  then have m: "mset ?sub = mset (answered s @ ds)" using u(2, 4) by (simp add: balance_def)
  have "distinct ?sub" using assms(2) u(1) by simp
  then have "distinct (answered s @ ds)" using mset_eq_imp_distinct_iff [OF m] by simp
  moreover have "set ?sub = set (answered s) \<union> set_mset dropped"
    using mset_eq_setD [OF m] \<open>mset ds = dropped\<close> by auto
  ultimately show ?thesis using u by (intro exI [of _ used]) auto
qed

definition example_input :: "arm \<Rightarrow> loop_input" where
  "example_input a = \<lparr>li_closed = (\<lambda>_. False), li_now = 0, li_arm = a\<rparr>"

lemma allocate_first: "allocate_id 1 [] = Some (1, 2)"
  by (subst allocate_id.simps) (simp add: Let_def max_def word_le_nat_alt)

theorem every_caller_answered_once_witness:
  "\<exists>s. control_loop (\<lambda>_. Inl ''no JSON'') (\<lambda>_. ''{}'') (\<lambda>_. None)
     [example_input (Command (Some (ReceiverRequest Status None 7))), example_input (Command None)] (control_init 0)
     = (s, Break (Inr ()) Requested, []) \<and> answered s = [7]"
proof -
  let ?inputs = "[example_input (Command (Some (ReceiverRequest Status None 7))), example_input (Command None)]"
  obtain s where s: "control_loop (\<lambda>_. Inl ''no JSON'') (\<lambda>_. ''{}'') (\<lambda>_. None) ?inputs (control_init 0)
      = (s, Break (Inr ()) Requested, [])"
    by (simp add: example_input_def control_step_def control_init_def prune_def retain_open_def receiver_request_arm_def
        allocate_first write_or_break_def write_json_message_timed_def teardown_arm_def Let_def)
  have "distinct (concat (map (\<lambda>i. submitted (li_arm i)) ?inputs))" by (simp add: example_input_def)
  from every_caller_answered_once [OF s this] have "distinct (answered s)" "set (answered s) = {7}"
    by (auto simp: example_input_def)
  then have "answered s = [7]" by (cases "answered s" rule: remdups_adj.cases) auto
  with s show ?thesis by blast
qed

subsection \<open>Answers go to the requests they answer\<close>

lemma settle_reply:
  assumes "distinct (map fst t)" and "settle ids r t = (t', rs)" and "(c, x) \<in> set rs"
  shows "\<exists>rid p. map_of t rid = Some p \<and> rid \<in> set ids \<and> c = response_sender p \<and> x = r (subject p)"
proof -
  obtain e where "e \<in> set t" "fst e \<in> set ids" "(c, x) = replied r e"
    using settle_effect(3) [OF assms(1, 2)] assms(3) by blast
  then show ?thesis using assms(1) by (intro exI [of _ "fst e"] exI [of _ "snd e"]) (simp add: replied_def)
qed

lemma status_reply:
  assumes "distinct (map fst t)" and "complete_receiver_status v t = (t', rs)" and "(c, x) \<in> set rs"
  shows "x = Inr v \<and> (\<exists>rid p. map_of t rid = Some p \<and> response_sender p = c \<and>
    (json_u32 v ''requestId'' = Some rid \<and> status_completes v (subject p) \<or> launch_visible v (subject p)))"
proof -
  let ?hit = "Option.bind (json_u32 v ''requestId'') (\<lambda>rid. case map_of t rid of
      None \<Rightarrow> None | Some p \<Rightarrow> if status_completes v (subject p) then Some rid else None)"
  show ?thesis
  proof (cases ?hit)
    case None
    then have "settle (map fst (filter (\<lambda>(_, p). launch_visible v (subject p)) t)) (\<lambda>_. Inr v) t = (t', rs)"
      using assms(2) by (simp add: complete_receiver_status_def)
    from settle_reply [OF assms(1) this assms(3)] obtain rid p q where "map_of t rid = Some p" "x = Inr v"
      "c = response_sender p" "(rid, q) \<in> set t" "launch_visible v (subject q)" by auto
    moreover from this assms(1) have "q = p" by simp
    ultimately show ?thesis by blast
  next
    case (Some rid)
    then have "settle [rid] (\<lambda>_. Inr v) t = (t', rs)"
      using assms(2) by (simp add: complete_receiver_status_def)
    moreover from Some obtain p where "json_u32 v ''requestId'' = Some rid" "map_of t rid = Some p"
      "status_completes v (subject p)" by (cases "json_u32 v ''requestId''") (auto split: option.splits if_splits)
    ultimately show ?thesis using settle_reply [OF assms(1) _ assms(3)] by fastforce
  qed
qed

lemma request_reply:
  assumes "distinct (map fst t)" and "complete_receiver_request v expected t = (t', rs)" and "(c, x) \<in> set rs"
  shows "x = Inr v \<and> (\<exists>rid p. map_of t rid = Some p \<and> response_sender p = c \<and>
    json_u32 v ''requestId'' = Some rid \<and> expected (subject p))"
  using assms(2, 3) by (auto simp: complete_receiver_request_def split: option.splits if_splits
      dest!: settle_reply [OF assms(1)])

lemma failure_reply:
  assumes "distinct (map fst t)" and "fail_receiver_request v detail t = (t', rs)" and "(c, x) \<in> set rs"
  shows "\<exists>e. x = Inl e"
  using assms(2, 3) by (auto simp: fail_receiver_request_def split: option.splits dest!: settle_reply [OF assms(1)])

lemma offer_reply:
  assumes "distinct (map fst t)" and "complete_offer v source t = (t', rs)" and "(c, x) \<in> set rs"
  shows "x = Inr v \<and> (\<exists>rid p. map_of t rid = Some p \<and> response_sender p = c \<and>
    json_u32 v ''seqNum'' = Some rid \<and> subject p = source)"
  using assms(2, 3) by (auto simp: complete_offer_def split: option.splits if_splits
      dest!: settle_reply [OF assms(1)])

lemma offer_failure_reply:
  assumes "distinct (map fst t)" and "fail_offer v source detail t = (t', rs)" and "(c, x) \<in> set rs"
  shows "\<exists>e. x = Inl e"
  using assms(2, 3) by (auto simp: fail_offer_def split: option.splits if_splits dest!: settle_reply [OF assms(1)])

lemma transport_reply:
  assumes "distinct (map fst t)" and "fail_offers_for_destination source detail t = (t', rs)" and "(c, x) \<in> set rs"
  shows "\<exists>e. x = Inl e"
  using assms(2, 3) by (auto simp: fail_offers_for_destination_def dest!: settle_reply [OF assms(1)])

lemma info_reply:
  assumes "distinct (map fst t)" and "dispatch_product_info_message parse m t = Inr (t', rs)"
    and "(c, Inr w) \<in> set rs"
  shows "\<exists>str rid p. payload m = PString str \<and> parse str = Inr w \<and> map_of t rid = Some p \<and> response_sender p = c \<and>
    namespace m = info_namespace (subject p) \<and> source_id m = RECEIVER_ID \<and> destination_id m = SENDER_ID \<and>
    json_u32 w (request_id_field (subject p)) = Some rid"
proof -
  from assms(2, 3) obtain str v operation rid p r where
    *: "payload m = PString str" "parse str = Inr v" "from_namespace (namespace m) = Some operation"
      "source_id m = RECEIVER_ID" "destination_id m = SENDER_ID" "json_u32 v (request_id_field operation) = Some rid"
      "map_of t rid = Some p" "subject p = operation" "settle [rid] (\<lambda>_. r) t = (t', rs)" "r = Inr v \<or> (\<exists>e. r = Inl e)"
    unfolding dispatch_product_info_message_def Let_def
    by (simp split: option.splits if_splits payload.splits sum.splits)
  from settle_reply [OF assms(1) *(9) assms(3)] *(7, 10) have "v = w" "c = response_sender p" by auto
  with * show ?thesis by (auto simp: from_namespace_Some)
qed

definition answers_request :: "cast_message \<Rightarrow> json \<Rightarrow> nat \<Rightarrow> control_state \<Rightarrow> bool" where
  "answers_request m v c s \<longleftrightarrow>
     (namespace m = NS_RECEIVER \<and> source_id m = RECEIVER_ID \<and>
      (\<exists>rid p. map_of (pending_receiver s) rid = Some p \<and> response_sender p = c \<and>
         (json_u32 v ''requestId'' = Some rid \<and> (status_completes v (subject p) \<or> is_availability (subject p)) \<or>
          launch_visible v (subject p)))) \<or>
     (namespace m = NS_WEBRTC \<and>
      (\<exists>rid p. map_of (pending_offers s) rid = Some p \<and> response_sender p = c \<and>
         json_u32 v ''seqNum'' = Some rid \<and> subject p = source_id m)) \<or>
     (source_id m = RECEIVER_ID \<and> destination_id m = SENDER_ID \<and>
      (\<exists>rid p. map_of (pending_product_info s) rid = Some p \<and> response_sender p = c \<and>
         namespace m = info_namespace (subject p) \<and> json_u32 v (request_id_field (subject p)) = Some rid))"

definition adds_answers :: "control_state \<Rightarrow> control_state \<Rightarrow> (nat \<Rightarrow> json \<Rightarrow> bool) \<Rightarrow> bool" where
  "adds_answers s s' P \<longleftrightarrow> (\<exists>new. ct_replies s' = ct_replies s @ new \<and>
     (\<forall>c w. (c, Answered (Inr w)) \<in> set new \<longrightarrow> P c w))"

lemma adds_answers_none: "ct_replies s' = ct_replies s \<Longrightarrow> adds_answers s s' P"
  by (simp add: adds_answers_def)

lemma adds_answers_all:
  "(\<And>c w. (c, Inr w) \<in> set rs \<Longrightarrow> P c w) \<Longrightarrow> ct_replies s1 = ct_replies s \<Longrightarrow> adds_answers s (answer_all rs s1) P"
  by (auto simp: adds_answers_def answer_all_def)

lemma adds_answers_receiver:
  assumes "ct_replies s1 = ct_replies s" and "pending_receiver s1 = pending_receiver s"
    and "\<And>t' rs c w. f (pending_receiver s) = (t', rs) \<Longrightarrow> (c, Inr w) \<in> set rs \<Longrightarrow> P c w"
  shows "adds_answers s (settle_receiver f s1) P"
  using assms by (auto simp: settle_receiver_def intro!: adds_answers_all split: prod.splits)

lemma adds_answers_offers:
  assumes "ct_replies s1 = ct_replies s" and "pending_offers s1 = pending_offers s"
    and "\<And>t' rs c w. f (pending_offers s) = (t', rs) \<Longrightarrow> (c, Inr w) \<in> set rs \<Longrightarrow> P c w"
  shows "adds_answers s (settle_offers f s1) P"
  using assms by (auto simp: settle_offers_def intro!: adds_answers_all split: prod.splits)

lemma publish_simps [simp]:
  "ct_replies (publish_receiver_status status s) = ct_replies s"
  "pending_receiver (publish_receiver_status status s) = pending_receiver s"
  "pending_offers (publish_receiver_status status s) = pending_offers s"
  "ct_replies (emit evs s) = ct_replies s" "pending_offers (emit evs s) = pending_offers s"
  by (simp_all add: publish_receiver_status_def emit_def Let_def)

lemma dispatch_receiver_answers:
  assumes "tables_ok s" and "namespace m = NS_RECEIVER" and "dispatch_receiver m v message_type s = Inr s'"
  shows "adds_answers s s' (\<lambda>c w. w = v \<and> answers_request m v c s)"
proof -
  have d: "distinct (map fst (pending_receiver s))" using assms(1) by (simp add: tables_ok_def)
  from assms(3) consider (same) "s' = s"
    | (status) status where "source_id m = RECEIVER_ID"
        "s' = settle_receiver (complete_receiver_status v) (publish_receiver_status status s)"
    | (answer) "source_id m = RECEIVER_ID" "s' = settle_receiver (complete_receiver_request v is_availability) s"
    | (failure) detail where "s' = settle_receiver (fail_receiver_request v detail) s"
    unfolding dispatch_receiver_def by (simp split: if_split_asm sum.split_asm) metis+
  then show ?thesis
  proof cases
    case same
    then show ?thesis by (simp add: adds_answers_none)
  next
    case status
    show ?thesis unfolding status(2)
    proof (rule adds_answers_receiver)
      fix t' rs c w
      assume "complete_receiver_status v (pending_receiver s) = (t', rs)" "(c, Inr w) \<in> set rs"
      from status_reply [OF d this] show "w = v \<and> answers_request m v c s"
        unfolding answers_request_def using assms(2) status(1) by blast
    qed simp_all
  next
    case answer
    show ?thesis unfolding answer(2)
    proof (rule adds_answers_receiver)
      fix t' rs c w
      assume "complete_receiver_request v is_availability (pending_receiver s) = (t', rs)" "(c, Inr w) \<in> set rs"
      from request_reply [OF d this] show "w = v \<and> answers_request m v c s"
        unfolding answers_request_def using assms(2) answer(1) by blast
    qed simp_all
  next
    case failure
    show ?thesis unfolding failure by (rule adds_answers_receiver) (auto dest: failure_reply [OF d])
  qed
qed

lemma dispatch_webrtc_answers:
  assumes "tables_ok s" and "namespace m = NS_WEBRTC"
  shows "adds_answers s (dispatch_webrtc m v message_type s) (\<lambda>c w. w = v \<and> answers_request m v c s)"
proof -
  have d: "distinct (map fst (pending_offers s))" using assms(1) by (simp add: tables_ok_def)
  have "adds_answers s (settle_offers (complete_offer v (source_id m)) s) (\<lambda>c w. w = v \<and> answers_request m v c s)"
  proof (rule adds_answers_offers)
    fix t' rs c w
    assume "complete_offer v (source_id m) (pending_offers s) = (t', rs)" "(c, Inr w) \<in> set rs"
    from offer_reply [OF d this] show "w = v \<and> answers_request m v c s"
      unfolding answers_request_def using assms(2) by blast
  qed simp_all
  moreover have "adds_answers s (settle_offers (fail_offer v (source_id m) detail) s) P" for detail P
    by (rule adds_answers_offers) (auto dest: offer_failure_reply [OF d])
  ultimately show ?thesis by (simp add: dispatch_webrtc_def adds_answers_none)
qed

lemma dispatch_json_answers:
  assumes "tables_ok s" and "dispatch_json_message parse m s = Inr s'"
  shows "adds_answers s s' (\<lambda>c w. \<exists>str. payload m = PString str \<and> parse str = Inr w \<and> answers_request m w c s)"
proof -
  from assms(2) consider (same) "s' = s"
    | (receiver) str v message_type where "payload m = PString str" "parse str = Inr v" "namespace m = NS_RECEIVER"
        "dispatch_receiver m v message_type s = Inr s'"
    | (webrtc) str v message_type where "payload m = PString str" "parse str = Inr v" "namespace m = NS_WEBRTC"
        "s' = dispatch_webrtc m v message_type s"
    unfolding dispatch_json_message_def Let_def
    by (simp split: if_split_asm payload.split_asm sum.split_asm) metis+
  then show ?thesis
  proof cases
    case same
    then show ?thesis by (simp add: adds_answers_none)
  next
    case receiver
    from dispatch_receiver_answers [OF assms(1) receiver(3, 4)] receiver(1, 2) show ?thesis
      by (auto simp: adds_answers_def)
  next
    case webrtc
    from dispatch_webrtc_answers [OF assms(1) webrtc(3), of v message_type] webrtc show ?thesis
      by (auto simp: adds_answers_def)
  qed
qed

lemma connection_closed_answers:
  assumes "tables_ok s" and "connection_closed m s = (s', f)"
  shows "adds_answers s s' P"
proof -
  have d: "distinct (map fst (pending_offers s))" using assms(1) by (simp add: tables_ok_def)
  have "adds_answers s (settle_offers (fail_offers_for_destination source detail) s1) P"
    if "ct_replies s1 = ct_replies s" "pending_offers s1 = pending_offers s" for source detail s1
    using that by (intro adds_answers_offers) (auto dest: transport_reply [OF d])
  then show ?thesis
    using assms(2) by (auto simp: connection_closed_def Let_def adds_answers_none split: if_splits option.splits)
qed

lemma incoming_answers:
  assumes "tables_ok s" and "incoming_arm parse print wr now incoming s = (s', f)"
  shows "adds_answers s s' (\<lambda>c w. \<exists>m str. incoming = Inr m \<and> payload m = PString str \<and> parse str = Inr w \<and>
    answers_request m w c s)"
proof (cases incoming)
  case (Inl e)
  with assms(2) show ?thesis by (cases e) (auto simp: incoming_arm_def adds_answers_none)
next
  case (Inr m)
  have d: "distinct (map fst (pending_product_info s))" using assms(1) by (simp add: tables_ok_def)
  from assms(2) Inr have "incoming_arm parse print wr now (Inr m) s = (s', f)" by simp
  then show ?thesis
  proof (cases rule: incoming_cases)
    case heartbeat
    then show ?thesis
      by (auto simp: heartbeat_message_def Let_def intro!: adds_answers_none dest!: write_or_break_writes split: if_splits)
  next
    case closed
    then show ?thesis by (intro connection_closed_answers [OF assms(1)])
  next
    case failed
    then show ?thesis by (simp add: adds_answers_none)
  next
    case (info t rs)
    show ?thesis unfolding info(2)
    proof (rule adds_answers_all)
      fix c w assume "(c, Inr w) \<in> set rs"
      from info_reply [OF d info(1) this] Inr show "\<exists>m str. incoming = Inr m \<and> payload m = PString str \<and> parse str = Inr w \<and>
          answers_request m w c s" unfolding answers_request_def by blast
    qed simp
  next
    case json
    from dispatch_json_answers [OF assms(1) json(1)] Inr show ?thesis by (auto simp: adds_answers_def)
  qed
qed

lemma command_answers: "control_command_arm print wr command s = (s', f) \<Longrightarrow> adds_answers s s' P"
proof (induction print wr command s rule: control_command_arm.induct)
  case (1 print wr operation custom sender s)
  then show ?case
    by (auto simp: receiver_request_arm_def intro!: adds_answers_none dest!: write_or_break_writes
        split: option.splits sum.splits)
next
  case (2 print wr operation sender s)
  then show ?case
    by (auto simp: product_info_arm_def intro!: adds_answers_none dest!: write_or_break_writes
        split: option.splits sum.splits)
next
  case (3 print wr destination offer sender s)
  then show ?case
    by (auto simp: offer_arm_def intro!: adds_answers_none dest!: write_or_break_writes split: option.splits)
next
  case (4 print wr ns destination v sender s)
  then show ?case
    by (auto simp: fire_arm_def Let_def adds_answers_def dest!: write_only_writes split: prod.splits option.splits)
next
  case (5 print wr sender s)
  then show ?case by (auto simp: close_arm_def adds_answers_def dest!: teardown_arm_writes split: prod.splits)
next
  case (6 print wr s)
  then show ?case by (auto intro!: adds_answers_none dest!: teardown_arm_writes)
qed

lemma control_loop_tables_ok:
  "control_loop parse print wr inputs (control_init t) = (s, Continue, rest) \<Longrightarrow> tables_ok s"
  using control_loop_books [OF control_init_books(1)] by blast

text \<open>
  C7. Answers are correlated. In every reachable state of the control task, the only thing that
  hands a caller a successful JSON answer is an incoming message with that JSON, on the
  namespace of the request and from its destination: for a platform request from the receiver,
  with the identifier of the request and of a kind that answers it (or a status in which the
  application of a waiting launch is visible); for an offer from the application it was sent
  to, with its sequence number; for a product-information request from the receiver to this
  sender, with its identifier.
\<close>

theorem answers_are_correlated:
  assumes "control_loop parse print wr inputs (control_init t) = (s, Continue, rest)"
    and "control_step parse print wr i s = (s', f)"
  shows "\<exists>new. ct_replies s' = ct_replies s @ new \<and>
    (\<forall>c w. (c, Answered (Inr w)) \<in> set new \<longrightarrow>
       (\<exists>m str. li_arm i = Incoming (Inr m) \<and> payload m = PString str \<and> parse str = Inr w \<and>
          answers_request m w c (prune (li_closed i) s)))"
proof -
  let ?s = "prune (li_closed i) s"
  have ok: "tables_ok ?s" using prune_books control_loop_tables_ok [OF assms(1)] by blast
  have "adds_answers ?s s' (\<lambda>c w. \<exists>m str. li_arm i = Incoming (Inr m) \<and> payload m = PString str \<and> parse str = Inr w \<and>
      answers_request m w c ?s)"
  proof (cases "li_arm i")
    case (Incoming incoming)
    with assms(2) incoming_answers [OF ok, of parse print wr "li_now i" incoming s' f] show ?thesis
      by (simp add: control_step_def)
  next
    case (Command command)
    with assms(2) show ?thesis by (auto simp: control_step_def intro: command_answers)
  next
    case HeartbeatTick
    with assms(2) show ?thesis
      by (auto simp: control_step_def heartbeat_arm_def Let_def intro!: adds_answers_none dest!: write_or_break_writes split: if_splits)
  qed
  then show ?thesis by (simp add: adds_answers_def prune_def)
qed

definition example_status :: json where
  "example_status = JObject [(''type'', JString ''RECEIVER_STATUS''), (''requestId'', json_id 1), (''status'', JObject [])]"

definition example_parse :: "string \<Rightarrow> string + json" where
  "example_parse str = (if str = ''status'' then Inr example_status else Inl ''no JSON'')"

definition example_status_message :: cast_message where
  "example_status_message = \<lparr>source_id = RECEIVER_ID, destination_id = SENDER_ID, namespace = NS_RECEIVER,
     payload = PString ''status''\<rparr>"

lemma from_namespace_None [simp]: "from_namespace NS_RECEIVER = None" "from_namespace NS_WEBRTC = None"
  by (simp_all add: from_namespace_def)

lemma example_status_reads:
  "json_message_type example_status = Some ''RECEIVER_STATUS''" "json_u32 example_status ''requestId'' = Some 1"
  "parse_receiver_status example_status = Inr \<lparr>rs_applications = [], rs_volume_level = None, rs_muted = None\<rparr>"
  by (simp_all add: example_status_def json_message_type_def parse_receiver_status_def Let_def)

definition example_waiting :: control_state where
  "example_waiting = fst (control_loop example_parse (\<lambda>_. ''{}'') (\<lambda>_. None)
     [example_input (Command (Some (ReceiverRequest Status None 7)))] (control_init 0))"

lemma example_waiting_run:
  "control_loop example_parse (\<lambda>_. ''{}'') (\<lambda>_. None)
     [example_input (Command (Some (ReceiverRequest Status None 7)))] (control_init 0) = (example_waiting, Continue, [])"
  "pending_receiver example_waiting = [(1, \<lparr>subject = Status, response_sender = 7\<rparr>)]"
  "ct_replies example_waiting = []"
  by (simp_all add: example_waiting_def example_input_def control_step_def control_init_def prune_def retain_open_def
      receiver_request_arm_def allocate_first write_or_break_def write_json_message_timed_def Let_def)

subsection \<open>The answer reaches its caller\<close>

lemma retain_open_lookup:
  assumes "distinct (map fst t)" and "map_of t rid = Some p" and "\<not> is_closed (response_sender p)"
  shows "map_of (retain_open is_closed t) rid = Some p"
proof -
  have "distinct (map fst (retain_open is_closed t))" using assms(1) by (simp add: retain_open_def distinct_map_filter)
  then show ?thesis using assms by (auto simp: retain_open_def)
qed

lemma settle_one:
  "map_of t rid = Some p \<Longrightarrow> settle [rid] r t = (AList.delete rid t, [(response_sender p, r (subject p))])"
  by (simp add: settle.simps)

lemma map_of_delete_same [simp]: "map_of (AList.delete k t) k = None"
  by (simp add: delete_conv)

lemma answer_all_one: "ct_replies (answer_all [(c, r)] s) = ct_replies s @ [(c, Answered r)]"
  by (simp add: answer_all_def)

definition answer_given :: "control_state \<times> flow \<Rightarrow> control_state \<Rightarrow> nat \<Rightarrow> json \<Rightarrow> bool" where
  "answer_given step s c v \<longleftrightarrow> snd step = Continue \<and> ct_replies (fst step) = ct_replies s @ [(c, Answered (Inr v))]"

lemma prune_replies [simp]: "ct_replies (prune is_closed s) = ct_replies s"
  by (simp add: prune_def)

lemma status_answer_given:
  assumes "namespace m = NS_RECEIVER" and "source_id m = RECEIVER_ID" and "payload m = PString str" and "parse str = Inr v"
    and "json_message_type v = Some ''RECEIVER_STATUS''" and "parse_receiver_status v = Inr status"
    and "json_u32 v ''requestId'' = Some rid" and "map_of (pending_receiver s) rid = Some p"
    and "status_completes v (subject p)"
  shows "answer_given (incoming_arm parse print wr now (Inr m) s) s (response_sender p) v"
proof -
  have "dispatch_receiver m v ''RECEIVER_STATUS'' s =
      Inr (settle_receiver (complete_receiver_status v) (publish_receiver_status status s))"
    using assms(2, 6) by (simp add: dispatch_receiver_def)
  moreover have "complete_receiver_status v (pending_receiver s) =
      (AList.delete rid (pending_receiver s), [(response_sender p, Inr v)])"
    using assms(7-9) by (simp add: complete_receiver_status_def settle_one)
  ultimately show ?thesis
    using assms(1, 3-5)
    by (simp add: answer_given_def incoming_arm_def dispatch_json_message_def settle_receiver_def answer_all_one)
qed

lemma offer_answer_given:
  assumes "namespace m = NS_WEBRTC" and "payload m = PString str" and "parse str = Inr v"
    and "json_message_type v = Some ''ANSWER''" and "json_u32 v ''seqNum'' = Some rid"
    and "map_of (pending_offers s) rid = Some p" and "subject p = source_id m"
  shows "answer_given (incoming_arm parse print wr now (Inr m) s) s (response_sender p) v"
proof -
  have "complete_offer v (source_id m) (pending_offers s) =
      (AList.delete rid (pending_offers s), [(response_sender p, Inr v)])"
    using assms(5-7) by (simp add: complete_offer_def settle_one)
  with assms(1-4) show ?thesis
    by (simp add: answer_given_def incoming_arm_def dispatch_json_message_def dispatch_webrtc_def settle_offers_def
        answer_all_one)
qed

lemma info_answer_given:
  assumes "namespace m = info_namespace (subject p)" and "source_id m = RECEIVER_ID" and "destination_id m = SENDER_ID"
    and "payload m = PString str" and "parse str = Inr v" and "json_message_type v = Some ty"
    and "accepts_response_type (subject p) ty" and "json_u32 v (request_id_field (subject p)) = Some rid"
    and "map_of (pending_product_info s) rid = Some p"
  shows "answer_given (incoming_arm parse print wr now (Inr m) s) s (response_sender p) v"
proof -
  have ns: "from_namespace (namespace m) = Some (subject p)" using assms(1) by (simp add: from_namespace_Some)
  have "dispatch_product_info_message parse m (pending_product_info s) =
      Inr (AList.delete rid (pending_product_info s), [(response_sender p, Inr v)])"
    using assms ns by (simp add: dispatch_product_info_message_def settle_one)
  moreover have "namespace m \<noteq> NS_HEARTBEAT" "namespace m \<noteq> NS_CONNECTION" using assms(1) by (cases "subject p"; simp)+
  ultimately show ?thesis using ns by (simp add: answer_given_def incoming_arm_def answer_all_one)
qed



theorem answers_are_correlated_witness:
  "answers_request example_status_message example_status 7 (prune (\<lambda>_. False) example_waiting)"
proof -
  let ?i = "example_input (Incoming (Inr example_status_message))"
  obtain s' f where step: "control_step example_parse (\<lambda>_. ''{}'') (\<lambda>_. None) ?i example_waiting = (s', f)" by fastforce
  have "answer_given (control_step example_parse (\<lambda>_. ''{}'') (\<lambda>_. None) ?i example_waiting) (prune (\<lambda>_. False) example_waiting)
      7 example_status"
    using status_answer_given [of example_status_message "''status''" example_parse example_status _ 1 "prune (\<lambda>_. False) example_waiting"
        "\<lparr>subject = Status, response_sender = 7\<rparr>"]
    by (simp add: control_step_def example_input_def example_status_message_def example_parse_def example_status_reads
        prune_def retain_open_def example_waiting_run)
  then have "(7, Answered (Inr example_status)) \<in> set (drop 0 (ct_replies s'))"
    using step by (simp add: answer_given_def)
  with answers_are_correlated [OF example_waiting_run(1) step] show ?thesis
    by (auto simp: example_waiting_run example_input_def)
qed

end
