(* ===== verification/Control_Runs.thy ===== *)
theory Control_Runs
  imports Control_Correct
begin

text \<open>
  What runs of the control task look like from outside: when the heartbeat gives the receiver
  up, which applications the events report as gone, what the requests on the wire carry, and
  that no command of this crate makes the task panic.
\<close>

subsection \<open>Heartbeat\<close>

definition heard :: "(string \<Rightarrow> string + json) \<Rightarrow> arm \<Rightarrow> bool" where
  "heard parse a \<longleftrightarrow>
     (case a of
        Incoming (Inr m) \<Rightarrow> namespace m = NS_HEARTBEAT \<and> (message_is_type parse m ''PING'' \<or> message_is_type parse m ''PONG'')
      | _ \<Rightarrow> False)"

definition last_heard :: "(string \<Rightarrow> string + json) \<Rightarrow> instant \<Rightarrow> loop_input list \<Rightarrow> instant" where
  "last_heard parse t inputs = last (t # map li_now (filter (\<lambda>i. heard parse (li_arm i)) inputs))"

lemma last_heartbeat_simps [simp]:
  "last_heartbeat (prune is_closed s) = last_heartbeat s" "last_heartbeat (emit evs s) = last_heartbeat s"
  "last_heartbeat (settle_receiver f s) = last_heartbeat s" "last_heartbeat (settle_offers g s) = last_heartbeat s"
  "last_heartbeat (publish_receiver_status status s) = last_heartbeat s"
  by (simp_all add: prune_def emit_def settle_receiver_def settle_offers_def publish_receiver_status_def Let_def
      split: prod.splits)

lemma dispatch_keeps_heartbeat: "dispatch_json_message parse m s = Inr s' \<Longrightarrow> last_heartbeat s' = last_heartbeat s"
  unfolding dispatch_json_message_def dispatch_receiver_def dispatch_webrtc_def Let_def
  by (auto split: if_splits payload.splits sum.splits)

lemma incoming_heartbeat:
  assumes "incoming_arm parse print wr now incoming s = (s', f)"
  shows "last_heartbeat s' = (if heard parse (Incoming incoming) then now else last_heartbeat s)"
proof (cases incoming)
  case (Inl e)
  with assms show ?thesis by (cases e) (auto simp: incoming_arm_def heard_def)
next
  case (Inr m)
  show ?thesis
  proof (cases "namespace m = NS_HEARTBEAT")
    case True
    with assms Inr show ?thesis
      by (auto simp: incoming_arm_def heartbeat_message_def Let_def heard_def dest!: write_or_break_writes split: if_splits)
  next
    case False
    from assms Inr have "incoming_arm parse print wr now (Inr m) s = (s', f)" by simp
    then have "last_heartbeat s' = last_heartbeat s"
    proof (cases rule: incoming_cases)
      case closed
      then show ?thesis by (auto simp: connection_closed_def Let_def split: if_splits option.splits)
    qed (use False in \<open>auto dest: dispatch_keeps_heartbeat\<close>)
    with False Inr show ?thesis by (simp add: heard_def)
  qed
qed

lemma command_keeps_heartbeat: "control_command_arm print wr command s = (s', f) \<Longrightarrow> last_heartbeat s' = last_heartbeat s"
proof (induction print wr command s rule: control_command_arm.induct)
  case (1 print wr operation custom sender s)
  then show ?case
    by (auto simp: receiver_request_arm_def dest!: write_or_break_writes split: option.splits sum.splits)
next
  case (2 print wr operation sender s)
  then show ?case
    by (auto simp: product_info_arm_def dest!: write_or_break_writes split: option.splits sum.splits)
qed (auto simp: offer_arm_def fire_arm_def close_arm_def Let_def split: option.splits prod.splits
    dest!: write_or_break_writes write_only_writes teardown_arm_writes)

lemma control_step_heartbeat:
  assumes "control_step parse print wr i s = (s', f)"
  shows "last_heartbeat s' = (if heard parse (li_arm i) then li_now i else last_heartbeat s)"
proof (cases "li_arm i")
  case (Incoming incoming)
  with assms incoming_heartbeat [of parse print wr "li_now i" incoming] show ?thesis
    by (auto simp: control_step_def)
next
  case (Command command)
  with assms show ?thesis by (auto simp: control_step_def heard_def dest!: command_keeps_heartbeat)
next
  case HeartbeatTick
  with assms show ?thesis
    by (auto simp: control_step_def heartbeat_arm_def heard_def Let_def dest!: write_or_break_writes split: if_splits)
qed

lemma control_loop_heartbeat:
  "control_loop parse print wr inputs s = (s', Continue, rest) \<Longrightarrow> last_heartbeat s' = last_heard parse (last_heartbeat s) inputs"
proof (induction inputs arbitrary: s)
  case Nil
  then show ?case by (simp add: last_heard_def)
next
  case (Cons i inputs)
  obtain s1 f1 where step: "control_step parse print wr i s = (s1, f1)" by fastforce
  with Cons.prems have "f1 = Continue" by (cases f1) auto
  with step Cons.prems have "control_loop parse print wr inputs s1 = (s', Continue, rest)" by simp
  from Cons.IH [OF this] control_step_heartbeat [OF step] show ?case by (auto simp: last_heard_def)
qed

lemma not_timeout [simp]: "write_failed context e \<noteq> Break r HeartbeatTimeout" "dispatch_failed x \<noteq> Break r HeartbeatTimeout"
  by (simp_all add: write_failed_def dispatch_failed_def Let_def)

lemma write_or_break_flow [simp]:
  "snd (write_or_break print wr context destination ns v s) \<noteq> Break r HeartbeatTimeout"
  by (simp add: write_or_break_def write_json_message_timed_def Let_def split: option.splits)

text \<open>
  The heartbeat gives the receiver up exactly when it is silent for fifteen seconds. After
  any run of the loop, a heartbeat tick ends the task with the reason \<open>HeartbeatTimeout\<close> if
  and only if at least fifteen seconds have passed since the last \<open>PING\<close> or \<open>PONG\<close> of the
  heartbeat namespace arrived, or since the task started when none has; a tick that does not
  end the task asks the receiver for another sign of life.
\<close>

theorem heartbeat_timeout_exact:
  assumes "control_loop parse print wr inputs (control_init t) = (s, Continue, rest)" and "li_arm i = HeartbeatTick"
  shows "((\<exists>r. snd (control_step parse print wr i s) = Break r HeartbeatTimeout) \<longleftrightarrow>
      15 * 10 ^ 9 \<le> li_now i - last_heard parse t inputs) \<and>
    (li_now i - last_heard parse t inputs < 15 * 10 ^ 9 \<longrightarrow>
      fst (last (ct_written (fst (control_step parse print wr i s)))) =
        \<lparr>source_id = ''sender-0'', destination_id = ''receiver-0'', namespace = NS_HEARTBEAT,
         payload = PString (print (typed ''PING''))\<rparr>)"
proof -
  have h: "last_heartbeat s = last_heard parse t inputs"
    using control_loop_heartbeat [OF assms(1)] by (simp add: control_init_def)
  have step: "control_step parse print wr i s = heartbeat_arm print wr (li_now i) (prune (li_closed i) s)"
    using assms(2) by (simp add: control_step_def)
  show ?thesis
    unfolding step
    by (auto simp: heartbeat_arm_def h HEARTBEAT_TIMEOUT_def from_secs_def write_or_break_def write_json_message_timed_def
        Let_def SENDER_ID_def RECEIVER_ID_def split: option.splits)
qed

theorem heartbeat_timeout_exact_witness:
  "\<exists>r. snd (control_step example_parse (\<lambda>_. ''{}'') (\<lambda>_. None)
      \<lparr>li_closed = (\<lambda>_. False), li_now = 20000000000, li_arm = HeartbeatTick\<rparr> example_waiting) = Break r HeartbeatTimeout"
  using heartbeat_timeout_exact [OF example_waiting_run(1),
      where i = "\<lparr>li_closed = (\<lambda>_. False), li_now = 20000000000, li_arm = HeartbeatTick\<rparr>"]
  by (simp add: last_heard_def heard_def example_input_def)

subsection \<open>Applications\<close>

text \<open>The part of the state the applications live in, and the events about them.\<close>

definition stopped :: "control_event list \<Rightarrow> cast_app list" where
  "stopped evs = List.map_filter (\<lambda>e. case e of ApplicationStopped app \<Rightarrow> Some app | _ \<Rightarrow> None) evs"

definition reports_stops :: "control_state \<Rightarrow> control_state \<Rightarrow> bool" where
  "reports_stops s s' \<longleftrightarrow> (distinct (map fst (known_apps s)) \<longrightarrow> distinct (map fst (known_apps s')) \<and>
     (\<exists>evs. ct_events s' = ct_events s @ evs \<and>
        stopped evs = map snd (filter (\<lambda>(transport, _). map_of (known_apps s') transport = None) (known_apps s)) \<and>
        (\<forall>status. StatusChanged status \<in> set evs \<longrightarrow> known_apps s' = apps_by_transport (rs_applications status))))"

lemma stopped_simps [simp]:
  "stopped [] = []" "stopped (StatusChanged st # evs) = stopped evs"
  "stopped (ApplicationStopped app # evs) = app # stopped evs" "stopped (ChannelClosed r # evs) = stopped evs"
  "stopped (evs @ evs') = stopped evs @ stopped evs'"
  by (simp_all add: stopped_def List.map_filter_def)

lemma stopped_map [simp]: "stopped (map (\<lambda>(_, app). ApplicationStopped app) apps) = map snd apps"
  by (induction apps) auto

lemma reports_stops_same:
  assumes "known_apps s' = known_apps s" and "ct_events s' = ct_events s"
  shows "reports_stops s s'"
proof -
  have "filter (\<lambda>(transport, _). map_of (known_apps s) transport = None) (known_apps s) = []"
    by (auto simp: filter_empty_conv map_of_eq_None_iff rev_image_eqI)
  then show ?thesis using assms by (simp add: reports_stops_def)
qed

lemma apps_by_transport_distinct: "distinct (map fst (apps_by_transport apps))"
proof -
  have "distinct (map fst m) \<Longrightarrow> distinct (map fst (fold (\<lambda>app m. AList.update (ca_transport_id app) app m) apps m))" for m
    by (induction apps arbitrary: m) (simp_all add: distinct_update)
  then show ?thesis by (simp add: apps_by_transport_def)
qed

lemma dom_apps_by_transport: "dom (map_of (apps_by_transport apps)) = ca_transport_id ` set apps"
proof -
  have "dom (map_of (fold (\<lambda>app m. AList.update (ca_transport_id app) app m) apps m)) =
      dom (map_of m) \<union> ca_transport_id ` set apps" for m
    by (induction apps arbitrary: m) (auto simp: update_conv')
  then show ?thesis by (simp add: apps_by_transport_def)
qed

lemma publish_reports_stops: "reports_stops s (publish_receiver_status status s)"
  by (auto simp: reports_stops_def publish_receiver_status_def emit_def Let_def apps_by_transport_distinct)

lemma settle_app_simps [simp]:
  "known_apps (settle_receiver f s) = known_apps s" "ct_events (settle_receiver f s) = ct_events s"
  "known_apps (settle_offers g s) = known_apps s" "ct_events (settle_offers g s) = ct_events s"
  "known_apps (prune is_closed s) = known_apps s" "ct_events (prune is_closed s) = ct_events s"
  by (simp_all add: settle_receiver_def settle_offers_def prune_def split: prod.splits)

lemma reports_stops_cong:
  "reports_stops s s1 \<Longrightarrow> known_apps s' = known_apps s1 \<Longrightarrow> ct_events s' = ct_events s1 \<Longrightarrow> reports_stops s s'"
  by (simp add: reports_stops_def)

lemma dispatch_reports_stops:
  assumes "dispatch_json_message parse m s = Inr s'"
  shows "reports_stops s s'"
proof -
  from assms consider (same) "known_apps s' = known_apps s" "ct_events s' = ct_events s"
    | (status) v status where "s' = settle_receiver (complete_receiver_status v) (publish_receiver_status status s)"
    unfolding dispatch_json_message_def dispatch_receiver_def dispatch_webrtc_def Let_def
    by (auto split: if_splits payload.splits sum.splits)
  then show ?thesis
    by cases (auto intro: reports_stops_same reports_stops_cong [OF publish_reports_stops])
qed

lemma closed_reports_stops:
  assumes "connection_closed m s = (s', f)"
  shows "reports_stops s s'"
proof (cases "source_id m = RECEIVER_ID \<or> map_of (known_apps s) (source_id m) = None")
  case True
  with assms show ?thesis
    by (auto simp: connection_closed_def Let_def intro!: reports_stops_same split: if_splits)
next
  case False
  then obtain app where app: "map_of (known_apps s) (source_id m) = Some app" by auto
  have s': "known_apps s' = AList.delete (source_id m) (known_apps s)" "ct_events s' = ct_events s @ [ApplicationStopped app]"
    using assms False app by (auto simp: connection_closed_def Let_def emit_def)
  have one: "filter (\<lambda>(tr, _). map_of (AList.delete k t) tr = None) t = [(k, app)]"
    if "distinct (map fst t)" "map_of t k = Some app" for t k
    using that
  proof (induction t)
    case (Cons e t)
    show ?case
    proof (cases "fst e = k")
      case True
      with Cons.prems have "k \<notin> fst ` set t" "e = (k, app)" by (cases e; auto)+
      then show ?thesis by (auto simp: filter_empty_conv map_of_eq_None_iff rev_image_eqI)
    next
      case False
      with Cons.prems have "filter (\<lambda>(tr, _). map_of (AList.delete k t) tr = None) t = [(k, app)]"
        by (intro Cons.IH) (cases e; auto)+
      moreover have "filter (\<lambda>(tr, _). map_of (e # AList.delete k t) tr = None) t =
          filter (\<lambda>(tr, _). map_of (AList.delete k t) tr = None) t"
        using Cons.prems(1) by (intro filter_cong) (cases e; force)+
      ultimately show ?thesis using False by (cases e) simp
    qed
  qed simp
  show ?thesis
    unfolding reports_stops_def s' using one [OF _ app] by (simp add: distinct_delete)
qed

lemma incoming_reports_stops:
  assumes "incoming_arm parse print wr now incoming s = (s', f)"
  shows "reports_stops s s'"
proof (cases incoming)
  case (Inl e)
  with assms show ?thesis by (cases e) (auto simp: incoming_arm_def intro: reports_stops_same)
next
  case (Inr m)
  with assms have "incoming_arm parse print wr now (Inr m) s = (s', f)" by simp
  then show ?thesis
  proof (cases rule: incoming_cases)
    case heartbeat
    then show ?thesis
      by (auto simp: heartbeat_message_def Let_def intro!: reports_stops_same dest!: write_or_break_writes split: if_splits)
  qed (auto intro: reports_stops_same closed_reports_stops dispatch_reports_stops)
qed

lemma command_reports_stops: "control_command_arm print wr command s = (s', f) \<Longrightarrow> reports_stops s s'"
proof (induction print wr command s rule: control_command_arm.induct)
  case (1 print wr operation custom sender s)
  then show ?case
    by (auto simp: receiver_request_arm_def intro!: reports_stops_same dest!: write_or_break_writes
        split: option.splits sum.splits)
next
  case (2 print wr operation sender s)
  then show ?case
    by (auto simp: product_info_arm_def intro!: reports_stops_same dest!: write_or_break_writes
        split: option.splits sum.splits)
qed (auto simp: offer_arm_def fire_arm_def close_arm_def Let_def intro!: reports_stops_same split: option.splits prod.splits
    dest!: write_or_break_writes write_only_writes teardown_arm_writes)

lemma heartbeat_reports_stops: "heartbeat_arm print wr now s = (s', f) \<Longrightarrow> reports_stops s s'"
  by (auto simp: heartbeat_arm_def intro!: reports_stops_same dest!: write_or_break_writes split: if_splits)

lemma control_step_reports_stops:
  assumes "control_step parse print wr i s = (s', f)"
  shows "reports_stops s s'"
proof -
  have "reports_stops (prune (li_closed i) s) s'"
    using assms
    by (cases "li_arm i")
      (auto simp: control_step_def intro: incoming_reports_stops command_reports_stops heartbeat_reports_stops)
  then show ?thesis by (simp add: reports_stops_def)
qed

lemma control_loop_apps_distinct:
  "control_loop parse print wr inputs s = (s', Continue, rest) \<Longrightarrow> distinct (map fst (known_apps s)) \<Longrightarrow>
     distinct (map fst (known_apps s'))"
proof (induction inputs arbitrary: s)
  case (Cons i inputs)
  obtain s1 f1 where step: "control_step parse print wr i s = (s1, f1)" by fastforce
  with Cons.prems have "f1 = Continue" by (cases f1) auto
  with Cons step control_step_reports_stops [OF step] show ?case by (simp add: reports_stops_def)
qed simp

text \<open>
  The events tell exactly which applications are gone. In every reachable state, whatever
  happens next, the applications that the new events report as stopped are exactly those whose
  transport was known before and is not known after, each reported once; and what is known after
  a receiver status is published are the applications of that status.
\<close>

theorem stopped_applications_reported:
  assumes "control_loop parse print wr inputs (control_init t) = (s, Continue, rest)"
    and "control_step parse print wr i s = (s', f)"
  shows "\<exists>evs. ct_events s' = ct_events s @ evs \<and>
    stopped evs = map snd (filter (\<lambda>(transport, _). map_of (known_apps s') transport = None) (known_apps s)) \<and>
    distinct (map fst (known_apps s)) \<and>
    (\<forall>status. StatusChanged status \<in> set evs \<longrightarrow>
       dom (map_of (known_apps s')) = ca_transport_id ` set (rs_applications status))"
proof -
  have "distinct (map fst (known_apps s))"
    using control_loop_apps_distinct [OF assms(1)] by (simp add: control_init_def)
  with control_step_reports_stops [OF assms(2)] show ?thesis
    unfolding reports_stops_def using dom_apps_by_transport by metis
qed

definition app_parse :: "string \<Rightarrow> string + json" where
  "app_parse str =
     (if str = ''apps'' then Inr (JObject [(''type'', JString ''RECEIVER_STATUS''), (''status'', JObject [(''applications'',
          JArray [JObject [(''appId'', JString ''A''), (''transportId'', JString ''t'')]])])])
      else if str = ''close'' then Inr (typed ''CLOSE'') else Inl ''no JSON'')"

definition app_message :: "string \<Rightarrow> string \<Rightarrow> string \<Rightarrow> loop_input" where
  "app_message source ns str = example_input (Incoming (Inr
     \<lparr>source_id = source, destination_id = SENDER_ID, namespace = ns, payload = PString str\<rparr>))"

definition example_app :: cast_app where
  "example_app = \<lparr>ca_app_id = ''A'', ca_transport_id = ''t'', ca_session_id = [], ca_display_name = None\<rparr>"

definition example_running :: control_state where
  "example_running = fst (control_loop app_parse (\<lambda>_. ''{}'') (\<lambda>_. None) [app_message RECEIVER_ID NS_RECEIVER ''apps''] (control_init 0))"

lemma example_running_run:
  "control_loop app_parse (\<lambda>_. ''{}'') (\<lambda>_. None) [app_message RECEIVER_ID NS_RECEIVER ''apps''] (control_init 0) =
     (example_running, Continue, [])"
  "known_apps example_running = [(''t'', example_app)]"
proof -
  have "parse_cast_app (JObject [(''appId'', JString ''A''), (''transportId'', JString ''t'')]) = Some example_app"
    by (simp add: parse_cast_app_def get_str_def example_app_def)
  then have "\<exists>s. control_loop app_parse (\<lambda>_. ''{}'') (\<lambda>_. None) [app_message RECEIVER_ID NS_RECEIVER ''apps''] (control_init 0) =
      (s, Continue, []) \<and> known_apps s = [(''t'', example_app)]"
    by (simp add: app_message_def example_input_def control_step_def incoming_arm_def dispatch_json_message_def app_parse_def
        dispatch_receiver_def json_message_type_def parse_receiver_status_def List.map_filter_def settle_receiver_def
        publish_receiver_status_def Let_def emit_def apps_by_transport_def example_app_def split: prod.splits)
  then show "control_loop app_parse (\<lambda>_. ''{}'') (\<lambda>_. None) [app_message RECEIVER_ID NS_RECEIVER ''apps''] (control_init 0) =
      (example_running, Continue, [])" "known_apps example_running = [(''t'', example_app)]"
    by (auto simp: example_running_def)
qed

theorem stopped_applications_reported_witness:
  "\<exists>s' evs. control_step app_parse (\<lambda>_. ''{}'') (\<lambda>_. None) (app_message ''t'' NS_CONNECTION ''close'') example_running = (s', Continue) \<and>
     ct_events s' = ct_events example_running @ evs \<and> stopped evs = [example_app]"
proof -
  have "\<exists>s'. control_step app_parse (\<lambda>_. ''{}'') (\<lambda>_. None) (app_message ''t'' NS_CONNECTION ''close'') example_running =
      (s', Continue) \<and> known_apps s' = []"
    by (simp add: app_message_def example_input_def control_step_def incoming_arm_def message_is_type_def cast_message_type_def
        app_parse_def typed_def json_message_type_def connection_closed_def RECEIVER_ID_def example_running_run emit_def)
  then obtain s' where step: "control_step app_parse (\<lambda>_. ''{}'') (\<lambda>_. None) (app_message ''t'' NS_CONNECTION ''close'')
      example_running = (s', Continue)" "known_apps s' = []" by blast
  from stopped_applications_reported [OF example_running_run(1) step(1)] step show ?thesis
    by (auto simp: example_running_run)
qed

subsection \<open>No panic and no endless search\<close>

fun wellformed_command :: "control_command \<Rightarrow> bool" where
  "wellformed_command (ReceiverRequest operation custom c) =
     (case custom of
        None \<Rightarrow> operation \<noteq> SetVolume \<and> operation \<noteq> StopApp
      | Some (JObject ms) \<Rightarrow> True
      | Some _ \<Rightarrow> False)"
| "wellformed_command _ = True"

lemma request_payload_ok:
  "wellformed_command (ReceiverRequest operation custom c) \<Longrightarrow>
     \<exists>v. bindR (case custom of None \<Rightarrow> operation_payload operation rid | Some v \<Rightarrow> Inr v)
        (\<lambda>v. json_set v ''requestId'' (json_id rid)) = Inr v"
  by (cases operation) (auto split: option.splits json.splits)

lemma write_or_break_ok [simp]:
  "snd (write_or_break print wr context destination ns v s) \<noteq> Crash"
  "snd (write_or_break print wr context destination ns v s) \<noteq> Hang"
  using write_or_break_writes by (metis prod.collapse)+

lemma command_no_panic:
  assumes "\<And>c. command = Some c \<Longrightarrow> wellformed_command c"
  shows "snd (control_command_arm print wr command s) \<noteq> Crash"
proof (cases command)
  case None
  then show ?thesis using teardown_arm_writes by (metis control_command_arm.simps(6) prod.collapse)
next
  case (Some c)
  show ?thesis
  proof (cases c)
    case (ReceiverRequest operation custom sender)
    then show ?thesis
      using Some assms request_payload_ok [of operation custom sender]
      by (auto simp: receiver_request_arm_def split: option.splits sum.splits) (metis Inl_Inr_False)+
  next
    case (ProductInfoRequest operation sender)
    then show ?thesis using Some by (simp add: product_info_arm_def typed_def split: option.splits)
  next
    case (SendOffer destination offer sender)
    then show ?thesis using Some by (simp add: offer_arm_def split: option.splits)
  next
    case (SendFire ns destination v sender)
    then show ?thesis using Some by (simp add: fire_arm_def Let_def split: option.splits prod.splits)
  next
    case (CloseControl sender)
    then show ?thesis using Some by (auto simp: close_arm_def dest!: teardown_arm_writes split: prod.splits)
  qed
qed

lemma incoming_no_panic: "snd (incoming_arm parse print wr now incoming s) \<noteq> Crash \<and> snd (incoming_arm parse print wr now incoming s) \<noteq> Hang"
proof -
  have "dispatch_product_info_message parse m t \<noteq> Inl Panic" if "from_namespace (namespace m) \<noteq> None" for m t
    using that by (auto simp: dispatch_product_info_message_def Let_def split: option.splits payload.splits sum.splits)
  then show ?thesis
    by (auto simp: incoming_arm_def heartbeat_message_def connection_closed_def dispatch_failed_def Let_def
        split: sum.splits io_fault.splits fault.splits)
qed

lemma allocate_returns_small:
  "length t < 2 ^ 32 - 1 \<Longrightarrow> allocate_id n t \<noteq> None"
  using free_id allocate_id_returns by blast

lemma command_no_hang:
  assumes "length (waiting s) < 2 ^ 32 - 1"
  shows "snd (control_command_arm print wr command s) \<noteq> Hang"
proof -
  have "length (pending_receiver s) < 2 ^ 32 - 1" "length (pending_product_info s) < 2 ^ 32 - 1"
    "length (pending_offers s) < 2 ^ 32 - 1"
    using assms by (simp_all add: waiting_def channels_def)
  then have found: "allocate_id n (pending_receiver s) \<noteq> None" "allocate_id n (pending_product_info s) \<noteq> None"
    "allocate_id n (pending_offers s) \<noteq> None" for n by (simp_all only: allocate_returns_small not_False_eq_True)
  have "snd (teardown_arm print wr s) \<noteq> Hang" using teardown_arm_writes by (metis prod.collapse)
  then have close: "snd (close_arm print wr c s) \<noteq> Hang" "snd (control_command_arm print wr None s) \<noteq> Hang" for c
    by (simp_all add: close_arm_def case_prod_unfold Let_def)
  show ?thesis
  proof (cases command)
    case (Some c)
    then show ?thesis
      using found close
      by (cases c) (auto simp: receiver_request_arm_def product_info_arm_def offer_arm_def fire_arm_def Let_def
          split: option.splits sum.splits prod.splits)
  qed (use close in simp)
qed

lemma control_step_returns:
  assumes "tables_ok s" and "size (balance s) < 2 ^ 32 - 1"
    and "\<And>c. li_arm i = Command (Some c) \<Longrightarrow> wellformed_command c"
  shows "snd (control_step parse print wr i s) \<noteq> Crash \<and> snd (control_step parse print wr i s) \<noteq> Hang"
proof -
  let ?s = "prune (li_closed i) s"
  have "size (balance ?s) \<le> size (balance s)" using prune_books [OF assms(1), of "li_closed i"] by auto
  then have w: "length (waiting ?s) < 2 ^ 32 - 1" using assms(2) by (simp add: balance_def)
  show ?thesis
  proof (cases "li_arm i")
    case (Incoming incoming)
    then show ?thesis using incoming_no_panic by (simp add: control_step_def)
  next
    case (Command command)
    then show ?thesis
      using command_no_panic [of command] command_no_hang [OF w] assms(3) by (auto simp: control_step_def)
  next
    case HeartbeatTick
    then show ?thesis by (simp add: control_step_def heartbeat_arm_def Let_def)
  qed
qed

text \<open>
  C19. The control task neither panics nor searches forever. As long as the commands are
  well-formed (an operation without a fixed payload brings its own, and it is a JSON object),
  no sequence of fewer than \<open>2 ^ 32 - 1\<close> messages, commands and ticks, of any content and in
  any order, makes the task panic or leaves it in the search for a free identifier.
\<close>

theorem control_task_returns:
  assumes "\<forall>i\<in>set inputs. \<forall>c. li_arm i = Command (Some c) \<longrightarrow> wellformed_command c"
    and "length inputs < 2 ^ 32 - 1"
  shows "fst (snd (control_loop parse print wr inputs (control_init t))) \<notin> {Crash, Hang}"
proof -
  have "fst (snd (control_loop parse print wr inputs s)) \<notin> {Crash, Hang}"
    if "tables_ok s" "size (balance s) + length inputs < 2 ^ 32 - 1" for s
    using that assms(1)
  proof (induction inputs arbitrary: s)
    case (Cons i inputs)
    obtain s1 f1 where step: "control_step parse print wr i s = (s1, f1)" by fastforce
    with control_step_returns [OF Cons.prems(1), of i parse print wr] Cons.prems
    have f1: "f1 \<noteq> Crash" "f1 \<noteq> Hang" by auto
    obtain dropped where b: "tables_ok s1" "balance s + mset (submitted (li_arm i)) = balance s1 + dropped"
      using control_step_books [OF Cons.prems(1) step f1] by blast
    have "length (submitted (li_arm i)) \<le> 1" by (cases "li_arm i" rule: submitted.cases) auto
    moreover have "size (balance s) + length (submitted (li_arm i)) = size (balance s1) + size dropped"
      using arg_cong [OF b(2), of size] by simp
    ultimately have "size (balance s1) + length inputs < 2 ^ 32 - 1" using Cons.prems(2) by simp
    with Cons.IH [OF b(1)] Cons.prems(3) f1 step show ?case by (cases f1) auto
  qed simp
  with assms(2) control_init_books show ?thesis by simp
qed

theorem control_task_returns_witness:
  "fst (snd (control_loop example_parse (\<lambda>_. ''{}'') (\<lambda>_. Some (OtherIo ''reset''))
     [example_input (Command (Some (ReceiverRequest (Launch ''A'') None 1))), example_input HeartbeatTick]
     (control_init 0))) \<notin> {Crash, Hang}"
  by (rule control_task_returns) (auto simp: example_input_def)

subsection \<open>Requests on the wire\<close>

lemma write_or_break_continues:
  "write_or_break print wr context destination ns v s = (s', Continue) \<Longrightarrow>
     s' = s\<lparr>ct_written := ct_written s @
       [(\<lparr>source_id = SENDER_ID, destination_id = destination, namespace = ns, payload = PString (print v)\<rparr>, None)]\<rparr>"
  by (auto simp: write_or_break_def write_json_message_timed_def Let_def split: option.splits)

definition request_sent :: "(json \<Rightarrow> string) \<Rightarrow> control_state \<Rightarrow> control_state \<Rightarrow> string \<Rightarrow> string \<Rightarrow> json \<Rightarrow> bool" where
  "request_sent print s s' destination ns v \<longleftrightarrow>
     ct_written s' = ct_written s @ [(\<lparr>source_id = SENDER_ID, destination_id = destination, namespace = ns,
       payload = PString (print v)\<rparr>, None)]"

lemma json_get_set: "json_set v key x = Inr v' \<Longrightarrow> json_get v' key = Some x"
  by (cases v) (auto simp: update_conv')

lemma receiver_request_sent:
  assumes "receiver_request_arm print wr operation custom c s = (s', Continue)"
  shows "\<exists>rid v. rid \<noteq> 0 \<and> map_of (pending_receiver s) rid = None \<and> json_u32 v ''requestId'' = Some rid \<and>
    request_sent print s s' RECEIVER_ID NS_RECEIVER v \<and>
    pending_receiver s' = pending_receiver s @ [(rid, \<lparr>subject = operation, response_sender = c\<rparr>)]"
proof -
  obtain rid n where a: "allocate_id (next_request_id s) (pending_receiver s) = Some (rid, n)"
    using assms by (auto simp: receiver_request_arm_def split: option.splits)
  note fresh = allocate_id_fresh [OF a]
  obtain u v where "json_set u ''requestId'' (json_id rid) = Inr v"
    and w: "write_or_break print wr ''send receiver request: '' RECEIVER_ID NS_RECEIVER v
      (s\<lparr>next_request_id := n, pending_receiver := AList.update rid \<lparr>subject = operation, response_sender = c\<rparr>
        (pending_receiver s)\<rparr>) = (s', Continue)"
    using assms a by (auto simp: receiver_request_arm_def bindR_eq_Inr_iff split: sum.splits)
  from json_get_set [OF this(1)] fresh write_or_break_continues [OF w] show ?thesis
    by (intro exI [of _ rid] exI [of _ v]) (simp add: request_sent_def map_fst_update_new)
qed

lemma product_info_sent:
  assumes "product_info_arm print wr operation c s = (s', Continue)"
  shows "\<exists>rid v. rid \<noteq> 0 \<and> map_of (pending_product_info s) rid = None \<and> json_u32 v (request_id_field operation) = Some rid \<and>
    request_sent print s s' RECEIVER_ID (info_namespace operation) v \<and>
    pending_product_info s' = pending_product_info s @ [(rid, \<lparr>subject = operation, response_sender = c\<rparr>)]"
proof -
  obtain rid n where a: "allocate_id (next_product_info_request_id s) (pending_product_info s) = Some (rid, n)"
    using assms by (auto simp: product_info_arm_def split: option.splits)
  note fresh = allocate_id_fresh [OF a]
  obtain u v where "json_set u (request_id_field operation) (json_id rid) = Inr v"
    and w: "write_or_break print wr ''send product-info request: '' RECEIVER_ID (info_namespace operation) v
      (s\<lparr>next_product_info_request_id := n, pending_product_info := AList.update rid
        \<lparr>subject = operation, response_sender = c\<rparr> (pending_product_info s)\<rparr>) = (s', Continue)"
    using assms a by (auto simp: product_info_arm_def split: sum.splits)
  from json_get_set [OF this(1)] fresh write_or_break_continues [OF w] show ?thesis
    by (intro exI [of _ rid] exI [of _ v]) (simp add: request_sent_def map_fst_update_new)
qed

lemma offer_sent:
  assumes "offer_arm print wr destination offer c s = (s', Continue)"
  shows "\<exists>rid v. rid \<noteq> 0 \<and> map_of (pending_offers s) rid = None \<and> json_u32 v ''seqNum'' = Some rid \<and>
    json_get v ''offer'' = Some offer \<and> request_sent print s s' destination NS_WEBRTC v \<and>
    pending_offers s' = pending_offers s @ [(rid, \<lparr>subject = destination, response_sender = c\<rparr>)]"
proof -
  obtain rid n where a: "allocate_id (next_sequence_number s) (pending_offers s) = Some (rid, n)"
    using assms by (auto simp: offer_arm_def split: option.splits)
  note fresh = allocate_id_fresh [OF a]
  let ?v = "JObject [(''type'', JString ''OFFER''), (''seqNum'', json_id rid), (''offer'', offer)]"
  have w: "write_or_break print wr ''send streaming OFFER: '' destination NS_WEBRTC ?v
      (s\<lparr>next_sequence_number := n, pending_offers := AList.update rid \<lparr>subject = destination, response_sender = c\<rparr>
        (pending_offers s)\<rparr>) = (s', Continue)"
    using assms a by (simp add: offer_arm_def)
  from fresh write_or_break_continues [OF w] show ?thesis
    by (intro exI [of _ rid] exI [of _ ?v]) (simp add: request_sent_def map_fst_update_new)
qed

text \<open>
  A request goes out under the identifier it waits under. In every reachable state, a
  command that the task accepts and goes on from has written exactly one message, to the
  destination and on the namespace of the request, whose JSON carries an identifier that is not
  zero and that no waiting request of that kind has; the request is filed under exactly that
  identifier, with its caller's channel, and nothing else changes in the tables.
\<close>

theorem requests_carry_fresh_ids:
  assumes "control_step parse print wr i s = (s', Continue)"
  shows "(li_arm i = Command (Some (ReceiverRequest operation custom c)) \<longrightarrow>
      (\<exists>rid v. rid \<noteq> 0 \<and> map_of (pending_receiver (prune (li_closed i) s)) rid = None \<and>
         json_u32 v ''requestId'' = Some rid \<and> request_sent print s s' RECEIVER_ID NS_RECEIVER v \<and>
         pending_receiver s' = pending_receiver (prune (li_closed i) s) @ [(rid, \<lparr>subject = operation, response_sender = c\<rparr>)])) \<and>
    (li_arm i = Command (Some (ProductInfoRequest info c)) \<longrightarrow>
      (\<exists>rid v. rid \<noteq> 0 \<and> map_of (pending_product_info (prune (li_closed i) s)) rid = None \<and>
         json_u32 v (request_id_field info) = Some rid \<and> request_sent print s s' RECEIVER_ID (info_namespace info) v \<and>
         pending_product_info s' = pending_product_info (prune (li_closed i) s) @ [(rid, \<lparr>subject = info, response_sender = c\<rparr>)])) \<and>
    (li_arm i = Command (Some (SendOffer destination offer c)) \<longrightarrow>
      (\<exists>rid v. rid \<noteq> 0 \<and> map_of (pending_offers (prune (li_closed i) s)) rid = None \<and>
         json_u32 v ''seqNum'' = Some rid \<and> json_get v ''offer'' = Some offer \<and> request_sent print s s' destination NS_WEBRTC v \<and>
         pending_offers s' = pending_offers (prune (li_closed i) s) @ [(rid, \<lparr>subject = destination, response_sender = c\<rparr>)]))"
proof -
  have "ct_written (prune (li_closed i) s) = ct_written s" by (simp add: prune_def)
  then have same: "request_sent print (prune (li_closed i) s) s' = request_sent print s s'"
    by (intro ext) (simp add: request_sent_def)
  show ?thesis
    using receiver_request_sent [of print wr operation custom c "prune (li_closed i) s" s']
      product_info_sent [of print wr info c "prune (li_closed i) s" s']
      offer_sent [of print wr destination offer c "prune (li_closed i) s" s'] assms
    unfolding same by (auto simp: control_step_def)
qed

theorem requests_carry_fresh_ids_witness:
  "\<exists>s rid v. control_step example_parse (\<lambda>_. ''{}'') (\<lambda>_. None)
       (example_input (Command (Some (SendOffer ''t'' JNull 9)))) example_waiting = (s, Continue) \<and>
     json_u32 v ''seqNum'' = Some rid \<and> request_sent (\<lambda>_. ''{}'') example_waiting s ''t'' NS_WEBRTC v"
proof -
  have "pending_offers example_waiting = []" "next_sequence_number example_waiting = 1"
    by (simp_all add: example_waiting_def example_input_def control_step_def control_init_def prune_def retain_open_def
        receiver_request_arm_def allocate_first write_or_break_def write_json_message_timed_def Let_def)
  then obtain s where s: "control_step example_parse (\<lambda>_. ''{}'') (\<lambda>_. None)
      (example_input (Command (Some (SendOffer ''t'' JNull 9)))) example_waiting = (s, Continue)"
    by (simp add: control_step_def example_input_def offer_arm_def prune_def retain_open_def allocate_first
        write_or_break_def write_json_message_timed_def Let_def)
  from requests_carry_fresh_ids [OF s] have "\<exists>rid v. json_u32 v ''seqNum'' = Some rid \<and>
      request_sent (\<lambda>_. ''{}'') example_waiting s ''t'' NS_WEBRTC v"
    by (simp add: example_input_def) blast
  with s show ?thesis by blast
qed

end
