(* ===== verification/Device_Info.thy ===== *)
theory Device_Info
  imports Control_Messages Unicode
begin

text \<open>
  Product information of an authenticated receiver (\<open>src/control/device_info.rs\<close>): the readers of
  \<open>GET_DEVICE_INFO\<close> and \<open>eureka_info\<close> replies, which bound and clean every text.
\<close>

definition MAX_DEVICE_ID_BYTES :: nat where "MAX_DEVICE_ID_BYTES = 256"
definition MAX_DEVICE_NAME_BYTES :: nat where "MAX_DEVICE_NAME_BYTES = 256"
definition MAX_DEVICE_MODEL_BYTES :: nat where "MAX_DEVICE_MODEL_BYTES = 256"
definition MAX_MANUFACTURER_BYTES :: nat where "MAX_MANUFACTURER_BYTES = 256"
definition MAX_PRODUCT_NAME_BYTES :: nat where "MAX_PRODUCT_NAME_BYTES = 256"
definition MAX_SSDP_UDN_BYTES :: nat where "MAX_SSDP_UDN_BYTES = 256"

lemmas max_text_defs = MAX_DEVICE_ID_BYTES_def MAX_DEVICE_NAME_BYTES_def MAX_DEVICE_MODEL_BYTES_def
  MAX_MANUFACTURER_BYTES_def MAX_PRODUCT_NAME_BYTES_def MAX_SSDP_UDN_BYTES_def

record authenticated_device_info =
  di_device_id :: string
  di_friendly_name :: "string option"
  di_device_model :: "string option"
  di_capabilities :: "nat option"
  di_control_notifications :: "nat option"

record authenticated_eureka_info =
  ei_manufacturer :: "string option"
  ei_product_name :: "string option"
  ei_ssdp_udn :: "string option"

datatype eureka_info_outcome = EurekaAvailable authenticated_eureka_info | EurekaUnsupported

definition info_message_type_of :: "json \<Rightarrow> string option" where
  "info_message_type_of v =
     Option.bind (case json_get v ''type'' of None \<Rightarrow> json_get v ''responseType'' | Some t \<Rightarrow> Some t) as_str"

definition require_message_type :: "json \<Rightarrow> string \<Rightarrow> error + unit" where
  "require_message_type v expected =
     (case info_message_type_of v of
        Some actual \<Rightarrow>
          if actual = expected then Inr ()
          else Inl (ProtocolError (''expected '' @ expected @ '' response, received '' @ actual))
      | None \<Rightarrow> Inl (ProtocolError (expected @ '' response omitted its type'')))"

definition require_device_info_message_type :: "json \<Rightarrow> error + unit" where
  "require_device_info_message_type v =
     (case info_message_type_of v of
        Some actual \<Rightarrow>
          if actual = ''DEVICE_INFO'' \<or> actual = ''GET_DEVICE_INFO'' then Inr ()
          else Inl (ProtocolError (''expected DEVICE_INFO response, received '' @ actual))
      | None \<Rightarrow> Inl (ProtocolError ''DEVICE_INFO response omitted its type''))"

definition optional_text_value :: "json option \<Rightarrow> string \<Rightarrow> nat \<Rightarrow> error + string option" where
  "optional_text_value v field maximum =
     (case v of
        None \<Rightarrow> Inr None
      | Some JNull \<Rightarrow> Inr None
      | Some x \<Rightarrow>
          (case as_str x of
             None \<Rightarrow> Inl (ProtocolError (field @ '' is not a string''))
           | Some s \<Rightarrow>
               let t = trim s
               in if t = [] then Inr None
                  else if maximum < length t \<or> list_ex control (utf8_chars t)
                  then Inl (ProtocolError (field @ '' is empty, too long, or contains a control character''))
                  else Inr (Some t)))"

definition optional_text :: "json \<Rightarrow> string \<Rightarrow> nat \<Rightarrow> error + string option" where
  "optional_text v field maximum = optional_text_value (json_get v field) field maximum"

definition required_text :: "json \<Rightarrow> string \<Rightarrow> nat \<Rightarrow> error + string" where
  "required_text v field maximum =
     bindE (optional_text v field maximum) (\<lambda>t. ok_or t (ProtocolError (''response omitted '' @ field)))"

definition optional_u64 :: "json \<Rightarrow> string \<Rightarrow> error + nat option" where
  "optional_u64 v field =
     (case json_get v field of
        None \<Rightarrow> Inr None
      | Some x \<Rightarrow>
          (case as_u64 x of
             Some n \<Rightarrow> Inr (Some n)
           | None \<Rightarrow> Inl (ProtocolError (field @ '' is not an unsigned integer''))))"

definition aliased_u64 :: "json \<Rightarrow> string \<Rightarrow> string \<Rightarrow> error + nat option" where
  "aliased_u64 v preferred compatibility =
     bindE (optional_u64 v preferred) (\<lambda>l.
     bindE (optional_u64 v compatibility) (\<lambda>r.
       case (l, r) of
         (Some a, Some b) \<Rightarrow>
           if a \<noteq> b then Inl (ProtocolError (preferred @ '' and '' @ compatibility @ '' disagree'')) else Inr (Some a)
       | (Some a, None) \<Rightarrow> Inr (Some a)
       | (None, Some b) \<Rightarrow> Inr (Some b)
       | (None, None) \<Rightarrow> Inr None))"

definition optional_object_value :: "json option \<Rightarrow> string \<Rightarrow> error + (string \<times> json) list option" where
  "optional_object_value v field =
     (case v of
        None \<Rightarrow> Inr None
      | Some JNull \<Rightarrow> Inr None
      | Some (JObject ms) \<Rightarrow> Inr (Some ms)
      | Some _ \<Rightarrow> Inl (ProtocolError (field @ '' is not an object'')))"

definition optional_object :: "json \<Rightarrow> string \<Rightarrow> error + (string \<times> json) list option" where
  "optional_object v field = optional_object_value (json_get v field) field"

definition parse_device_info :: "json \<Rightarrow> error + authenticated_device_info" where
  "parse_device_info v =
     bindE (require_device_info_message_type v) (\<lambda>_.
     bindE (required_text v ''deviceId'' MAX_DEVICE_ID_BYTES) (\<lambda>device_id.
     bindE (aliased_u64 v ''deviceCapabilities'' ''capabilities'') (\<lambda>caps.
     bindE (optional_text v ''friendlyName'' MAX_DEVICE_NAME_BYTES) (\<lambda>name.
     bindE (optional_text v ''deviceModel'' MAX_DEVICE_MODEL_BYTES) (\<lambda>model.
     bindE (optional_u64 v ''controlNotifications'') (\<lambda>notifications.
       Inr \<lparr>di_device_id = device_id, di_friendly_name = name, di_device_model = model, di_capabilities = caps,
         di_control_notifications = notifications\<rparr>))))))"

definition no_eureka_info :: authenticated_eureka_info where
  "no_eureka_info = \<lparr>ei_manufacturer = None, ei_product_name = None, ei_ssdp_udn = None\<rparr>"

definition parse_eureka_info :: "json \<Rightarrow> error + eureka_info_outcome" where
  "parse_eureka_info v =
     (if info_message_type_of v = Some ''INVALID_REQUEST'' then Inr EurekaUnsupported
      else
        bindE (require_message_type v ''eureka_info'') (\<lambda>_.
        bindE (ok_or (get_u64 v ''response_code'') (ProtocolError ''eureka_info omitted a numeric response_code'')) (\<lambda>code.
          if code \<noteq> 200 then Inr EurekaUnsupported
          else
            bindE (optional_object v ''data'') (\<lambda>data.
            bindE (case data of None \<Rightarrow> Inr None
                   | Some ms \<Rightarrow> optional_object_value (map_of ms ''device_info'') ''data.device_info'') (\<lambda>info.
              case info of
                None \<Rightarrow> Inr (EurekaAvailable no_eureka_info)
              | Some ms \<Rightarrow>
                  bindE (optional_text_value (map_of ms ''manufacturer'') ''manufacturer'' MAX_MANUFACTURER_BYTES) (\<lambda>m.
                  bindE (optional_text_value (map_of ms ''product_name'') ''product_name'' MAX_PRODUCT_NAME_BYTES) (\<lambda>p.
                  bindE (optional_text_value (map_of ms ''ssdp_udn'') ''ssdp_udn'' MAX_SSDP_UDN_BYTES) (\<lambda>u.
                    Inr (EurekaAvailable \<lparr>ei_manufacturer = m, ei_product_name = p, ei_ssdp_udn = u\<rparr>)))))))))"

subsection \<open>Every text is bounded and clean\<close>

definition clean_text :: "string \<Rightarrow> bool" where
  "clean_text t \<longleftrightarrow> t \<noteq> [] \<and> length t \<le> 256 \<and> trimmed t \<and> \<not> list_ex control (utf8_chars t)"

definition clean_option :: "string option \<Rightarrow> bool" where
  "clean_option x \<longleftrightarrow> (case x of None \<Rightarrow> True | Some t \<Rightarrow> clean_text t)"

lemma optional_text_value_clean: "optional_text_value v field 256 = Inr x \<Longrightarrow> clean_option x"
  by (auto simp: optional_text_value_def clean_option_def clean_text_def trimmed_trim Let_def
      split: option.splits json.splits if_splits)

lemma optional_text_value_keeps:
  "clean_text t \<Longrightarrow> optional_text_value (Some (JString t)) field 256 = Inr (Some t)"
  by (simp add: optional_text_value_def clean_text_def trim_trimmed Let_def)

text \<open>
  C39. What a receiver says about itself is bounded and clean. Whatever JSON an authenticated
  receiver answers, each text of an accepted device or product information is not empty, has at
  most 256 bytes, neither begins nor ends with white space and has no control character; a
  device always has an identifier; and where both names of the capability field are present they
  agree.
\<close>

theorem product_info_clean:
  "(parse_device_info v = Inr d \<longrightarrow> clean_text (di_device_id d) \<and> clean_option (di_friendly_name d) \<and>
      clean_option (di_device_model d) \<and>
      (\<forall>a b. get_u64 v ''deviceCapabilities'' = Some a \<and> get_u64 v ''capabilities'' = Some b \<longrightarrow>
         a = b \<and> di_capabilities d = Some a)) \<and>
   (parse_eureka_info v = Inr (EurekaAvailable e) \<longrightarrow>
      clean_option (ei_manufacturer e) \<and> clean_option (ei_product_name e) \<and> clean_option (ei_ssdp_udn e))"
proof (intro conjI impI)
  assume d: "parse_device_info v = Inr d"
  then obtain caps where t: "required_text v ''deviceId'' 256 = Inr (di_device_id d)"
    "optional_text v ''friendlyName'' 256 = Inr (di_friendly_name d)"
    "optional_text v ''deviceModel'' 256 = Inr (di_device_model d)"
    "aliased_u64 v ''deviceCapabilities'' ''capabilities'' = Inr (di_capabilities d)"
    by (auto simp: parse_device_info_def bindE_eq_Inr_iff max_text_defs)
  show "clean_text (di_device_id d)"
    using t(1) by (auto simp: required_text_def optional_text_def bindE_eq_Inr_iff clean_option_def
        dest!: optional_text_value_clean)
  show "clean_option (di_friendly_name d)" "clean_option (di_device_model d)"
    using t(2, 3) by (auto simp: optional_text_def dest: optional_text_value_clean)
  show "\<forall>a b. get_u64 v ''deviceCapabilities'' = Some a \<and> get_u64 v ''capabilities'' = Some b \<longrightarrow>
      a = b \<and> di_capabilities d = Some a"
    using t(4) by (auto simp: aliased_u64_def optional_u64_def get_u64_def bind_eq_Some_conv split: if_splits)
next
  assume e: "parse_eureka_info v = Inr (EurekaAvailable e)"
  then consider "e = no_eureka_info"
    | ms where "optional_text_value (map_of ms ''manufacturer'') ''manufacturer'' 256 = Inr (ei_manufacturer e)"
        "optional_text_value (map_of ms ''product_name'') ''product_name'' 256 = Inr (ei_product_name e)"
        "optional_text_value (map_of ms ''ssdp_udn'') ''ssdp_udn'' 256 = Inr (ei_ssdp_udn e)"
    by (auto simp: parse_eureka_info_def bindE_eq_Inr_iff max_text_defs split: if_splits option.splits)
  then have "clean_option (ei_manufacturer e) \<and> clean_option (ei_product_name e) \<and> clean_option (ei_ssdp_udn e)"
    by cases (auto simp: no_eureka_info_def clean_option_def dest!: optional_text_value_clean)
  then show "clean_option (ei_manufacturer e)" "clean_option (ei_product_name e)" "clean_option (ei_ssdp_udn e)" by auto
qed

theorem product_info_clean_witness:
  "clean_text ''tv'' \<and> parse_device_info (JObject [(''type'', JString ''DEVICE_INFO''), (''deviceId'', JString ''  tv '')]) =
     Inr \<lparr>di_device_id = ''tv'', di_friendly_name = None, di_device_model = None, di_capabilities = None,
       di_control_notifications = None\<rparr>"
proof -
  let ?v = "JObject [(''type'', JString ''DEVICE_INFO''), (''deviceId'', JString ''  tv '')]"
  have "trim ''  tv '' = ''tv''"
    by (simp add: trim_def utf8_width_def white_def is_whitespace_def)
  moreover have "\<not> list_ex control (utf8_chars ''tv'')" by (simp add: utf8_width_def control_def is_control_def)
  ultimately have d: "parse_device_info ?v = Inr \<lparr>di_device_id = ''tv'', di_friendly_name = None, di_device_model = None,
      di_capabilities = None, di_control_notifications = None\<rparr>"
    by (simp add: parse_device_info_def require_device_info_message_type_def info_message_type_of_def required_text_def
        optional_text_def optional_text_value_def max_text_defs aliased_u64_def optional_u64_def Let_def)
  have "clean_text ''tv''" using product_info_clean [THEN conjunct1, THEN mp, OF d] by simp
  with d show ?thesis by simp
qed

end
