(* ===== verification/Auth.thy ===== *)
theory Auth
  imports Auth_Wire
begin

text \<open>
  Cast device authentication (\<open>src/control/auth.rs\<close>): the challenge, the reply, the chain of the
  device credential, the signature that binds it to the TLS certificate and to the nonce, and the
  revocation list.

  The libraries it calls are parameters, collected in the record \<open>auth_libs\<close>: the X.509 and PEM
  parsers, path building and validation (\<open>webpki\<close>), signature verification and SHA-256
  (\<open>ring\<close>), and the three certificate files built into the program. \<open>Inl\<close> carries the text of a
  library error. The clock is read several times; \<open>clock\<close> gives the time of each reading.
\<close>

definition NONCE_SIZE :: nat where "NONCE_SIZE = 16"
definition MAX_TLS_CERTIFICATE_LIFETIME :: nat where "MAX_TLS_CERTIFICATE_LIFETIME = 4 * 24 * 60 * 60"
definition AUDIO_ONLY_POLICY_OID :: string where "AUDIO_ONLY_POLICY_OID = ''1.3.6.1.4.1.11129.2.5.2''"

record device_identity =
  certificate_sha256 :: bytes
  audio_only :: bool
  revocation_checked :: bool

datatype signature_algorithm = Pkcs1V15 | Pss
datatype hash_algorithm = Sha1 | Sha256
datatype verification_algorithm = RsaPkcs1Sha1 | RsaPkcs1Sha256 | RsaPssSha256

text \<open>What the program reads of a parsed certificate.\<close>

datatype extension = CertificatePolicies "string list" | OtherExtension

record x509 =
  x_not_before :: int
  x_not_after :: int
  x_spki_raw :: bytes
  x_subject_public_key :: bytes
  x_key_size :: "string + nat"
  x_key_usage :: "string + bool option"
  x_extensions :: "extension list"
  x_raw_serial :: bytes

datatype reading = TlsReading | ChainReading | CrlSignerReading nat | RevocationReading

record 'anchor auth_libs =
  lib_parse_x509 :: "bytes \<Rightarrow> string + bytes \<times> x509"
  lib_parse_pem :: "bytes \<Rightarrow> string + bytes \<times> bytes"
  lib_end_entity :: "bytes \<Rightarrow> string + unit"
  lib_anchor :: "bytes \<Rightarrow> string + 'anchor"
  lib_verify_path :: "bytes \<Rightarrow> 'anchor list \<Rightarrow> bytes list \<Rightarrow> nat \<Rightarrow> string + bytes list \<times> 'anchor"
  lib_verify :: "verification_algorithm \<Rightarrow> bytes \<Rightarrow> bytes \<Rightarrow> bytes \<Rightarrow> bool"
  lib_sha256 :: "bytes \<Rightarrow> bytes"
  cast_root_ca_pem :: bytes
  eureka_root_ca_pem :: bytes
  cast_crl_root_ca_pem :: bytes

definition is_audio_only :: "device_identity \<Rightarrow> bool" where
  "is_audio_only d = audio_only d"

subsection \<open>The challenge\<close>

record auth_challenge =
  ch_nonce :: bytes
  ch_payload :: bytes

definition create_challenge :: "(bytes \<Rightarrow> bytes) \<Rightarrow> auth_challenge" where
  "create_challenge fill_bytes =
     (let nonce = fill_bytes (replicate NONCE_SIZE 0);
          challenge = auth_encode_varint_field 1 1 @ auth_encode_bytes_field 2 nonce @ auth_encode_varint_field 3 1
      in \<lparr>ch_nonce = nonce, ch_payload = auth_encode_bytes_field 1 challenge\<rparr>)"

subsection \<open>The reply\<close>

record auth_response =
  ar_signature :: bytes
  ar_client_auth_certificate :: bytes
  ar_intermediate_certificates :: "bytes list"
  ar_signature_algorithm :: signature_algorithm
  ar_sender_nonce :: "bytes option"
  ar_hash_algorithm :: hash_algorithm
  ar_crl :: "bytes option"

definition signature_algorithm_from_wire :: "u64 \<Rightarrow> error + signature_algorithm" where
  "signature_algorithm_from_wire value =
     (if value = 1 then Inr Pkcs1V15 else if value = 2 then Inr Pss
      else Inl (auth_error (''unsupported device signature algorithm '' @ show_nat (unat value))))"

definition hash_algorithm_from_wire :: "u64 \<Rightarrow> error + hash_algorithm" where
  "hash_algorithm_from_wire value =
     (if value = 0 then Inr Sha1 else if value = 1 then Inr Sha256
      else Inl (auth_error (''unsupported device hash algorithm '' @ show_nat (unat value))))"

definition unwrap_or :: "'a option \<Rightarrow> 'a \<Rightarrow> 'a" where
  "unwrap_or x d = (case x of None \<Rightarrow> d | Some a \<Rightarrow> a)"

definition parse_auth_response :: "bytes \<Rightarrow> error + auth_response" where
  "parse_auth_response response =
     bindE (parse_fields response) (\<lambda>fs.
     bindE (ok_or (fields_bytes fs 1) (auth_error ''device-auth response has no signature'')) (\<lambda>sig.
     bindE (ok_or (fields_bytes fs 2) (auth_error ''device-auth response has no device certificate'')) (\<lambda>cert.
     bindE (signature_algorithm_from_wire (unwrap_or (fields_varint fs 4) 1)) (\<lambda>sa.
     bindE (hash_algorithm_from_wire (unwrap_or (fields_varint fs 6) 0)) (\<lambda>ha.
       Inr \<lparr>ar_signature = sig, ar_client_auth_certificate = cert,
         ar_intermediate_certificates = fields_bytes_all fs 3, ar_signature_algorithm = sa,
         ar_sender_nonce = fields_bytes fs 5, ar_hash_algorithm = ha, ar_crl = fields_bytes fs 7\<rparr>)))))"

definition parse_device_auth_message :: "bytes \<Rightarrow> error + auth_response" where
  "parse_device_auth_message data =
     bindE (parse_fields data) (\<lambda>fs.
       case fields_bytes fs 3 of
         Some e \<Rightarrow>
           bindE (parse_fields e) (\<lambda>es.
             Inl (auth_error (''receiver rejected authentication challenge with error '' @
               show_nat (unat (unwrap_or (fields_varint es 1) 0)))))
       | None \<Rightarrow>
           bindE (ok_or (fields_bytes fs 2) (auth_error ''device-auth reply contains no response'')) parse_auth_response)"

subsection \<open>Certificates\<close>

text \<open>Library errors become errors of the crate.\<close>

definition map_err :: "(string \<Rightarrow> string) \<Rightarrow> string + 'a \<Rightarrow> error + 'a" where
  "map_err f x = (case x of Inl e \<Rightarrow> Inl (auth_error (f e)) | Inr a \<Rightarrow> Inr a)"

definition parse_certificate :: "'t auth_libs \<Rightarrow> bytes \<Rightarrow> string \<Rightarrow> error + x509" where
  "parse_certificate libs der description =
     bindE (map_err (\<lambda>e. ''invalid '' @ description @ '': '' @ e) (lib_parse_x509 libs der)) (\<lambda>(remaining, cert).
     bindE (ensure (remaining = []) (auth_error (''trailing data after '' @ description))) (\<lambda>_.
       Inr cert))"

definition is_ascii_whitespace :: "u8 \<Rightarrow> bool" where
  "is_ascii_whitespace b \<longleftrightarrow> b \<in> {9, 10, 12, 13, 32}"

definition pem_contents :: "'t auth_libs \<Rightarrow> bytes \<Rightarrow> error + bytes" where
  "pem_contents libs data =
     bindE (map_err (\<lambda>e. ''invalid built-in trust anchor: '' @ e) (lib_parse_pem libs data)) (\<lambda>(remaining, contents).
     bindE (ensure (list_all is_ascii_whitespace remaining) (auth_error ''trailing data after built-in trust anchor'')) (\<lambda>_.
       Inr contents))"

definition unix_time_seconds :: "system_time \<Rightarrow> error + int" where
  "unix_time_seconds now =
     (if now < 0 then Inl (auth_error ''system clock predates the Unix epoch'')
      else let secs = now div 1000000000
           in if secs < 2 ^ 63 then Inr secs else Inl (auth_error ''system clock is out of range''))"

definition verify_tls_certificate_lifetime_at :: "'t auth_libs \<Rightarrow> bytes \<Rightarrow> int \<Rightarrow> error + unit" where
  "verify_tls_certificate_lifetime_at libs der now =
     bindE (parse_certificate libs der ''TLS peer certificate'') (\<lambda>cert.
     bindE (ensure (\<not> now < x_not_before cert) (auth_error ''TLS peer certificate is not valid yet'')) (\<lambda>_.
     bindE (ensure (\<not> x_not_after cert < now) (auth_error ''TLS peer certificate has expired'')) (\<lambda>_.
     bindE (ensure (0 \<le> x_not_after cert - now) (auth_error ''invalid TLS peer certificate lifetime'')) (\<lambda>_.
       ensure (\<not> int MAX_TLS_CERTIFICATE_LIFETIME < x_not_after cert - now)
         (auth_error ''TLS peer certificate remains valid for longer than four days'')))))"

definition verify_tls_certificate_lifetime :: "'t auth_libs \<Rightarrow> (reading \<Rightarrow> system_time) \<Rightarrow> bytes \<Rightarrow> error + unit" where
  "verify_tls_certificate_lifetime libs clock der =
     bindE (unix_time_seconds (clock TlsReading)) (verify_tls_certificate_lifetime_at libs der)"

definition verify_sender_nonce :: "bytes option \<Rightarrow> bytes \<Rightarrow> error + unit" where
  "verify_sender_nonce received expected =
     ensure (received = Some expected) (auth_error ''receiver returned a different sender nonce'')"

definition auth_signature_input :: "bytes \<Rightarrow> bytes \<Rightarrow> bytes" where
  "auth_signature_input nonce tls_peer_certificate = nonce @ tls_peer_certificate"

record verified_credential =
  vc_leaf_public_key :: bytes
  vc_certificates :: "bytes list"
  vc_audio_only :: bool

definition validate_signing_key :: "x509 \<Rightarrow> string \<Rightarrow> error + unit" where
  "validate_signing_key cert description =
     bindE (map_err (\<lambda>e. ''invalid '' @ description @ '' public key: '' @ e) (x_key_size cert)) (\<lambda>size.
     bindE (ensure (\<not> size < 2048) (auth_error (description @ '' RSA public key is smaller than 2048 bits''))) (\<lambda>_.
     bindE (map_err (\<lambda>e. ''invalid '' @ description @ '' key usage: '' @ e) (x_key_usage cert)) (\<lambda>usage.
       ensure (usage \<noteq> Some False) (auth_error (description @ '' certificate cannot sign authentication data'')))))"

definition has_audio_only_policy :: "x509 \<Rightarrow> bool" where
  "has_audio_only_policy cert =
     list_ex (\<lambda>e. case e of CertificatePolicies ids \<Rightarrow> list_ex (\<lambda>i. i = AUDIO_ONLY_POLICY_OID) ids | OtherExtension \<Rightarrow> False)
       (x_extensions cert)"

primrec map_all :: "('a \<Rightarrow> 'e + 'b) \<Rightarrow> 'a list \<Rightarrow> 'e + 'b list" where
  "map_all f [] = Inr []"
| "map_all f (x # xs) = bindE (f x) (\<lambda>y. bindE (map_all f xs) (\<lambda>ys. Inr (y # ys)))"

fun position :: "('a \<Rightarrow> bool) \<Rightarrow> 'a list \<Rightarrow> nat option" where
  "position P [] = None"
| "position P (x # xs) = (if P x then Some 0 else map_option Suc (position P xs))"

definition trusted_root_der :: "'t \<Rightarrow> 't list \<Rightarrow> bytes list \<Rightarrow> error + bytes" where
  "trusted_root_der anchor roots root_der =
     ok_or (Option.bind (position (\<lambda>r. r = anchor) roots) (\<lambda>i. if i < length root_der then Some (root_der ! i) else None))
       (auth_error ''verified path used an unknown trust anchor'')"

primrec any_audio_only :: "'t auth_libs \<Rightarrow> string \<Rightarrow> bytes list \<Rightarrow> bool \<Rightarrow> error + bool" where
  "any_audio_only libs description [] restricted = Inr restricted"
| "any_audio_only libs description (der # ders) restricted =
     bindE (parse_certificate libs der description) (\<lambda>cert.
       any_audio_only libs description ders (restricted \<or> has_audio_only_policy cert))"

definition verify_chain ::
  "'t auth_libs \<Rightarrow> system_time \<Rightarrow> bytes \<Rightarrow> bytes list \<Rightarrow> bytes list \<Rightarrow> string \<Rightarrow> error + verified_credential" where
  "verify_chain libs now leaf intermediates root_der description =
     bindE (map_err (\<lambda>e. ''invalid '' @ description @ '' certificate: '' @ e) (lib_end_entity libs leaf)) (\<lambda>_.
     bindE (map_err (\<lambda>e. ''invalid built-in trust anchor: '' @ e) (map_all (lib_anchor libs) root_der)) (\<lambda>roots.
     bindE (unix_time_seconds now) (\<lambda>secs.
     bindE (map_err (\<lambda>e. ''untrusted '' @ description @ '' certificate chain: '' @ e)
              (lib_verify_path libs leaf roots intermediates (nat secs))) (\<lambda>(path, anchor).
     bindE (parse_certificate libs leaf description) (\<lambda>leaf_x509.
     bindE (validate_signing_key leaf_x509 description) (\<lambda>_.
     bindE (trusted_root_der anchor roots root_der) (\<lambda>trusted_root.
       let certificates = leaf # path @ [trusted_root]
       in bindE (any_audio_only libs description certificates False) (\<lambda>audio.
            Inr \<lparr>vc_leaf_public_key = x_subject_public_key leaf_x509, vc_certificates = certificates,
              vc_audio_only = audio\<rparr>))))))))"

definition verify_device_credential_chain ::
  "'t auth_libs \<Rightarrow> (reading \<Rightarrow> system_time) \<Rightarrow> bytes \<Rightarrow> bytes list \<Rightarrow> error + verified_credential" where
  "verify_device_credential_chain libs clock leaf intermediates =
     bindE (pem_contents libs (cast_root_ca_pem libs)) (\<lambda>cast_root.
     bindE (pem_contents libs (eureka_root_ca_pem libs)) (\<lambda>eureka_root.
       verify_chain libs (clock ChainReading) leaf intermediates [cast_root, eureka_root] ''device credential''))"

fun auth_verification_algorithm :: "signature_algorithm \<Rightarrow> hash_algorithm \<Rightarrow> error + verification_algorithm" where
  "auth_verification_algorithm Pkcs1V15 Sha1 = Inr RsaPkcs1Sha1"
| "auth_verification_algorithm Pkcs1V15 Sha256 = Inr RsaPkcs1Sha256"
| "auth_verification_algorithm Pss Sha256 = Inr RsaPssSha256"
| "auth_verification_algorithm Pss Sha1 = Inl (auth_error ''RSA-PSS with SHA-1 is unsupported'')"

definition verify_auth_signature :: "'t auth_libs \<Rightarrow> auth_response \<Rightarrow> bytes \<Rightarrow> bytes \<Rightarrow> error + unit" where
  "verify_auth_signature libs response public_key signature_input =
     bindE (auth_verification_algorithm (ar_signature_algorithm response) (ar_hash_algorithm response)) (\<lambda>algorithm.
       ensure (lib_verify libs algorithm public_key signature_input (ar_signature response))
         (auth_error ''device credential did not sign the TLS certificate and nonce''))"

subsection \<open>Revocation\<close>

record revocations =
  rv_not_before :: u64
  rv_not_after :: u64
  revoked_public_keys :: "bytes list"
  revoked_serial_ranges :: "(bytes \<times> u64 \<times> u64) list"

definition serial_number_u64 :: "x509 \<Rightarrow> u64 option" where
  "serial_number_u64 cert =
     (let bs = x_raw_serial cert
      in if bs = [] \<or> 8 < length bs \<or> hd bs AND 0x80 \<noteq> 0 then None
         else Some (fold (\<lambda>b v. push_bit 8 v OR ucast b) bs 0))"

text \<open>The body of the loop over the chain, from its root to the leaf.\<close>

definition check_link :: "'t auth_libs \<Rightarrow> revocations \<Rightarrow> bytes list \<Rightarrow> nat \<Rightarrow> error + unit" where
  "check_link libs rv chain i =
     bindE (parse_certificate libs (chain ! i) ''credential chain'') (\<lambda>cert.
       let issuer_hash = lib_sha256 libs (x_spki_raw cert)
       in if issuer_hash \<in> set (revoked_public_keys rv)
          then Inl (auth_error ''receiver credential chain contains a revoked key'')
          else if 0 < i \<and> issuer_hash \<in> fst ` set (revoked_serial_ranges rv)
          then bindE (parse_certificate libs (chain ! (i - 1)) ''credential chain'') (\<lambda>subject_cert.
                 case serial_number_u64 subject_cert of
                   None \<Rightarrow> Inr ()
                 | Some serial \<Rightarrow>
                     ensure (\<not> list_ex (\<lambda>(issuer, first, last). issuer = issuer_hash \<and> first \<le> serial \<and> serial \<le> last)
                         (revoked_serial_ranges rv))
                       (auth_error ''receiver credential certificate serial number is revoked''))
          else Inr ())"

primrec check_links :: "'t auth_libs \<Rightarrow> revocations \<Rightarrow> bytes list \<Rightarrow> nat \<Rightarrow> error + unit" where
  "check_links libs rv chain 0 = Inr ()"
| "check_links libs rv chain (Suc i) = bindE (check_link libs rv chain i) (\<lambda>_. check_links libs rv chain i)"

definition check_chain_at :: "'t auth_libs \<Rightarrow> revocations \<Rightarrow> bytes list \<Rightarrow> u64 \<Rightarrow> error + unit" where
  "check_chain_at libs rv chain now =
     bindE (ensure (\<not> (now < rv_not_before rv \<or> rv_not_after rv < now))
              (auth_error ''receiver supplied an expired revocation list'')) (\<lambda>_.
       check_links libs rv chain (length chain))"

definition check_chain :: "'t auth_libs \<Rightarrow> (reading \<Rightarrow> system_time) \<Rightarrow> revocations \<Rightarrow> bytes list \<Rightarrow> error + unit" where
  "check_chain libs clock rv chain =
     bindE (unix_time_seconds (clock RevocationReading)) (\<lambda>secs. check_chain_at libs rv chain (of_int secs))"

definition parse_range :: "bytes \<Rightarrow> error + bytes \<times> u64 \<times> u64" where
  "parse_range data =
     bindE (parse_fields data) (\<lambda>fs.
     bindE (ok_or (fields_bytes fs 1) (auth_error ''revoked serial range has no issuer hash'')) (\<lambda>issuer.
       let first = unwrap_or (fields_varint fs 2) 0; last = unwrap_or (fields_varint fs 3) 0
       in bindE (ensure (\<not> last < first) (auth_error ''revocation list contains an inverted serial range'')) (\<lambda>_.
            Inr (issuer, first, last))))"

definition parse_and_verify_one_crl :: "'t auth_libs \<Rightarrow> system_time \<Rightarrow> bytes \<Rightarrow> bytes \<Rightarrow> error + revocations" where
  "parse_and_verify_one_crl libs now data crl_root =
     bindE (parse_fields data) (\<lambda>fs.
     bindE (ok_or (fields_bytes fs 1) (auth_error ''revocation list has no signed body'')) (\<lambda>tbs.
     bindE (ok_or (fields_bytes fs 2) (auth_error ''revocation list has no signer certificate'')) (\<lambda>signer.
     bindE (ok_or (fields_bytes fs 3) (auth_error ''revocation list has no signature'')) (\<lambda>crl_signature.
     bindE (verify_chain libs now signer [] [crl_root] ''revocation-list signer'') (\<lambda>verified.
     bindE (ensure (lib_verify libs RsaPkcs1Sha256 (vc_leaf_public_key verified) tbs crl_signature)
              (auth_error ''invalid revocation-list signature'')) (\<lambda>_.
     bindE (parse_certificate libs signer ''revocation-list signer'') (\<lambda>signer_x509.
     bindE (parse_fields tbs) (\<lambda>ts.
     bindE (ensure (unwrap_or (fields_varint ts 1) 0 = 0) (auth_error ''unsupported revocation-list version'')) (\<lambda>_.
     bindE (ensure (0 \<le> x_not_after signer_x509)
              (auth_error ''revocation-list signer has an invalid expiration time'')) (\<lambda>_.
     bindE (map_all parse_range (fields_bytes_all ts 5)) (\<lambda>ranges.
       Inr \<lparr>rv_not_before = unwrap_or (fields_varint ts 2) 0,
         rv_not_after = min (unwrap_or (fields_varint ts 3) 0) (of_int (x_not_after signer_x509)),
         revoked_public_keys = fields_bytes_all ts 4, revoked_serial_ranges = ranges\<rparr>)))))))))))"

fun first_crl ::
  "'t auth_libs \<Rightarrow> (reading \<Rightarrow> system_time) \<Rightarrow> bytes \<Rightarrow> nat \<Rightarrow> bytes list \<Rightarrow> error \<Rightarrow> error + revocations" where
  "first_crl libs clock crl_root n [] last_error = Inl last_error"
| "first_crl libs clock crl_root n (crl # crls) last_error =
     (case parse_and_verify_one_crl libs (clock (CrlSignerReading n)) crl crl_root of
        Inr rv \<Rightarrow> Inr rv
      | Inl e \<Rightarrow> first_crl libs clock crl_root (n + 1) crls e)"

definition parse_and_verify_crl :: "'t auth_libs \<Rightarrow> (reading \<Rightarrow> system_time) \<Rightarrow> bytes \<Rightarrow> error + revocations" where
  "parse_and_verify_crl libs clock data =
     bindE (parse_fields data) (\<lambda>bundle.
     bindE (pem_contents libs (cast_crl_root_ca_pem libs)) (\<lambda>crl_root.
       first_crl libs clock crl_root 0 (fields_bytes_all bundle 1)
         (auth_error ''revocation bundle contained no supported CRL'')))"

subsection \<open>The whole verification\<close>

definition check_revocation ::
  "'t auth_libs \<Rightarrow> (reading \<Rightarrow> system_time) \<Rightarrow> bytes option \<Rightarrow> bytes list \<Rightarrow> error + bool" where
  "check_revocation libs clock crl certificates =
     (case crl of
        None \<Rightarrow> Inr False
      | Some data \<Rightarrow>
          if data = [] then Inr False
          else bindE (parse_and_verify_crl libs clock data) (\<lambda>rv.
                 bindE (check_chain libs clock rv certificates) (\<lambda>_. Inr True)))"

definition verify_challenge_reply ::
  "'t auth_libs \<Rightarrow> (reading \<Rightarrow> system_time) \<Rightarrow> bytes \<Rightarrow> bytes \<Rightarrow> bytes \<Rightarrow> error + device_identity" where
  "verify_challenge_reply libs clock reply nonce tls_peer_certificate =
     bindE (verify_tls_certificate_lifetime libs clock tls_peer_certificate) (\<lambda>_.
     bindE (parse_device_auth_message reply) (\<lambda>response.
     bindE (verify_sender_nonce (ar_sender_nonce response) nonce) (\<lambda>_.
     bindE (verify_device_credential_chain libs clock (ar_client_auth_certificate response)
              (ar_intermediate_certificates response)) (\<lambda>verified.
     bindE (verify_auth_signature libs response (vc_leaf_public_key verified)
              (auth_signature_input nonce tls_peer_certificate)) (\<lambda>_.
     bindE (check_revocation libs clock (ar_crl response) (vc_certificates verified)) (\<lambda>checked.
       Inr \<lparr>certificate_sha256 = lib_sha256 libs (ar_client_auth_certificate response),
         audio_only = vc_audio_only verified, revocation_checked = checked\<rparr>))))))"

end
