(* ===== verification/Auth_Correct.thy ===== *)
theory Auth_Correct
  imports Auth
begin

text \<open>
  What a successful device authentication proves, relative to the libraries it calls, and that
  challenges and replies survive their encoding.
\<close>

subsection \<open>Round trips\<close>

lemma parse_fields_Nil [simp]: "parse_fields [] = Inr []"
  by (subst parse_fields.simps) simp

lemma parse_fields_varint:
  "f \<noteq> 0 \<Longrightarrow> parse_fields (encode_varint_field f v @ ys) = bindE (parse_fields ys) (\<lambda>fs. Inr ((f, Varint v) # fs))"
  using encode_varint_neq_Nil
  by (subst parse_fields.simps) (simp add: take_field_varint, simp add: encode_varint_field_def)

lemma parse_fields_bytes:
  "f \<noteq> 0 \<Longrightarrow> length bs < 2 ^ 64 \<Longrightarrow>
     parse_fields (encode_bytes_field f bs @ ys) = bindE (parse_fields ys) (\<lambda>fs. Inr ((f, Bytes bs) # fs))"
  using encode_varint_neq_Nil
  by (subst parse_fields.simps) (simp add: take_field_bytes, simp add: encode_bytes_field_def)

text \<open>A list of fields as a sender writes it.\<close>

fun encode_field :: "u32 \<times> wire_value \<Rightarrow> bytes" where
  "encode_field (f, Varint v) = encode_varint_field f v"
| "encode_field (f, Bytes bs) = encode_bytes_field f bs"

fun good_field :: "u32 \<times> wire_value \<Rightarrow> bool" where
  "good_field (f, Varint v) = (f \<noteq> 0)"
| "good_field (f, Bytes bs) = (f \<noteq> 0 \<and> length bs < 2 ^ 64)"

lemma parse_encoded_fields: "list_all good_field fs \<Longrightarrow> parse_fields (concat (map encode_field fs)) = Inr fs"
proof (induction fs)
  case (Cons e fs)
  obtain f x where e: "e = (f, x)" by fastforce
  show ?case
  proof (cases x)
    case (Varint v)
    with Cons e show ?thesis by (simp add: parse_fields_varint)
  next
    case (Bytes bs)
    with Cons e show ?thesis by (simp add: parse_fields_bytes)
  qed
qed simp

lemma length_varint_bits: "unat v < 2 ^ (7 * Suc k) \<Longrightarrow> length (encode_varint v) \<le> Suc k"
proof (induction k arbitrary: v)
  case 0
  then have "v < 0x80" by (simp add: word_less_nat_alt)
  then show ?case by (simp add: encode_varint.simps [of v])
next
  case (Suc k)
  have "unat (drop_bit 7 v) = unat v div 128" by (simp add: drop_bit_eq_div unat_div)
  also have "\<dots> < 2 ^ (7 * Suc k)"
    using Suc.prems by (simp add: less_mult_imp_div_less power_add mult.commute)
  finally show ?case using Suc.IH [of "drop_bit 7 v"] by (simp add: encode_varint.simps [of v] Let_def)
qed

lemma length_varint: "length (encode_varint v) \<le> 10"
proof -
  have "unat v < 2 ^ 64" using unat_lt [of v] by simp
  also have "(2 :: nat) ^ 64 \<le> 2 ^ (7 * Suc 9)" by simp
  finally show ?thesis using length_varint_bits [of v 9] by simp
qed

lemma length_fields: "length (encode_varint_field f v) \<le> 20" "length (encode_bytes_field f bs) \<le> 20 + length bs"
  using length_varint [of "push_bit 3 (ucast f)"] length_varint [of v] length_varint [of "push_bit 3 (ucast f) OR 2"]
    length_varint [of "of_nat (length bs)"]
  by (simp_all add: encode_varint_field_def encode_bytes_field_def)

lemma challenge_fields:
  assumes "\<And>bs. length (fill_bytes bs) = length bs"
  shows "\<exists>challenge. parse_fields (ch_payload (create_challenge fill_bytes)) = Inr [(1, Bytes challenge)] \<and>
    parse_fields challenge = Inr [(1, Varint 1), (2, Bytes (ch_nonce (create_challenge fill_bytes))), (3, Varint 1)] \<and>
    length (ch_nonce (create_challenge fill_bytes)) = NONCE_SIZE"
proof -
  let ?n = "fill_bytes (replicate NONCE_SIZE 0)"
  let ?fs = "[(1, Varint 1), (2, Bytes ?n), (3, Varint 1)]"
  let ?c = "concat (map encode_field ?fs)"
  have n: "length ?n = 16" using assms by (simp add: NONCE_SIZE_def)
  then have "length ?c < 2 ^ 64"
    using length_fields(1) [of 1 1] length_fields(2) [of 2 ?n] length_fields(1) [of 3 1] by simp
  then have "parse_fields (concat (map encode_field [(1, Bytes ?c)])) = Inr [(1, Bytes ?c)]" by (intro parse_encoded_fields) simp
  moreover have "parse_fields ?c = Inr ?fs" using n by (intro parse_encoded_fields) simp
  ultimately show ?thesis
    using n by (intro exI [of _ ?c]) (simp add: create_challenge_def Let_def auth_encode_fields_eq NONCE_SIZE_def)
qed

subsection \<open>The chain\<close>

lemma map_err_Inr [simp]: "map_err f x = Inr a \<longleftrightarrow> x = Inr a"
  by (auto simp: map_err_def split: sum.splits)

lemma unix_time_Inr: "unix_time_seconds now = Inr secs \<Longrightarrow> secs = now div 1000000000 \<and> 0 \<le> secs"
  by (auto simp: unix_time_seconds_def Let_def pos_imp_zdiv_nonneg_iff split: if_splits)

lemma position_Some: "position P xs = Some i \<Longrightarrow> i < length xs \<and> P (xs ! i)"
  by (induction xs arbitrary: i) (auto split: if_splits)

lemma map_all_nth: "map_all f xs = Inr ys \<Longrightarrow> length ys = length xs \<and> (\<forall>i<length xs. f (xs ! i) = Inr (ys ! i))"
proof (induction xs arbitrary: ys)
  case (Cons x xs)
  then obtain y zs where "f x = Inr y" "map_all f xs = Inr zs" "ys = y # zs" by (auto simp: bindE_eq_Inr_iff)
  with Cons.IH show ?case by (auto simp: less_Suc_eq_0_disj)
qed simp

lemma trusted_root_known:
  assumes "trusted_root_der anchor roots ders = Inr root" and "map_all (lib_anchor libs) ders = Inr roots"
  shows "root \<in> set ders \<and> lib_anchor libs root = Inr anchor"
proof -
  obtain i where i: "position (\<lambda>r. r = anchor) roots = Some i" "i < length ders" "root = ders ! i"
    using assms(1) by (auto simp: trusted_root_der_def bind_eq_Some_conv split: if_splits)
  with position_Some [OF i(1)] map_all_nth [OF assms(2)] show ?thesis by auto
qed

lemma any_audio_only_Inr:
  "any_audio_only libs description ders r = Inr audio \<Longrightarrow>
     (\<forall>der\<in>set ders. \<exists>x. parse_certificate libs der description = Inr x) \<and>
     (audio \<longleftrightarrow> r \<or> (\<exists>der\<in>set ders. \<exists>x. parse_certificate libs der description = Inr x \<and> has_audio_only_policy x))"
proof (induction ders arbitrary: r)
  case (Cons der ders)
  then obtain x where "parse_certificate libs der description = Inr x"
    "any_audio_only libs description ders (r \<or> has_audio_only_policy x) = Inr audio" by (auto simp: bindE_eq_Inr_iff)
  with Cons.IH show ?case by fastforce
qed simp

text \<open>What a verified chain is: a path the library accepts from the leaf to one of the roots.\<close>

definition trusted_chain :: "'t auth_libs \<Rightarrow> int \<Rightarrow> bytes \<Rightarrow> bytes list \<Rightarrow> bytes list \<Rightarrow> string \<Rightarrow> verified_credential \<Rightarrow> bool" where
  "trusted_chain libs secs leaf intermediates root_der description v \<longleftrightarrow>
     (\<exists>roots path anchor root cert.
        map_all (lib_anchor libs) root_der = Inr roots \<and>
        lib_verify_path libs leaf roots intermediates (nat secs) = Inr (path, anchor) \<and>
        root \<in> set root_der \<and> lib_anchor libs root = Inr anchor \<and>
        vc_certificates v = leaf # path @ [root] \<and>
        parse_certificate libs leaf description = Inr cert \<and> vc_leaf_public_key v = x_subject_public_key cert \<and>
        (\<exists>size. x_key_size cert = Inr size \<and> 2048 \<le> size) \<and> x_key_usage cert \<noteq> Inr (Some False) \<and>
        (vc_audio_only v \<longleftrightarrow> (\<exists>der\<in>set (vc_certificates v). \<exists>x.
           parse_certificate libs der description = Inr x \<and> has_audio_only_policy x)))"

lemma verify_chain_trusted:
  assumes "verify_chain libs now leaf intermediates root_der description = Inr v"
  shows "trusted_chain libs (now div 1000000000) leaf intermediates root_der description v"
proof -
  obtain roots secs path anchor cert root audio where
    *: "map_all (lib_anchor libs) root_der = Inr roots" "unix_time_seconds now = Inr secs"
      "lib_verify_path libs leaf roots intermediates (nat secs) = Inr (path, anchor)"
      "parse_certificate libs leaf description = Inr cert" "validate_signing_key cert description = Inr ()"
      "trusted_root_der anchor roots root_der = Inr root"
      "any_audio_only libs description (leaf # path @ [root]) False = Inr audio"
      "v = \<lparr>vc_leaf_public_key = x_subject_public_key cert, vc_certificates = leaf # path @ [root], vc_audio_only = audio\<rparr>"
    using assms by (auto simp: verify_chain_def bindE_eq_Inr_iff Let_def simp del: any_audio_only.simps)
  have "(\<exists>size. x_key_size cert = Inr size \<and> 2048 \<le> size) \<and> x_key_usage cert \<noteq> Inr (Some False)"
    using *(5) by (auto simp: validate_signing_key_def bindE_eq_Inr_iff)
  with * trusted_root_known [OF *(6, 1)] any_audio_only_Inr [OF *(7)] unix_time_Inr [OF *(2)] show ?thesis
    unfolding trusted_chain_def by (intro exI [of _ roots] exI [of _ path] exI [of _ anchor] exI [of _ root] exI [of _ cert]) simp
qed

subsection \<open>Soundness\<close>

definition fresh_tls_certificate :: "'t auth_libs \<Rightarrow> int \<Rightarrow> bytes \<Rightarrow> bool" where
  "fresh_tls_certificate libs secs der \<longleftrightarrow>
     (\<exists>cert. parse_certificate libs der ''TLS peer certificate'' = Inr cert \<and>
        x_not_before cert \<le> secs \<and> secs \<le> x_not_after cert \<and> x_not_after cert \<le> secs + 4 * 86400)"

lemma verify_tls_lifetime_fresh:
  assumes "verify_tls_certificate_lifetime libs clock der = Inr u"
  shows "fresh_tls_certificate libs (clock TlsReading div 1000000000) der"
proof -
  obtain secs where "unix_time_seconds (clock TlsReading) = Inr secs"
    "verify_tls_certificate_lifetime_at libs der secs = Inr u"
    using assms by (auto simp: verify_tls_certificate_lifetime_def bindE_eq_Inr_iff)
  with unix_time_Inr [of "clock TlsReading" secs] show ?thesis
    by (auto simp: verify_tls_certificate_lifetime_at_def bindE_eq_Inr_iff fresh_tls_certificate_def
        MAX_TLS_CERTIFICATE_LIFETIME_def)
qed

lemma verify_challenge_reply_Inr:
  assumes "verify_challenge_reply libs clock reply nonce tls = Inr identity"
  obtains response verified cast_root eureka_root where
    "fresh_tls_certificate libs (clock TlsReading div 1000000000) tls" "parse_device_auth_message reply = Inr response"
    "ar_sender_nonce response = Some nonce"
    "pem_contents libs (cast_root_ca_pem libs) = Inr cast_root" "pem_contents libs (eureka_root_ca_pem libs) = Inr eureka_root"
    "trusted_chain libs (clock ChainReading div 1000000000) (ar_client_auth_certificate response)
       (ar_intermediate_certificates response) [cast_root, eureka_root] ''device credential'' verified"
    "verify_auth_signature libs response (vc_leaf_public_key verified) (nonce @ tls) = Inr ()"
    "check_revocation libs clock (ar_crl response) (vc_certificates verified) = Inr (revocation_checked identity)"
    "certificate_sha256 identity = lib_sha256 libs (ar_client_auth_certificate response)"
    "audio_only identity = vc_audio_only verified"
proof -
  obtain response verified checked where
    *: "verify_tls_certificate_lifetime libs clock tls = Inr ()" "parse_device_auth_message reply = Inr response"
      "verify_sender_nonce (ar_sender_nonce response) nonce = Inr ()"
      "verify_device_credential_chain libs clock (ar_client_auth_certificate response)
         (ar_intermediate_certificates response) = Inr verified"
      "verify_auth_signature libs response (vc_leaf_public_key verified) (auth_signature_input nonce tls) = Inr ()"
      "check_revocation libs clock (ar_crl response) (vc_certificates verified) = Inr checked"
      "identity = \<lparr>certificate_sha256 = lib_sha256 libs (ar_client_auth_certificate response),
         audio_only = vc_audio_only verified, revocation_checked = checked\<rparr>"
    using assms by (auto simp: verify_challenge_reply_def bindE_eq_Inr_iff)
  obtain cast_root eureka_root where roots: "pem_contents libs (cast_root_ca_pem libs) = Inr cast_root"
    "pem_contents libs (eureka_root_ca_pem libs) = Inr eureka_root"
    "verify_chain libs (clock ChainReading) (ar_client_auth_certificate response)
       (ar_intermediate_certificates response) [cast_root, eureka_root] ''device credential'' = Inr verified"
    using *(4) by (auto simp: verify_device_credential_chain_def bindE_eq_Inr_iff)
  show thesis
    by (rule that [OF verify_tls_lifetime_fresh [OF *(1)] *(2) _ roots(1, 2) verify_chain_trusted [OF roots(3)]])
      (use * in \<open>simp_all add: verify_sender_nonce_def auth_signature_input_def\<close>)
qed

text \<open>
  C3. Authentication is sound, relative to the libraries. When a reply is accepted, the TLS
  certificate of the connection is within its validity and expires within four days; the reply
  returns the nonce of this very challenge; the path library accepted a chain from the device
  certificate of the reply to one of the two built-in roots, for the time of the check; the
  device key has at least 2048 bits and may sign; that key signed the nonce followed by the TLS
  certificate, under one of the three supported algorithms; and the identity that is returned
  has the fingerprint of that certificate and is restricted to audio exactly if a certificate of
  the chain carries the audio-only policy.
\<close>

theorem authentication_sound:
  assumes "verify_challenge_reply libs clock reply nonce tls = Inr identity"
  shows "\<exists>response cast_root eureka_root verified algorithm.
    fresh_tls_certificate libs (clock TlsReading div 1000000000) tls \<and>
    parse_device_auth_message reply = Inr response \<and> ar_sender_nonce response = Some nonce \<and>
    pem_contents libs (cast_root_ca_pem libs) = Inr cast_root \<and>
    pem_contents libs (eureka_root_ca_pem libs) = Inr eureka_root \<and>
    trusted_chain libs (clock ChainReading div 1000000000) (ar_client_auth_certificate response)
      (ar_intermediate_certificates response) [cast_root, eureka_root] ''device credential'' verified \<and>
    lib_verify libs algorithm (vc_leaf_public_key verified) (nonce @ tls) (ar_signature response) \<and>
    auth_verification_algorithm (ar_signature_algorithm response) (ar_hash_algorithm response) = Inr algorithm \<and>
    certificate_sha256 identity = lib_sha256 libs (ar_client_auth_certificate response) \<and>
    audio_only identity = vc_audio_only verified"
proof -
  obtain response verified cast_root eureka_root where
    *: "fresh_tls_certificate libs (clock TlsReading div 1000000000) tls" "parse_device_auth_message reply = Inr response"
    "ar_sender_nonce response = Some nonce"
    "pem_contents libs (cast_root_ca_pem libs) = Inr cast_root" "pem_contents libs (eureka_root_ca_pem libs) = Inr eureka_root"
    "trusted_chain libs (clock ChainReading div 1000000000) (ar_client_auth_certificate response)
       (ar_intermediate_certificates response) [cast_root, eureka_root] ''device credential'' verified"
    "verify_auth_signature libs response (vc_leaf_public_key verified) (nonce @ tls) = Inr ()"
    "certificate_sha256 identity = lib_sha256 libs (ar_client_auth_certificate response)"
    "audio_only identity = vc_audio_only verified"
    using assms by (rule verify_challenge_reply_Inr)
  from *(7) obtain algorithm where
    "auth_verification_algorithm (ar_signature_algorithm response) (ar_hash_algorithm response) = Inr algorithm"
    "lib_verify libs algorithm (vc_leaf_public_key verified) (nonce @ tls) (ar_signature response)"
    by (auto simp: verify_auth_signature_def bindE_eq_Inr_iff)
  with * show ?thesis by blast
qed

subsection \<open>Revocation\<close>

lemma check_links_all: "check_links libs rv chain n = Inr u \<longleftrightarrow> (\<forall>i<n. check_link libs rv chain i = Inr ())"
  by (induction n) (auto simp: bindE_eq_Inr_iff less_Suc_eq)

definition unrevoked :: "'t auth_libs \<Rightarrow> revocations \<Rightarrow> bytes list \<Rightarrow> nat \<Rightarrow> bool" where
  "unrevoked libs rv chain i \<longleftrightarrow>
     (\<exists>cert. parse_certificate libs (chain ! i) ''credential chain'' = Inr cert \<and>
        lib_sha256 libs (x_spki_raw cert) \<notin> set (revoked_public_keys rv) \<and>
        (\<forall>issued serial first last. 0 < i \<longrightarrow>
           parse_certificate libs (chain ! (i - 1)) ''credential chain'' = Inr issued \<longrightarrow>
           serial_number_u64 issued = Some serial \<longrightarrow>
           (lib_sha256 libs (x_spki_raw cert), first, last) \<in> set (revoked_serial_ranges rv) \<longrightarrow>
           \<not> (first \<le> serial \<and> serial \<le> last)))"

lemma check_link_unrevoked:
  assumes "check_link libs rv chain i = Inr u"
  shows "unrevoked libs rv chain i"
proof -
  obtain cert where cert: "parse_certificate libs (chain ! i) ''credential chain'' = Inr cert"
    using assms by (auto simp: check_link_def bindE_eq_Inr_iff)
  let ?h = "lib_sha256 libs (x_spki_raw cert)"
  have key: "?h \<notin> set (revoked_public_keys rv)"
    using assms cert by (auto simp: check_link_def Let_def split: if_splits)
  have "\<not> (first \<le> serial \<and> serial \<le> last)"
    if c: "0 < i" "parse_certificate libs (chain ! (i - 1)) ''credential chain'' = Inr issued"
      "serial_number_u64 issued = Some serial" "(?h, first, last) \<in> set (revoked_serial_ranges rv)" for issued serial first last
  proof -
    have "?h \<in> fst ` set (revoked_serial_ranges rv)" using c(4) by (rule image_eqI [rotated]) simp
    with assms cert key c(1-3)
    have "\<not> list_ex (\<lambda>(issuer, first, last). issuer = ?h \<and> first \<le> serial \<and> serial \<le> last) (revoked_serial_ranges rv)"
      by (simp add: check_link_def Let_def)
    with c(4) show ?thesis by (auto simp: list_ex_iff)
  qed
  with cert key show ?thesis unfolding unrevoked_def by blast
qed

lemma first_crl_verified:
  "first_crl libs clock crl_root n crls e = Inr rv \<Longrightarrow>
     \<exists>crl\<in>set crls. \<exists>k. parse_and_verify_one_crl libs (clock (CrlSignerReading k)) crl crl_root = Inr rv"
  by (induction libs clock crl_root n crls e rule: first_crl.induct) (auto split: sum.splits)

text \<open>A revocation list that counts: signed by a key that chains to the built-in revocation root.\<close>

definition trusted_crl :: "'t auth_libs \<Rightarrow> revocations \<Rightarrow> bool" where
  "trusted_crl libs rv \<longleftrightarrow>
     (\<exists>crl_root secs signer verified tbs sig ts.
        pem_contents libs (cast_crl_root_ca_pem libs) = Inr crl_root \<and>
        trusted_chain libs secs signer [] [crl_root] ''revocation-list signer'' verified \<and>
        lib_verify libs RsaPkcs1Sha256 (vc_leaf_public_key verified) tbs sig \<and>
        parse_fields tbs = Inr ts \<and> revoked_public_keys rv = fields_bytes_all ts 4 \<and>
        map_all parse_range (fields_bytes_all ts 5) = Inr (revoked_serial_ranges rv) \<and>
        rv_not_before rv = unwrap_or (fields_varint ts 2) 0 \<and> rv_not_after rv \<le> unwrap_or (fields_varint ts 3) 0)"

lemma one_crl_trusted:
  assumes "parse_and_verify_one_crl libs now data crl_root = Inr rv"
    and "pem_contents libs (cast_crl_root_ca_pem libs) = Inr crl_root"
  shows "trusted_crl libs rv"
proof -
  from assms(1) obtain tbs signer sig verified u cert ts ranges where
    *: "verify_chain libs now signer [] [crl_root] ''revocation-list signer'' = Inr verified"
    "ensure (lib_verify libs RsaPkcs1Sha256 (vc_leaf_public_key verified) tbs sig)
       (auth_error ''invalid revocation-list signature'') = Inr u" "parse_fields tbs = Inr ts"
    "map_all parse_range (fields_bytes_all ts 5) = Inr ranges"
    "Inr \<lparr>rv_not_before = unwrap_or (fields_varint ts 2) 0,
       rv_not_after = min (unwrap_or (fields_varint ts 3) 0) (of_int (x_not_after (cert :: x509))),
       revoked_public_keys = fields_bytes_all ts 4, revoked_serial_ranges = ranges\<rparr> = (Inr rv :: error + revocations)"
    unfolding parse_and_verify_one_crl_def bindE_eq_Inr_iff
    by blast
  have "lib_verify libs RsaPkcs1Sha256 (vc_leaf_public_key verified) tbs sig" using *(2) by simp
  moreover have "revoked_public_keys rv = fields_bytes_all ts 4" "revoked_serial_ranges rv = ranges"
    "rv_not_before rv = unwrap_or (fields_varint ts 2) 0" "rv_not_after rv \<le> unwrap_or (fields_varint ts 3) 0"
    using *(5) by auto
  ultimately show ?thesis
    unfolding trusted_crl_def using verify_chain_trusted [OF *(1)] *(3, 4) assms(2) by blast
qed


subsection \<open>An example exchange\<close>

definition encode_fields :: "fields \<Rightarrow> bytes" where
  "encode_fields fs = concat (map encode_field fs)"

definition example_cert :: x509 where
  "example_cert = \<lparr>x_not_before = 0, x_not_after = 1000, x_spki_raw = [9], x_subject_public_key = [7], x_key_size = Inr 2048,
     x_key_usage = Inr (Some True), x_extensions = [], x_raw_serial = [1]\<rparr>"

definition example_libs :: "bytes auth_libs" where
  "example_libs = \<lparr>lib_parse_x509 = (\<lambda>_. Inr ([], example_cert)), lib_parse_pem = (\<lambda>d. Inr ([], d)),
     lib_end_entity = (\<lambda>_. Inr ()), lib_anchor = (\<lambda>d. Inr d),
     lib_verify_path = (\<lambda>_ roots intermediates _. Inr (intermediates, hd roots)),
     lib_verify = (\<lambda>_ key message sig. sig = key @ message), lib_sha256 = (\<lambda>bs. bs),
     cast_root_ca_pem = [1], eureka_root_ca_pem = [2], cast_crl_root_ca_pem = [3]\<rparr>"

definition example_tbs :: bytes where "example_tbs = encode_fields [(3, Varint 2000)]"
definition example_crl :: bytes where
  "example_crl = encode_fields [(1, Bytes example_tbs), (2, Bytes [4]), (3, Bytes (7 # example_tbs))]"
definition example_bundle :: bytes where "example_bundle = encode_fields [(1, Bytes example_crl)]"
definition example_response :: bytes where
  "example_response = encode_fields [(1, Bytes [7, 1, 2, 3]), (2, Bytes [5]), (5, Bytes [1, 2]), (6, Varint 1), (7, Bytes example_bundle)]"
definition example_reply :: bytes where "example_reply = encode_fields [(2, Bytes example_response)]"

lemma length_encode_fields: "length (encode_fields fs) \<le> sum_list (map (\<lambda>(_, x). case x of Varint _ \<Rightarrow> 20 | Bytes bs \<Rightarrow> 20 + length bs) fs)"
proof (induction fs)
  case (Cons e fs)
  obtain f x where e: "e = (f, x)" by fastforce
  have "length (encode_field e) \<le> (case x of Varint _ \<Rightarrow> 20 | Bytes bs \<Rightarrow> 20 + length bs)"
    using length_fields e by (cases x) auto
  with Cons e show ?case by (simp add: encode_fields_def)
qed (simp add: encode_fields_def)

lemma example_lengths:
  "length example_tbs \<le> 20" "length example_crl \<le> 102" "length example_bundle \<le> 122" "length example_response \<le> 229"
proof -
  show 1: "length example_tbs \<le> 20"
    using length_encode_fields [of "[(3, Varint 2000)]"] by (simp add: example_tbs_def)
  show 2: "length example_crl \<le> 102"
    using length_encode_fields [of "[(1, Bytes example_tbs), (2, Bytes [4]), (3, Bytes (7 # example_tbs))]"] 1
    by (simp add: example_crl_def)
  show 3: "length example_bundle \<le> 122"
    using length_encode_fields [of "[(1, Bytes example_crl)]"] 2 by (simp add: example_bundle_def)
  show "length example_response \<le> 229"
    using length_encode_fields [of "[(1, Bytes [7, 1, 2, 3]), (2, Bytes [5]), (5, Bytes [1, 2]), (6, Varint 1), (7, Bytes example_bundle)]"] 3
    by (simp add: example_response_def)
qed

lemma example_fields:
  "parse_fields example_tbs = Inr [(3, Varint 2000)]"
  "parse_fields example_crl = Inr [(1, Bytes example_tbs), (2, Bytes [4]), (3, Bytes (7 # example_tbs))]"
  "parse_fields example_bundle = Inr [(1, Bytes example_crl)]"
  "parse_fields example_response =
     Inr [(1, Bytes [7, 1, 2, 3]), (2, Bytes [5]), (5, Bytes [1, 2]), (6, Varint 1), (7, Bytes example_bundle)]"
  "parse_fields example_reply = Inr [(2, Bytes example_response)]"
proof -
  have encoded: "list_all good_field fs \<Longrightarrow> parse_fields (encode_fields fs) = Inr fs" for fs
    by (simp add: encode_fields_def parse_encoded_fields)
  show "parse_fields example_tbs = Inr [(3, Varint 2000)]" unfolding example_tbs_def by (rule encoded) simp
  show "parse_fields example_crl = Inr [(1, Bytes example_tbs), (2, Bytes [4]), (3, Bytes (7 # example_tbs))]"
    unfolding example_crl_def by (rule encoded) (use example_lengths in simp)
  show "parse_fields example_bundle = Inr [(1, Bytes example_crl)]"
    unfolding example_bundle_def by (rule encoded) (use example_lengths in simp)
  show "parse_fields example_response =
     Inr [(1, Bytes [7, 1, 2, 3]), (2, Bytes [5]), (5, Bytes [1, 2]), (6, Varint 1), (7, Bytes example_bundle)]"
    unfolding example_response_def by (rule encoded) (use example_lengths in simp)
  show "parse_fields example_reply = Inr [(2, Bytes example_response)]"
    unfolding example_reply_def by (rule encoded) (use example_lengths in simp)
qed

definition example_auth_response :: auth_response where
  "example_auth_response = \<lparr>ar_signature = [7, 1, 2, 3], ar_client_auth_certificate = [5], ar_intermediate_certificates = [],
     ar_signature_algorithm = Pkcs1V15, ar_sender_nonce = Some [1, 2], ar_hash_algorithm = Sha256, ar_crl = Some example_bundle\<rparr>"

lemma example_message: "parse_device_auth_message example_reply = Inr example_auth_response"
  by (simp add: parse_device_auth_message_def example_fields fields_bytes_def parse_auth_response_def fields_varint_def
      fields_bytes_all_def List.map_filter_def unwrap_or_def signature_algorithm_from_wire_def hash_algorithm_from_wire_def
      example_auth_response_def)

lemma example_parse_certificate: "parse_certificate example_libs der description = Inr example_cert"
  by (simp add: parse_certificate_def example_libs_def map_err_def)

lemma example_pem: "pem_contents example_libs d = Inr d"
  by (simp add: pem_contents_def example_libs_def map_err_def)

lemma example_chain:
  "verify_chain example_libs 0 leaf [] (r # rs) description =
     Inr \<lparr>vc_leaf_public_key = [7], vc_certificates = [leaf, r], vc_audio_only = False\<rparr>"
proof -
  have "map_all (lib_anchor example_libs) ds = Inr ds" for ds by (induction ds) (simp_all add: example_libs_def)
  moreover have "validate_signing_key example_cert description = Inr ()"
    by (simp add: validate_signing_key_def example_cert_def map_err_def)
  moreover have "\<not> has_audio_only_policy example_cert" by (simp add: has_audio_only_policy_def example_cert_def)
  moreover have "lib_anchor example_libs d = Inr d" "lib_end_entity example_libs d = Inr ()" "lib_verify_path example_libs l (x # xs) is n = Inr (is, x)"
    for d l x xs "is" n by (simp_all add: example_libs_def)
  ultimately show ?thesis
    by (simp add: verify_chain_def example_parse_certificate unix_time_seconds_def trusted_root_der_def map_err_def)
      (simp add: example_cert_def)
qed

lemma example_crl_accepted:
  "parse_and_verify_crl example_libs (\<lambda>_. 0) example_bundle =
     Inr \<lparr>rv_not_before = 0, rv_not_after = 1000, revoked_public_keys = [], revoked_serial_ranges = []\<rparr>"
proof -
  have "lib_verify example_libs a k m (k @ m)" for a k m by (simp add: example_libs_def)
  from this [of RsaPkcs1Sha256 "[7]" example_tbs] show ?thesis
    by (simp add: parse_and_verify_crl_def example_fields example_pem fields_bytes_all_def List.map_filter_def
        parse_and_verify_one_crl_def fields_bytes_def example_chain example_parse_certificate fields_varint_def unwrap_or_def)
      (simp add: example_cert_def min_def word_le_nat_alt)
qed

lemma example_verified:
  "verify_challenge_reply example_libs (\<lambda>_. 0) example_reply [1, 2] [3] =
     Inr \<lparr>certificate_sha256 = [5], audio_only = False, revocation_checked = True\<rparr>"
proof -
  have "example_bundle \<noteq> []"
    using encode_varint_neq_Nil by (simp add: example_bundle_def encode_fields_def encode_bytes_field_def)
  moreover have "lib_verify example_libs a [7] [1, 2, 3] [7, 1, 2, 3]" for a by (simp add: example_libs_def)
  ultimately show ?thesis
    by (simp add: verify_challenge_reply_def verify_tls_certificate_lifetime_def unix_time_seconds_def
        verify_tls_certificate_lifetime_at_def example_parse_certificate example_message verify_sender_nonce_def
        verify_device_credential_chain_def example_pem example_chain verify_auth_signature_def auth_signature_input_def
        check_revocation_def example_crl_accepted check_chain_def check_chain_at_def check_link_def Let_def
        example_auth_response_def MAX_TLS_CERTIFICATE_LIFETIME_def)
      (simp add: example_cert_def example_libs_def)
qed

theorem authentication_sound_witness:
  "\<exists>verified. trusted_chain example_libs 0 [5] [] [[1], [2]] ''device credential'' verified \<and>
     lib_verify example_libs RsaPkcs1Sha256 (vc_leaf_public_key verified) [1, 2, 3] [7, 1, 2, 3]"
  using authentication_sound [OF example_verified]
  by (auto simp: example_message example_auth_response_def example_pem) (auto simp: example_libs_def)


end
