(* ===== verification/Setup.thy ===== *)
theory Setup
  imports Byte_Source Wire Json Text Unicode Event_Loop
begin

text \<open>
  The client of a receiver's setup endpoint (\<open>src/setup.rs\<close>): the request, reading an HTTP
  response of limited size from the connection, both ways of delimiting its body, and the
  checks of the metadata. The HTTP header parser, the derived JSON deserialiser, TCP, TLS and
  the text of socket addresses are parameters.
\<close>

definition SETUP_PORT :: u16 where "SETUP_PORT = 8443"
definition SETUP_PATH :: string where "SETUP_PATH = ''/setup/eureka_info?params=device_info,name''"
definition MAX_RESPONSE_BYTES :: nat where "MAX_RESPONSE_BYTES = 64 * 1024"
definition MAX_HEADER_BYTES :: nat where "MAX_HEADER_BYTES = 16 * 1024"
definition SETUP_TEXT_BYTES :: nat where "SETUP_TEXT_BYTES = 256"

definition setup_error :: "string \<Rightarrow> error" where
  "setup_error message = SetupFailed message"

abbreviation fail_setup :: "string \<Rightarrow> ('a, error) result" where
  "fail_setup message \<equiv> Inl (Err (setup_error message))"

record setup_device_info =
  sd_manufacturer :: "string option"
  sd_model_name :: "string option"
  sd_product_name :: "string option"
  sd_ssdp_udn :: "string option"

datatype setup_info_outcome = Available setup_device_info | SetupUnsupported

subsection \<open>The request\<close>

fun setup_endpoint :: "socket_addr \<Rightarrow> socket_addr" where
  "setup_endpoint (V4 ip port) = V4 ip SETUP_PORT"
| "setup_endpoint (V6 ip port flow scope) = V6 ip SETUP_PORT flow scope"

text \<open>The texts of addresses are library functions: of an IPv4 socket address and of an IPv6 address.\<close>

definition host_header :: "(socket_addr \<Rightarrow> string) \<Rightarrow> (128 word \<Rightarrow> string) \<Rightarrow> socket_addr \<Rightarrow> string" where
  "host_header show_v4 show_ip6 endpoint =
     (case endpoint of
        V4 ip port \<Rightarrow> show_v4 endpoint
      | V6 ip port flow scope \<Rightarrow> ''['' @ show_ip6 ip @ '']:'' @ show_nat (unat port))"

definition CRLF_text :: string where "CRLF_text = [CHR 0x0D, CHR 0x0A]"

definition setup_request :: "string \<Rightarrow> string" where
  "setup_request host =
     ''GET '' @ SETUP_PATH @ '' HTTP/1.1'' @ CRLF_text @ ''Host: '' @ host @ CRLF_text @
     ''Accept: application/json'' @ CRLF_text @ ''Connection: close'' @ CRLF_text @ CRLF_text"

subsection \<open>Text of headers and chunk sizes\<close>

definition CRLF :: bytes where "CRLF = [13, 10]"

text \<open>\<open>windows(n).position(== pattern)\<close>\<close>

fun window_position :: "bytes \<Rightarrow> bytes \<Rightarrow> nat option" where
  "window_position pat bs =
     (if take (length pat) bs = pat then Some 0
      else case bs of [] \<Rightarrow> None | _ # rest \<Rightarrow> map_option Suc (window_position pat rest))"

declare window_position.simps [simp del]

fun split_on :: "char \<Rightarrow> string \<Rightarrow> string list" where
  "split_on c [] = [[]]"
| "split_on c (x # xs) =
     (if x = c then [] # split_on c xs
      else case split_on c xs of [] \<Rightarrow> [[x]] | p # ps \<Rightarrow> (x # p) # ps)"

definition lower_char :: "char \<Rightarrow> char" where
  "lower_char c = (let n = of_char c :: nat in if 65 \<le> n \<and> n \<le> 90 then char_of (n + 32) else c)"

definition eq_ignore_ascii_case :: "string \<Rightarrow> string \<Rightarrow> bool" where
  "eq_ignore_ascii_case a b \<longleftrightarrow> map lower_char a = map lower_char b"

definition hex_digit_of :: "char \<Rightarrow> nat option" where
  "hex_digit_of c =
     (let n = of_char c :: nat
      in if 48 \<le> n \<and> n \<le> 57 then Some (n - 48)
         else if 97 \<le> n \<and> n \<le> 102 then Some (n - 87)
         else if 65 \<le> n \<and> n \<le> 70 then Some (n - 55)
         else None)"

fun parse_hex_digits :: "nat \<Rightarrow> string \<Rightarrow> nat option" where
  "parse_hex_digits acc [] = Some acc"
| "parse_hex_digits acc (c # cs) =
     (case hex_digit_of c of
        None \<Rightarrow> None
      | Some d \<Rightarrow> if acc * 16 + d < 2 ^ 64 then parse_hex_digits (acc * 16 + d) cs else None)"

text \<open>\<open>usize::from_str_radix(s, 16)\<close>\<close>

definition from_str_radix_16 :: "string \<Rightarrow> nat option" where
  "from_str_radix_16 s =
     (let digits = (if s \<noteq> [] \<and> hd s = CHR ''+'' then tl s else s)
      in if digits = [] then None else parse_hex_digits 0 digits)"

definition chunk_size :: "bytes \<Rightarrow> nat option" where
  "chunk_size line =
     Option.bind (from_utf8 line) (\<lambda>text. from_str_radix_16 (trim (takeWhile (\<lambda>c. c \<noteq> CHR '';'') text)))"

subsection \<open>Headers\<close>

record http_head =
  hh_code :: "nat option"
  hh_headers :: "(string \<times> bytes) list"

datatype head_status = Partial | Complete nat http_head

type_synonym head_parser = "bytes \<Rightarrow> string + head_status"

fun header_value_in :: "(string \<times> bytes) list \<Rightarrow> string \<Rightarrow> string option" where
  "header_value_in [] name = None"
| "header_value_in ((n, v) # hs) name =
     (if eq_ignore_ascii_case n name
      then (case from_utf8 v of Some s \<Rightarrow> Some s | None \<Rightarrow> header_value_in hs name)
      else header_value_in hs name)"

definition header_value :: "http_head \<Rightarrow> string \<Rightarrow> string option" where
  "header_value h name = header_value_in (hh_headers h) name"

definition is_chunked :: "http_head \<Rightarrow> bool" where
  "is_chunked h =
     (case header_value h ''transfer-encoding'' of
        None \<Rightarrow> False
      | Some v \<Rightarrow> list_ex (\<lambda>token. eq_ignore_ascii_case (trim token) ''chunked'') (split_on (CHR '','') v))"

definition content_length :: "string \<Rightarrow> (nat, error) result" where
  "content_length v =
     (case parse_unsigned (2 ^ 64 - 1) (trim v) of
        None \<Rightarrow> fail_setup ''invalid Content-Length header''
      | Some n \<Rightarrow>
          if n > MAX_RESPONSE_BYTES then fail_setup ''response body exceeds the size limit'' else Inr n)"

subsection \<open>The extent of a response\<close>

function chunked_length_loop :: "bytes \<Rightarrow> nat \<Rightarrow> (nat option, error) result" where
  "chunked_length_loop encoded offset =
     bindR (sliceR encoded offset (length encoded)) (\<lambda>rest.
     case window_position CRLF rest of
       None \<Rightarrow> Inr None
     | Some line_end \<Rightarrow>
         if line_end > 128 then fail_setup ''chunk-size line exceeds the limit''
         else
           (case chunk_size (take line_end rest) of
              None \<Rightarrow> fail_setup ''invalid chunk size''
            | Some n \<Rightarrow>
                let offset1 = offset + (line_end + 2)
                in if n = 0 then
                     bindR (sliceR encoded offset1 (length encoded)) (\<lambda>trailers.
                       if take 2 trailers = CRLF then Inr (Some (offset1 + 2))
                       else Inr (map_option (\<lambda>k. offset1 + k + 4) (window_position (CRLF @ CRLF) trailers)))
                   else if n > MAX_RESPONSE_BYTES then fail_setup ''response body exceeds the size limit''
                   else if offset1 + (n + 2) > length encoded then Inr None
                   else if get_range encoded (offset1 + n) (offset1 + n + 2) \<noteq> Some CRLF
                   then fail_setup ''response chunk omitted its terminator''
                   else let offset2 = offset1 + (n + 2)
                        in if offset2 > MAX_RESPONSE_BYTES then fail_setup ''response body exceeds the size limit''
                           else chunked_length_loop encoded offset2))"
  by pat_completeness auto

termination
  by (relation "measure (\<lambda>(encoded, offset). length encoded + 1 - offset)") (auto simp: not_less)

declare chunked_length_loop.simps [simp del]

definition chunked_body_length :: "bytes \<Rightarrow> (nat option, error) result" where
  "chunked_body_length encoded = chunked_length_loop encoded 0"

definition response_extent :: "head_parser \<Rightarrow> bytes \<Rightarrow> (nat option, error) result" where
  "response_extent parse response =
     (case parse response of
        Inl e \<Rightarrow> fail_setup (''parse HTTP response: '' @ e)
      | Inr Partial \<Rightarrow>
          if length response \<le> MAX_HEADER_BYTES then Inr None else fail_setup ''HTTP headers exceed the limit''
      | Inr (Complete header_length h) \<Rightarrow>
          if header_length > MAX_HEADER_BYTES then fail_setup ''HTTP headers exceed the limit''
          else if is_chunked h then
            bindR (sliceR response header_length (length response)) (\<lambda>body.
            bindR (chunked_body_length body) (\<lambda>n. Inr (map_option (\<lambda>n. header_length + n) n)))
          else
            (case header_value h ''content-length'' of
               Some v \<Rightarrow> bindR (content_length v) (\<lambda>n. Inr (Some (header_length + n)))
             | None \<Rightarrow> Inr None))"

subsection \<open>Reading the response\<close>

text \<open>
  The read loop takes what arrives in reads of at most 8192 bytes. \<open>None\<close> is a loop that still
  waits for more; the timeout around the whole request ends it.
\<close>

lemma read_some_shrinks:
  "read_some n src = Got bs src' \<Longrightarrow> bs \<noteq> [] \<Longrightarrow> length (stream src') < length (stream src)"
  by (induction n src rule: read_some.induct) (auto split: if_splits)

function read_http_loop ::
  "head_parser \<Rightarrow> bytes \<Rightarrow> arrival list \<Rightarrow> (bytes, error) result option" where
  "read_http_loop parse response src =
     (case read_some 8192 src of
        Blocked \<Rightarrow> None
      | ReadError e \<Rightarrow> Some (fail_setup (''read response: '' @
          (case e of UnexpectedEof t \<Rightarrow> t | InvalidData t \<Rightarrow> t | OtherIo t \<Rightarrow> t)))
      | Got bs src' \<Rightarrow>
          if bs = [] then Some (Inr response)
          else if length response + length bs > MAX_HEADER_BYTES + MAX_RESPONSE_BYTES
          then Some (fail_setup ''HTTP response exceeds the size limit'')
          else let response = response @ bs
               in case response_extent parse response of
                    Inl f \<Rightarrow> Some (Inl f)
                  | Inr extent \<Rightarrow>
                      (case extent of
                         Some n \<Rightarrow>
                           if length response \<ge> n then Some (Inr (take n response))
                           else read_http_loop parse response src'
                       | None \<Rightarrow> read_http_loop parse response src'))"
  by pat_completeness auto

termination
  by (relation "measure (\<lambda>(parse, response, src). length (stream src))") (auto dest: read_some_shrinks)

declare read_http_loop.simps [simp del]

definition read_http_response :: "head_parser \<Rightarrow> arrival list \<Rightarrow> (bytes, error) result option" where
  "read_http_response parse src = read_http_loop parse [] src"

subsection \<open>Decoding the response\<close>

function decode_chunks :: "bytes \<Rightarrow> bytes \<Rightarrow> (bytes, error) result" where
  "decode_chunks encoded decoded =
     (case window_position CRLF encoded of
        None \<Rightarrow> fail_setup ''incomplete chunk-size line''
      | Some line_end \<Rightarrow>
          if line_end > 128 then fail_setup ''chunk-size line exceeds the limit''
          else
            (case chunk_size (take line_end encoded) of
               None \<Rightarrow> fail_setup ''invalid chunk size''
             | Some n \<Rightarrow>
                 if line_end + 2 > length encoded then Inl Panic
                 else
                   let rest = drop (line_end + 2) encoded
                   in if n = 0 then Inr decoded
                      else if length decoded + n > MAX_RESPONSE_BYTES
                      then fail_setup ''response body exceeds the size limit''
                      else if n > length rest then fail_setup ''truncated HTTP response chunk''
                      else if get_range rest n (n + 2) \<noteq> Some CRLF
                      then fail_setup ''response chunk omitted its terminator''
                      else decode_chunks (drop (n + 2) rest) (decoded @ take n rest)))"
  by pat_completeness auto

termination
  by (relation "measure (\<lambda>(encoded, decoded). length encoded)") auto

declare decode_chunks.simps [simp del]

definition decode_chunked_body :: "bytes \<Rightarrow> (bytes, error) result" where
  "decode_chunked_body encoded = decode_chunks encoded []"

definition response_body :: "http_head \<Rightarrow> bytes \<Rightarrow> (bytes, error) result" where
  "response_body h body =
     (if is_chunked h then decode_chunked_body body
      else
        case header_value h ''content-length'' of
          Some v \<Rightarrow>
            bindR (content_length v) (\<lambda>n.
              if n \<le> length body then Inr (take n body) else fail_setup ''truncated HTTP response body'')
        | None \<Rightarrow>
            if length body > MAX_RESPONSE_BYTES then fail_setup ''response body exceeds the size limit''
            else Inr body)"

definition bounded_text :: "string \<Rightarrow> string option \<Rightarrow> nat \<Rightarrow> (string option, error) result" where
  "bounded_text field text maximum =
     (case text of
        None \<Rightarrow> Inr None
      | Some t \<Rightarrow>
          let v = trim t
          in if v = [] then Inr None
             else if length v > maximum \<or> list_ex control (utf8_chars v)
             then fail_setup (field @ '' is too long or contains a control character'')
             else Inr (Some v))"

text \<open>The deserialiser gives the optional \<open>device_info\<close> object with its optional texts.\<close>

type_synonym envelope_parser = "bytes \<Rightarrow> string + setup_device_info option"

definition parse_setup_info :: "envelope_parser \<Rightarrow> bytes \<Rightarrow> (setup_device_info, error) result" where
  "parse_setup_info parse_json body =
     (case parse_json body of
        Inl e \<Rightarrow> fail_setup (''parse response JSON: '' @ e)
      | Inr None \<Rightarrow>
          Inr \<lparr>sd_manufacturer = None, sd_model_name = None, sd_product_name = None, sd_ssdp_udn = None\<rparr>
      | Inr (Some info) \<Rightarrow>
          bindR (bounded_text ''manufacturer'' (sd_manufacturer info) SETUP_TEXT_BYTES) (\<lambda>manufacturer.
          bindR (bounded_text ''model_name'' (sd_model_name info) SETUP_TEXT_BYTES) (\<lambda>model_name.
          bindR (bounded_text ''product_name'' (sd_product_name info) SETUP_TEXT_BYTES) (\<lambda>product_name.
          bindR (bounded_text ''ssdp_udn'' (sd_ssdp_udn info) SETUP_TEXT_BYTES) (\<lambda>ssdp_udn.
            Inr \<lparr>sd_manufacturer = manufacturer, sd_model_name = model_name,
                 sd_product_name = product_name, sd_ssdp_udn = ssdp_udn\<rparr>)))))"

definition parse_http_response ::
  "head_parser \<Rightarrow> envelope_parser \<Rightarrow> bytes \<Rightarrow> (setup_info_outcome, error) result" where
  "parse_http_response parse parse_json response =
     (case parse response of
        Inl e \<Rightarrow> fail_setup (''parse HTTP response: '' @ e)
      | Inr Partial \<Rightarrow> fail_setup ''incomplete HTTP response headers''
      | Inr (Complete header_length h) \<Rightarrow>
          if header_length > MAX_HEADER_BYTES then fail_setup ''HTTP headers exceed the limit''
          else
            (case hh_code h of
               None \<Rightarrow> fail_setup ''HTTP response omitted its status''
             | Some status \<Rightarrow>
                 if status \<in> {404, 405, 501} then Inr SetupUnsupported
                 else if \<not> (200 \<le> status \<and> status < 300)
                 then fail_setup (''receiver returned HTTP '' @ show_nat status)
                 else bindR (sliceR response header_length (length response)) (\<lambda>rest.
                      bindR (response_body h rest) (\<lambda>body.
                      bindR (parse_setup_info parse_json body) (\<lambda>info. Inr (Available info))))))"

subsection \<open>The request and its timeout\<close>

record setup_env =
  su_tcp :: "(string + unit) option"
  su_tls :: "(string + unit) option"
  su_write :: "string \<Rightarrow> (string + unit) option"
  su_arrivals :: "arrival list"
  su_show :: "socket_addr \<Rightarrow> string"
  su_show_ip6 :: "128 word \<Rightarrow> string"

text \<open>A step that never ends is \<open>None\<close>; then the timeout ends the request. How the write ends may
  depend on the request text.\<close>

definition setup_step :: "string \<Rightarrow> (string + unit) option \<Rightarrow> (unit, error) result option" where
  "setup_step label s =
     (case s of None \<Rightarrow> None | Some (Inl e) \<Rightarrow> Some (fail_setup (label @ e)) | Some (Inr u) \<Rightarrow> Some (Inr u))"

definition bindW :: "('a, error) result option \<Rightarrow> ('a \<Rightarrow> ('b, error) result option) \<Rightarrow> ('b, error) result option" where
  "bindW m f = (case m of None \<Rightarrow> None | Some (Inl e) \<Rightarrow> Some (Inl e) | Some (Inr a) \<Rightarrow> f a)"

definition query_device_info_inner ::
  "head_parser \<Rightarrow> envelope_parser \<Rightarrow> setup_env \<Rightarrow> socket_addr \<Rightarrow> (setup_info_outcome, error) result option" where
  "query_device_info_inner parse parse_json env endpoint =
     bindW (setup_step (''connect to '' @ su_show env endpoint @ '': '') (su_tcp env)) (\<lambda>_.
     bindW (setup_step (''TLS handshake with '' @ su_show env endpoint @ '': '') (su_tls env)) (\<lambda>_.
     bindW (setup_step ''write request: ''
             (su_write env (setup_request (host_header (su_show env) (su_show_ip6 env) endpoint)))) (\<lambda>_.
     bindW (read_http_response parse (su_arrivals env)) (\<lambda>response.
       Some (parse_http_response parse parse_json response)))))"

definition query_device_info ::
  "head_parser \<Rightarrow> envelope_parser \<Rightarrow> setup_env \<Rightarrow> socket_addr \<Rightarrow> (setup_info_outcome, error) result" where
  "query_device_info parse parse_json env cast_endpoint =
     (let endpoint = setup_endpoint cast_endpoint
      in case query_device_info_inner parse parse_json env endpoint of
           Some r \<Rightarrow> r
         | None \<Rightarrow> fail_setup (''request to '' @ su_show env endpoint @ '' timed out''))"

end
