(* ===== verification/Control_Client.thy ===== *)
theory Control_Client
  imports Control_Runs Device_Info Auth_Correct Event_Loop Answer Offer Setup
begin

text \<open>
  The caller's side of the control channel (\<open>CastConnection\<close> in \<open>src/control/mod.rs\<close>): connecting
  and authenticating, and the operations a caller awaits. An operation is a tree: it returns, or
  it hands a command with a fresh response channel to the control task and goes on with what
  comes back. The network, the TLS library and the deserialiser of answers are parameters.
\<close>

subsection \<open>Asking the control task\<close>

text \<open>What awaiting an answer gives: the command was refused because the task is gone, the
  ten-second timeout elapsed, the task dropped the channel, or the answer is there.\<close>

datatype 'a awaited = Refused | TimedOut | Abandoned | Delivered 'a

datatype 'a client = Return 'a | Ask "nat \<Rightarrow> control_command" "channel_answer awaited \<Rightarrow> 'a client"

primrec bindC :: "'a client \<Rightarrow> ('a \<Rightarrow> 'b client) \<Rightarrow> 'b client" where
  "bindC (Return a) f = f a"
| "bindC (Ask c k) f = Ask c (\<lambda>x. bindC (k x) f)"

definition tryC :: "(error + 'a) client \<Rightarrow> ('a \<Rightarrow> (error + 'b) client) \<Rightarrow> (error + 'b) client" where
  "tryC m f = bindC m (\<lambda>r. case r of Inl e \<Rightarrow> Return (Inl e) | Inr a \<Rightarrow> f a)"

definition await_json_response :: "channel_answer awaited \<Rightarrow> string \<Rightarrow> error + json" where
  "await_json_response a operation =
     (case a of
        TimedOut \<Rightarrow> Inl (ProtocolError (operation @ '' timed out''))
      | Delivered (Answered r) \<Rightarrow> r
      | _ \<Rightarrow> Inl control_closed_error)"

definition receiver_request :: "receiver_operation \<Rightarrow> json option \<Rightarrow> string \<Rightarrow> (error + json) client" where
  "receiver_request operation custom description =
     Ask (ReceiverRequest operation custom) (\<lambda>a. Return (await_json_response a description))"

definition product_info_request :: "product_info_operation \<Rightarrow> bool \<Rightarrow> (error + json option) client" where
  "product_info_request operation timeout_is_unsupported =
     Ask (ProductInfoRequest operation) (\<lambda>a. Return
       (case a of
          TimedOut \<Rightarrow>
            if timeout_is_unsupported then Inr None
            else Inl (ProtocolError (info_message_type operation @ '' timed out''))
        | Delivered (Answered r) \<Rightarrow> map_sum id Some r
        | _ \<Rightarrow> Inl control_closed_error))"

definition send_fire :: "string \<Rightarrow> string \<Rightarrow> json \<Rightarrow> (error + unit) client" where
  "send_fire ns destination v =
     Ask (SendFire ns destination v) (\<lambda>a. Return
       (case a of
          TimedOut \<Rightarrow> Inl (ProtocolError ''control write timed out'')
        | Delivered (Written r) \<Rightarrow> r
        | _ \<Rightarrow> Inl control_closed_error))"

subsection \<open>Operations\<close>

record cast_connection =
  cc_remote_address :: socket_addr
  cc_device_identity :: "device_identity option"

definition require_authenticated_product_info :: "cast_connection \<Rightarrow> error + unit" where
  "require_authenticated_product_info conn =
     ensure (cc_device_identity conn \<noteq> None)
       (AuthenticationFailed ''product information requires an authenticated receiver'')"

definition get_device_info :: "cast_connection \<Rightarrow> (error + authenticated_device_info) client" where
  "get_device_info conn =
     (case require_authenticated_product_info conn of
        Inl e \<Rightarrow> Return (Inl e)
      | Inr _ \<Rightarrow>
          tryC (product_info_request DeviceInfo False) (\<lambda>v. Return
            (bindE (ok_or v (ProtocolError ''GET_DEVICE_INFO returned no response'')) parse_device_info)))"

definition get_eureka_info :: "cast_connection \<Rightarrow> (error + eureka_info_outcome) client" where
  "get_eureka_info conn =
     (case require_authenticated_product_info conn of
        Inl e \<Rightarrow> Return (Inl e)
      | Inr _ \<Rightarrow>
          tryC (product_info_request EurekaInfo True) (\<lambda>v. Return
            (case v of None \<Rightarrow> Inr EurekaUnsupported | Some x \<Rightarrow> parse_eureka_info x)))"

definition get_setup_device_info ::
  "head_parser \<Rightarrow> envelope_parser \<Rightarrow> setup_env \<Rightarrow> cast_connection \<Rightarrow> (setup_info_outcome, error) result" where
  "get_setup_device_info parse parse_json env conn =
     (case require_authenticated_product_info conn of
        Inl e \<Rightarrow> Inl (Err e)
      | Inr _ \<Rightarrow> query_device_info parse parse_json env (cc_remote_address conn))"

definition get_app_availability :: "string \<Rightarrow> (error + app_availability) client" where
  "get_app_availability app_id =
     tryC (receiver_request (Availability app_id) None ''application availability'') (\<lambda>v. Return
       (case Option.bind (Option.bind (json_get v ''availability'') (\<lambda>es. json_get es app_id)) as_str of
          None \<Rightarrow> Inl (ProtocolError (''availability response omitted application '' @ app_id))
        | Some a \<Rightarrow>
            if a = ''APP_AVAILABLE'' then Inr AppAvailable
            else if a = ''APP_UNAVAILABLE'' then Inr AppUnavailable
            else Inl (ProtocolError (''unknown application availability '' @ a))))"

definition receiver_status_request :: "(error + receiver_status) client" where
  "receiver_status_request =
     tryC (receiver_request Status None ''receiver status'') (\<lambda>v. Return (parse_receiver_status v))"

definition set_volume :: "json \<Rightarrow> (error + receiver_status) client" where
  "set_volume volume =
     tryC (receiver_request SetVolume (Some (JObject [(''type'', JString ''SET_VOLUME''), (''volume'', volume)]))
             ''receiver volume update'')
       (\<lambda>v. Return (parse_receiver_status v))"

text \<open>A float is finite and between zero and one: the pattern of a value up to 1.0, or minus zero.\<close>

definition unit_interval :: "u64 \<Rightarrow> bool" where
  "unit_interval level \<longleftrightarrow> level \<le> 0x3FF0000000000000 \<or> level = 0x8000000000000000"

definition set_volume_level :: "u64 \<Rightarrow> (error + receiver_status) client" where
  "set_volume_level level =
     (if \<not> unit_interval level
      then Return (Inl (ProtocolError ''receiver volume level must be finite and in 0.0..=1.0''))
      else set_volume (JObject [(''level'', JFloat level)]))"

definition set_muted :: "bool \<Rightarrow> (error + receiver_status) client" where
  "set_muted muted = set_volume (JObject [(''muted'', JBool muted)])"

definition launch :: "string \<Rightarrow> (error + cast_app) client" where
  "launch app_id =
     tryC (receiver_request (Launch app_id) None ''application launch'') (\<lambda>v.
       case parse_receiver_status v of
         Inl e \<Rightarrow> Return (Inl e)
       | Inr status \<Rightarrow>
           (case find (\<lambda>app. ca_app_id app = app_id) (rs_applications status) of
              None \<Rightarrow> Return (Inl (AppLaunchFailed (''application '' @ app_id @ '' was absent from RECEIVER_STATUS'')))
            | Some app \<Rightarrow>
                tryC (send_fire NS_CONNECTION (ca_transport_id app) (typed ''CONNECT'')) (\<lambda>_. Return (Inr app))))"

definition stop :: "cast_app \<Rightarrow> (error + unit) client" where
  "stop app =
     tryC (send_fire NS_CONNECTION (ca_transport_id app) (typed ''CLOSE'')) (\<lambda>_.
     tryC (receiver_request StopApp
             (Some (JObject [(''type'', JString ''STOP''), (''sessionId'', JString (ca_session_id app))])) ''application stop'')
       (\<lambda>_. Return (Inr ())))"

definition offer_response :: "(json \<Rightarrow> string + answer) \<Rightarrow> json \<Rightarrow> error + answer" where
  "offer_response parse_answer response =
     (if get_str response ''result'' = Some ''error'' then
        Inl (NegotiationFailed (''receiver rejected OFFER: '' @
          (case Option.bind (json_get response ''error'') (\<lambda>e. get_str e ''description'') of
             None \<Rightarrow> ''unknown receiver error'' | Some d \<Rightarrow> d)))
      else
        bindE (ok_or (json_get response ''answer'') (ProtocolError ''ANSWER omitted the answer field'')) (\<lambda>a.
          case parse_answer a of
            Inl e \<Rightarrow> Inl (ProtocolError (''parse ANSWER: '' @ e))
          | Inr answer \<Rightarrow> Inr answer))"

definition exchange_offer ::
  "(json \<Rightarrow> string + answer) \<Rightarrow> cast_connection \<Rightarrow> offer \<Rightarrow> cast_app \<Rightarrow> (error + answer) client" where
  "exchange_offer parse_answer conn ofr app =
     (if (case cc_device_identity conn of None \<Rightarrow> False | Some d \<Rightarrow> is_audio_only d) \<and> has_video ofr
      then Return (Inl (NegotiationFailed ''authenticated receiver credential is restricted to audio-only use''))
      else
        Ask (SendOffer (ca_transport_id app) (offer_serialize ofr)) (\<lambda>a. Return
          (bindE (await_json_response a ''streaming OFFER'') (offer_response parse_answer))))"

text \<open>\<open>close\<close> waits for the acknowledgement at most as long as a request, then for the task, whose
  result it returns.\<close>

definition close_connection :: "string + (error + unit) \<Rightarrow> (error + unit) client" where
  "close_connection task =
     Ask CloseControl (\<lambda>_. Return
       (case task of Inl e \<Rightarrow> Inl (ConnectionFailed (''control task failed: '' @ e)) | Inr r \<Rightarrow> r))"

subsection \<open>Connecting\<close>

datatype 'a timed = Elapsed | Finished 'a

definition challenge_message :: "auth_challenge \<Rightarrow> cast_message" where
  "challenge_message c =
     \<lparr>source_id = SENDER_ID, destination_id = RECEIVER_ID, namespace = NS_DEVICE_AUTH, payload = PBinary (ch_payload c)\<rparr>"

definition authenticate_receiver ::
  "'t auth_libs \<Rightarrow> (reading \<Rightarrow> system_time) \<Rightarrow> auth_challenge \<Rightarrow> io_fault option timed \<Rightarrow>
     (io_fault + cast_message) timed \<Rightarrow> bytes \<Rightarrow> error + device_identity" where
  "authenticate_receiver libs clock challenge sent incoming tls_peer_certificate =
     (case sent of
        Elapsed \<Rightarrow> Inl (AuthenticationFailed ''send challenge timed out'')
      | Finished (Some e) \<Rightarrow> Inl (AuthenticationFailed (''send authentication challenge: '' @ io_display e))
      | Finished None \<Rightarrow>
          (case incoming of
             Elapsed \<Rightarrow> Inl (AuthenticationFailed ''challenge response timed out'')
           | Finished (Inl e) \<Rightarrow> Inl (AuthenticationFailed (''read challenge response: '' @ io_display e))
           | Finished (Inr m) \<Rightarrow>
               if namespace m \<noteq> NS_DEVICE_AUTH \<or> source_id m \<noteq> RECEIVER_ID \<or> destination_id m \<noteq> SENDER_ID
               then Inl (AuthenticationFailed (''unexpected challenge response namespace or route: '' @ namespace m @
                 '' '' @ source_id m @ '' -> '' @ destination_id m))
               else
                 (case payload m of
                    PString s \<Rightarrow> Inl (AuthenticationFailed ''challenge response was not a binary protobuf'')
                  | PBinary reply \<Rightarrow>
                      verify_challenge_reply libs clock reply (ch_nonce challenge) tls_peer_certificate)))"

text \<open>What the network does during a connection attempt. \<open>en_show\<close> prints the address.\<close>

record connect_env =
  en_tcp :: "(string + unit) timed"
  en_tls :: "(string + bytes list option) timed"
  en_challenge_sent :: "io_fault option timed"
  en_challenge_reply :: "(io_fault + cast_message) timed"
  en_connect_sent :: "io_fault option"
  en_show :: "socket_addr \<Rightarrow> string"

definition peer_certificate :: "bytes list option \<Rightarrow> error + bytes" where
  "peer_certificate certificates =
     ok_or (Option.bind certificates (\<lambda>cs. case cs of [] \<Rightarrow> None | c # _ \<Rightarrow> Some c))
       (ConnectionFailed ''receiver did not present a TLS certificate'')"

definition connect_step :: "string \<Rightarrow> (string + 'a) timed \<Rightarrow> error + 'a" where
  "connect_step what outcome =
     (case outcome of
        Elapsed \<Rightarrow> Inl (ConnectionFailed (what @ '' timed out''))
      | Finished (Inl e) \<Rightarrow> Inl (ConnectionFailed (what @ '': '' @ e))
      | Finished (Inr a) \<Rightarrow> Inr a)"

definition connect_address_inner ::
  "'t auth_libs \<Rightarrow> (reading \<Rightarrow> system_time) \<Rightarrow> (bytes \<Rightarrow> bytes) \<Rightarrow> connect_env \<Rightarrow> socket_addr \<Rightarrow> bool \<Rightarrow>
     error + cast_connection" where
  "connect_address_inner libs clock fill_bytes env address authenticate_device =
     bindE (connect_step (''TCP connect to '' @ en_show env address) (en_tcp env)) (\<lambda>_.
     bindE (connect_step (''TLS handshake with '' @ en_show env address) (en_tls env)) (\<lambda>certificates.
     bindE (peer_certificate certificates) (\<lambda>peer.
     bindE (if authenticate_device
            then map_sum id Some (authenticate_receiver libs clock (create_challenge fill_bytes) (en_challenge_sent env)
                   (en_challenge_reply env) peer)
            else Inr None) (\<lambda>identity.
       case en_connect_sent env of
         Some e \<Rightarrow> Inl (ConnectionFailed (''initial CONNECT: '' @ io_display e))
       | None \<Rightarrow> Inr \<lparr>cc_remote_address = address, cc_device_identity = identity\<rparr>))))"

definition connect_address ::
  "'t auth_libs \<Rightarrow> (reading \<Rightarrow> system_time) \<Rightarrow> (bytes \<Rightarrow> bytes) \<Rightarrow> connect_env \<Rightarrow> socket_addr \<Rightarrow> error + cast_connection" where
  "connect_address libs clock fill_bytes env address = connect_address_inner libs clock fill_bytes env address True"

subsection \<open>Commands that callers can issue\<close>

primrec all_asks :: "(control_command \<Rightarrow> bool) \<Rightarrow> 'a client \<Rightarrow> bool" where
  "all_asks P (Return a) = True"
| "all_asks P (Ask c k) = ((\<forall>n. P (c n)) \<and> (\<forall>x. all_asks P (k x)))"

lemma all_asks_bindC [simp]: "all_asks P m \<Longrightarrow> (\<And>a. all_asks P (f a)) \<Longrightarrow> all_asks P (bindC m f)"
  by (induction m) auto

lemma all_asks_tryC [simp]: "all_asks P m \<Longrightarrow> (\<And>a. all_asks P (f a)) \<Longrightarrow> all_asks P (tryC m f)"
  unfolding tryC_def by (rule all_asks_bindC) (auto split: sum.splits)

lemma all_asks_requests [simp]:
  "all_asks P (receiver_request operation custom d) \<longleftrightarrow> (\<forall>n. P (ReceiverRequest operation custom n))"
  "all_asks P (product_info_request info u) \<longleftrightarrow> (\<forall>n. P (ProductInfoRequest info n))"
  "all_asks P (send_fire ns destination v) \<longleftrightarrow> (\<forall>n. P (SendFire ns destination v n))"
  by (simp_all add: receiver_request_def product_info_request_def send_fire_def)

text \<open>
  Callers cannot misuse the control task. Whatever its arguments and whatever it is
  answered, an operation of the public interface only ever issues commands that the task can
  carry out without a panic; without an authenticated device no product information is asked
  for; and with a credential restricted to audio an offer with video is refused before
  anything is sent.
\<close>

theorem client_commands_safe:
  "all_asks wellformed_command (get_app_availability app_id) \<and> all_asks wellformed_command receiver_status_request \<and>
   all_asks wellformed_command (set_volume_level level) \<and> all_asks wellformed_command (set_muted muted) \<and>
   all_asks wellformed_command (launch app_id) \<and> all_asks wellformed_command (stop app) \<and>
   all_asks wellformed_command (exchange_offer parse_answer conn ofr app) \<and>
   all_asks wellformed_command (close_connection task) \<and>
   all_asks (\<lambda>c. wellformed_command c \<and> cc_device_identity conn \<noteq> None) (get_device_info conn) \<and>
   all_asks (\<lambda>c. wellformed_command c \<and> cc_device_identity conn \<noteq> None) (get_eureka_info conn) \<and>
   all_asks (\<lambda>c. (\<exists>n. c = SendOffer (ca_transport_id app) (offer_serialize ofr) n) \<and>
     \<not> ((\<exists>d. cc_device_identity conn = Some d \<and> is_audio_only d) \<and> has_video ofr))
     (exchange_offer parse_answer conn ofr app)"
proof -
  have vol: "all_asks wellformed_command (set_volume v)" for v by (simp add: set_volume_def)
  have "all_asks wellformed_command (launch app_id)"
    unfolding launch_def by (rule all_asks_tryC) (auto split: sum.splits option.splits)
  moreover have "all_asks wellformed_command (stop app)" by (simp add: stop_def)
  moreover have "all_asks (\<lambda>c. wellformed_command c \<and> cc_device_identity conn \<noteq> None) (get_device_info conn)"
    "all_asks (\<lambda>c. wellformed_command c \<and> cc_device_identity conn \<noteq> None) (get_eureka_info conn)"
    by (auto simp: get_device_info_def get_eureka_info_def require_authenticated_product_info_def ensure_def split: sum.splits)
  ultimately show ?thesis
    using vol
    by (auto simp: get_app_availability_def receiver_status_request_def set_volume_level_def set_muted_def
        exchange_offer_def close_connection_def split: option.splits)
qed

text \<open>
  C17. A production connection is an authenticated one. When connecting succeeds, the device
  identity is present, and it is the result of verifying a binary reply that came on the
  authentication namespace from the receiver to this sender, against the nonce of the challenge
  of this attempt and the first certificate that the TLS peer presented.
\<close>

theorem connection_is_authenticated:
  assumes "connect_address libs clock fill_bytes env address = Inr conn"
  shows "\<exists>identity peer rest m reply. cc_device_identity conn = Some identity \<and> cc_remote_address conn = address \<and>
    en_tls env = Finished (Inr (Some (peer # rest))) \<and> en_challenge_reply env = Finished (Inr m) \<and>
    namespace m = NS_DEVICE_AUTH \<and> source_id m = RECEIVER_ID \<and> destination_id m = SENDER_ID \<and> payload m = PBinary reply \<and>
    verify_challenge_reply libs clock reply (ch_nonce (create_challenge fill_bytes)) peer = Inr identity"
proof -
  from assms obtain certificates peer identity where
    c: "connect_step (''TLS handshake with '' @ en_show env address) (en_tls env) = Inr certificates"
      "peer_certificate certificates = Inr peer"
      "authenticate_receiver libs clock (create_challenge fill_bytes) (en_challenge_sent env)
         (en_challenge_reply env) peer = Inr identity"
      "conn = \<lparr>cc_remote_address = address, cc_device_identity = Some identity\<rparr>"
    by (auto simp: connect_address_def connect_address_inner_def bindE_eq_Inr_iff map_sum_def split: option.splits sum.splits)
  from c(1) have "en_tls env = Finished (Inr certificates)"
    by (auto simp: connect_step_def split: timed.splits sum.splits)
  moreover from c(2) obtain rest where "certificates = Some (peer # rest)"
    by (cases certificates) (auto simp: peer_certificate_def neq_Nil_conv split: list.split_asm)
  moreover from c(3) obtain m reply where "en_challenge_reply env = Finished (Inr m)" "payload m = PBinary reply"
    "namespace m = NS_DEVICE_AUTH" "source_id m = RECEIVER_ID" "destination_id m = SENDER_ID"
    "verify_challenge_reply libs clock reply (ch_nonce (create_challenge fill_bytes)) peer = Inr identity"
    unfolding authenticate_receiver_def
    by (simp split: timed.splits option.splits sum.splits if_splits payload.splits)
  ultimately show ?thesis using c(4) by auto
qed

definition example_env :: connect_env where
  "example_env = \<lparr>en_tcp = Finished (Inr ()), en_tls = Finished (Inr (Some [[3]])), en_challenge_sent = Finished None,
     en_challenge_reply = Finished (Inr \<lparr>source_id = RECEIVER_ID, destination_id = SENDER_ID, namespace = NS_DEVICE_AUTH,
       payload = PBinary example_reply\<rparr>), en_connect_sent = None, en_show = (\<lambda>_. ''tv'')\<rparr>"

theorem connection_is_authenticated_witness:
  "\<exists>conn identity. connect_address example_libs (\<lambda>_. 0) (\<lambda>_. [1, 2]) example_env (V4 1 8009) = Inr conn \<and>
     cc_device_identity conn = Some identity \<and> verify_challenge_reply example_libs (\<lambda>_. 0) example_reply [1, 2] [3] = Inr identity"
proof -
  have "\<exists>conn. connect_address example_libs (\<lambda>_. 0) (\<lambda>_. [1, 2]) example_env (V4 1 8009) = Inr conn"
    by (simp add: connect_address_def connect_address_inner_def connect_step_def example_env_def peer_certificate_def
        authenticate_receiver_def create_challenge_def Let_def example_verified)
  then obtain conn where conn: "connect_address example_libs (\<lambda>_. 0) (\<lambda>_. [1, 2]) example_env (V4 1 8009) = Inr conn" by blast
  from connection_is_authenticated [OF conn] conn show ?thesis
    by (auto simp: example_env_def create_challenge_def Let_def)
qed

end
