(* ===== verification/Setup_Correct.thy ===== *)
theory Setup_Correct
  imports Setup
begin

text \<open>
  The setup client is correct: a response is delivered whole however it arrives, both readers
  of chunked bodies agree, nothing panics, and the metadata that comes out is bounded and clean.
\<close>

subsection \<open>First occurrences\<close>

definition occurs :: "bytes \<Rightarrow> bytes \<Rightarrow> nat \<Rightarrow> bool" where
  "occurs pat bs m \<longleftrightarrow> take (length pat) (drop m bs) = pat"

lemma position_Nil: "pat \<noteq> [] \<Longrightarrow> window_position pat [] = None"
  by (simp add: window_position.simps [of pat "[]"])

lemma position_Cons:
  "window_position pat (b # bs) = (if occurs pat (b # bs) 0 then Some 0 else map_option Suc (window_position pat bs))"
  by (simp add: window_position.simps [of pat "b # bs"] occurs_def)

lemma occurs_Suc [simp]: "occurs pat (b # bs) (Suc m) = occurs pat bs m"
  by (simp add: occurs_def)

lemma occurs_length: "occurs pat bs m \<Longrightarrow> pat \<noteq> [] \<Longrightarrow> m + length pat \<le> length bs"
  unfolding occurs_def by (drule arg_cong [of _ _ length]) (cases "m \<le> length bs", auto)

lemma occurs_append: "m + length pat \<le> length bs \<Longrightarrow> occurs pat (bs @ rest) m = occurs pat bs m"
  by (simp add: occurs_def)

lemma position_None_iff: "pat \<noteq> [] \<Longrightarrow> window_position pat bs = None \<longleftrightarrow> (\<forall>m. \<not> occurs pat bs m)"
proof (induction bs)
  case (Cons b bs)
  have "(\<forall>m. \<not> occurs pat (b # bs) m) \<longleftrightarrow> \<not> occurs pat (b # bs) 0 \<and> (\<forall>m. \<not> occurs pat bs m)"
    by (metis nat.exhaust occurs_Suc)
  with Cons show ?case by (simp add: position_Cons)
qed (simp add: position_Nil occurs_def)

lemma position_Some_iff:
  "pat \<noteq> [] \<Longrightarrow> window_position pat bs = Some n \<longleftrightarrow> occurs pat bs n \<and> (\<forall>m < n. \<not> occurs pat bs m)"
proof (induction bs arbitrary: n)
  case (Cons b bs)
  then show ?case by (cases n) (auto simp: position_Cons All_less_Suc2)
qed (simp add: position_Nil occurs_def)

lemma window_position_Some:
  "window_position pat bs = Some n \<Longrightarrow> pat \<noteq> [] \<Longrightarrow> n + length pat \<le> length bs \<and> take (length pat) (drop n bs) = pat"
  using occurs_length position_Some_iff unfolding occurs_def by blast

lemma position_append:
  assumes "window_position pat bs = Some n" "pat \<noteq> []"
  shows "window_position pat (bs @ rest) = Some n"
proof -
  from assms have n: "occurs pat bs n" "\<forall>m < n. \<not> occurs pat bs m" by (simp_all add: position_Some_iff)
  then have "n + length pat \<le> length bs" using assms(2) occurs_length by blast
  with n assms(2) show ?thesis by (simp add: position_Some_iff occurs_append)
qed

lemma position_prefix:
  assumes "window_position pat bs = Some n" "pat \<noteq> []" "k < n + length pat"
  shows "window_position pat (take k bs) = None"
proof -
  have "\<not> occurs pat (take k bs) m" for m
  proof
    assume m: "occurs pat (take k bs) m"
    then have len: "m + length pat \<le> length (take k bs)" using assms(2) by (rule occurs_length)
    have "occurs pat bs m"
      using m occurs_append [OF len, of "drop k bs"] by simp
    with assms(1,2) have "n \<le> m" by (auto simp: position_Some_iff not_less [symmetric])
    with len assms(3) show False by simp
  qed
  then show ?thesis using assms(2) by (simp add: position_None_iff)
qed

subsection \<open>Chunked bodies\<close>

text \<open>A chunk is a size line, the data and line ends; the body ends with a line of size zero.\<close>

definition size_line :: "bytes \<Rightarrow> nat \<Rightarrow> bool" where
  "size_line line n \<longleftrightarrow>
     length line \<le> 128 \<and> window_position CRLF (line @ CRLF) = Some (length line) \<and> chunk_size line = Some n"

definition chunk_bytes :: "bytes \<times> bytes \<Rightarrow> bytes" where
  "chunk_bytes c = fst c @ CRLF @ snd c @ CRLF"

fun chunked :: "(bytes \<times> bytes) list \<Rightarrow> bytes \<Rightarrow> bytes" where
  "chunked [] z = z @ CRLF @ CRLF"
| "chunked (c # cs) z = chunk_bytes c @ chunked cs z"

definition chunks_ok :: "(bytes \<times> bytes) list \<Rightarrow> bytes \<Rightarrow> bool" where
  "chunks_ok cs z \<longleftrightarrow> list_all (\<lambda>(line, data). size_line line (length data) \<and> data \<noteq> []) cs \<and> size_line z 0"

lemma length_CRLF [simp]: "length CRLF = 2" "CRLF \<noteq> []"
  by (simp_all add: CRLF_def)

lemma size_line_position:
  "size_line line n \<Longrightarrow> window_position CRLF (line @ CRLF @ rest) = Some (length line)"
  using position_append [of CRLF "line @ CRLF" "length line" rest] by (simp add: size_line_def)

lemma size_line_prefix:
  assumes "size_line line n" "k < length line + 2"
  shows "window_position CRLF (take k (line @ CRLF @ rest)) = None"
  by (rule position_prefix [OF size_line_position [OF assms(1), of rest]]) (use assms(2) in simp_all)

lemma size_line_position_take:
  assumes "size_line line n" "length line + 2 \<le> k"
  shows "window_position CRLF (take k (line @ CRLF @ rest)) = Some (length line)"
proof -
  have eq: "take k (line @ CRLF @ rest) = line @ CRLF @ take (k - (length line + 2)) rest" using assms(2) by simp
  show ?thesis unfolding eq by (rule size_line_position [OF assms(1)])
qed

lemma position_None_short: "length bs < length pat \<Longrightarrow> window_position pat bs = None"
  by (metis add_leD2 leD list.size(3) not_less_zero occurs_length position_None_iff)

lemma length_loop_no_line:
  "window_position CRLF tail = None \<Longrightarrow> chunked_length_loop (pre @ tail) (length pre) = Inr None"
  by (simp add: chunked_length_loop.simps [of "pre @ tail"])

lemma length_loop_last:
  assumes "size_line z 0"
  shows "chunked_length_loop (pre @ z @ CRLF @ CRLF @ junk) (length pre) = Inr (Some (length pre + length z + 4))"
    and "length rest < 2 \<Longrightarrow> chunked_length_loop (pre @ z @ CRLF @ rest) (length pre) = Inr None"
proof -
  note position = size_line_position [OF assms]
  show "chunked_length_loop (pre @ z @ CRLF @ CRLF @ junk) (length pre) = Inr (Some (length pre + length z + 4))"
    using position [of "CRLF @ junk"] assms
    by (simp add: chunked_length_loop.simps [of "pre @ z @ CRLF @ CRLF @ junk"] size_line_def Let_def)
  assume short: "length rest < 2"
  then have "take 2 rest \<noteq> CRLF" by (metis length_CRLF(1) length_take min_less_iff_conj not_less_iff_gr_or_eq)
  moreover have "window_position (CRLF @ CRLF) rest = None" using short by (intro position_None_short) simp
  ultimately show "chunked_length_loop (pre @ z @ CRLF @ rest) (length pre) = Inr None"
    using position [of rest] assms short
    by (simp add: chunked_length_loop.simps [of "pre @ z @ CRLF @ rest"] size_line_def Let_def)
qed

lemma length_loop_chunk:
  assumes "size_line line (length data)" and "data \<noteq> []" and "length data \<le> MAX_RESPONSE_BYTES"
  shows "length rest < length data + 2 \<Longrightarrow> chunked_length_loop (pre @ line @ CRLF @ rest) (length pre) = Inr None"
    and "length pre + length (chunk_bytes (line, data)) \<le> MAX_RESPONSE_BYTES \<Longrightarrow>
      chunked_length_loop (pre @ chunk_bytes (line, data) @ later) (length pre) =
        chunked_length_loop (pre @ chunk_bytes (line, data) @ later) (length (pre @ chunk_bytes (line, data)))"
proof -
  note position = size_line_position [OF assms(1)]
  show "chunked_length_loop (pre @ line @ CRLF @ rest) (length pre) = Inr None" if "length rest < length data + 2"
    using position [of rest] assms that
    by (simp add: chunked_length_loop.simps [of "pre @ line @ CRLF @ rest"] size_line_def Let_def)
  assume fits: "length pre + length (chunk_bytes (line, data)) \<le> MAX_RESPONSE_BYTES"
  let ?e = "pre @ line @ CRLF @ data @ CRLF @ later"
  have "get_range ?e (length pre + (length line + 2) + length data) (length pre + (length line + 2) + length data + 2) = Some CRLF"
    by (simp add: get_range_def)
  moreover have "\<not> MAX_RESPONSE_BYTES < length pre + (length line + 2) + (length data + 2)"
    using fits by (simp add: chunk_bytes_def)
  ultimately show "chunked_length_loop (pre @ chunk_bytes (line, data) @ later) (length pre) =
      chunked_length_loop (pre @ chunk_bytes (line, data) @ later) (length (pre @ chunk_bytes (line, data)))"
    using position [of "data @ CRLF @ later"] assms
    by (simp add: chunked_length_loop.simps [of ?e "length pre"] chunk_bytes_def size_line_def Let_def algebra_simps)
qed

definition chunked_size :: "(bytes \<times> bytes) list \<Rightarrow> nat" where
  "chunked_size cs = sum_list (map (\<lambda>c. length (chunk_bytes c)) cs)"

lemma chunked_size_Cons [simp]: "chunked_size (c # cs) = length (chunk_bytes c) + chunked_size cs"
  by (simp add: chunked_size_def)

lemma length_chunk_bytes [simp]: "length (chunk_bytes (line, data)) = length line + length data + 4"
  by (simp add: chunk_bytes_def)

text \<open>The whole body is recognised, and no proper part of it is.\<close>

lemma length_loop_whole:
  "chunks_ok cs z \<Longrightarrow> length pre + chunked_size cs \<le> MAX_RESPONSE_BYTES \<Longrightarrow>
     chunked_length_loop (pre @ chunked cs z @ junk) (length pre) = Inr (Some (length pre + length (chunked cs z)))"
proof (induction cs arbitrary: pre)
  case Nil
  then show ?case using length_loop_last(1) [of z pre junk] by (simp add: chunks_ok_def)
next
  case (Cons c cs)
  obtain line data where c: "c = (line, data)" by (cases c)
  from Cons.prems have ok: "size_line line (length data)" "data \<noteq> []" "chunks_ok cs z" by (auto simp: chunks_ok_def c)
  from Cons.prems(2) have fits: "length data \<le> MAX_RESPONSE_BYTES" "length pre + length (chunk_bytes c) \<le> MAX_RESPONSE_BYTES"
    "length (pre @ chunk_bytes c) + chunked_size cs \<le> MAX_RESPONSE_BYTES" by (auto simp: c)
  have "chunked_length_loop (pre @ chunked (c # cs) z @ junk) (length pre) =
      chunked_length_loop ((pre @ chunk_bytes c) @ chunked cs z @ junk) (length (pre @ chunk_bytes c))"
    using length_loop_chunk(2) [OF ok(1,2) fits(1), of pre "chunked cs z @ junk"] fits(2) by (simp add: c)
  with Cons.IH [OF ok(3) fits(3)] show ?case by simp
qed

lemma length_loop_part:
  "chunks_ok cs z \<Longrightarrow> length pre + chunked_size cs \<le> MAX_RESPONSE_BYTES \<Longrightarrow> k < length (chunked cs z) \<Longrightarrow>
     chunked_length_loop (pre @ take k (chunked cs z)) (length pre) = Inr None"
proof (induction cs arbitrary: pre k)
  case Nil
  then have z: "size_line z 0" by (simp add: chunks_ok_def)
  show ?case
  proof (cases "k < length z + 2")
    case True
    with size_line_prefix [OF z True, of CRLF] show ?thesis by (auto intro: length_loop_no_line)
  next
    case False
    then have "take k (chunked [] z) = z @ CRLF @ take (k - (length z + 2)) CRLF" by simp
    with length_loop_last(2) [OF z, of "take (k - (length z + 2)) CRLF" pre] Nil.prems(3) False show ?thesis by simp
  qed
next
  case (Cons c cs)
  obtain line data where c: "c = (line, data)" by (cases c)
  from Cons.prems have ok: "size_line line (length data)" "data \<noteq> []" "chunks_ok cs z" by (auto simp: chunks_ok_def c)
  from Cons.prems(2) have fits: "length data \<le> MAX_RESPONSE_BYTES" "length pre + length (chunk_bytes c) \<le> MAX_RESPONSE_BYTES"
    "length (pre @ chunk_bytes c) + chunked_size cs \<le> MAX_RESPONSE_BYTES" by (auto simp: c)
  consider "k < length line + 2" | "length line + 2 \<le> k" "k < length (chunk_bytes c)" | "length (chunk_bytes c) \<le> k" by linarith
  then show ?case
  proof cases
    case 1
    with size_line_prefix [OF ok(1) 1] show ?thesis by (auto simp: c chunk_bytes_def intro: length_loop_no_line)
  next
    case 2
    then have "take k (chunked (c # cs) z) = line @ CRLF @ take (k - (length line + 2)) (data @ CRLF)"
      by (simp add: c chunk_bytes_def)
    with length_loop_chunk(1) [OF ok(1,2) fits(1), of "take (k - (length line + 2)) (data @ CRLF)" pre] 2 show ?thesis
      by (simp add: c)
  next
    case 3
    let ?rest = "take (k - length (chunk_bytes c)) (chunked cs z)"
    have "chunked_length_loop (pre @ take k (chunked (c # cs) z)) (length pre) =
        chunked_length_loop ((pre @ chunk_bytes c) @ ?rest) (length (pre @ chunk_bytes c))"
      using length_loop_chunk(2) [OF ok(1,2) fits(1), of pre ?rest] fits(2) 3 by (simp add: c)
    with Cons.IH [OF ok(3) fits(3), of "k - length (chunk_bytes c)"] 3 Cons.prems(3) show ?thesis by simp
  qed
qed

lemma decode_chunks_chunked:
  "chunks_ok cs z \<Longrightarrow> length decoded + length (concat (map snd cs)) \<le> MAX_RESPONSE_BYTES \<Longrightarrow>
     decode_chunks (chunked cs z @ junk) decoded = Inr (decoded @ concat (map snd cs))"
proof (induction cs arbitrary: decoded)
  case Nil
  then have "size_line z 0" by (simp add: chunks_ok_def)
  with size_line_position [OF this, of "CRLF @ junk"] show ?case
    by (simp add: decode_chunks.simps [of "z @ CRLF @ CRLF @ junk"] size_line_def Let_def)
next
  case (Cons c cs)
  obtain line data where c: "c = (line, data)" by (cases c)
  from Cons.prems have ok: "size_line line (length data)" "data \<noteq> []" "chunks_ok cs z" by (auto simp: chunks_ok_def c)
  let ?rest = "chunked cs z @ junk"
  have "decode_chunks (line @ CRLF @ data @ CRLF @ ?rest) decoded = decode_chunks ?rest (decoded @ data)"
    using size_line_position [OF ok(1), of "data @ CRLF @ ?rest"] ok Cons.prems(2)
    by (simp add: decode_chunks.simps [of "line @ CRLF @ data @ CRLF @ ?rest"] size_line_def Let_def get_range_def c)
  with Cons.IH [OF ok(3), of "decoded @ data"] Cons.prems(2) show ?case by (simp add: c chunk_bytes_def)
qed

subsection \<open>Responses\<close>

text \<open>
  What the header parser does with a header: it waits for more on every proper part, and on the
  whole, whatever follows, it reports its length and contents.
\<close>

definition reads_head :: "head_parser \<Rightarrow> bytes \<Rightarrow> http_head \<Rightarrow> bool" where
  "reads_head parse head h \<longleftrightarrow>
     (\<forall>k < length head. parse (take k head) = Inr Partial) \<and>
     (\<forall>rest. parse (head @ rest) = Inr (Complete (length head) h))"

text \<open>A response with a body, in chunks or with its length in the header.\<close>

definition http_response :: "head_parser \<Rightarrow> bytes \<Rightarrow> http_head \<Rightarrow> bytes \<Rightarrow> bool" where
  "http_response parse response h body \<longleftrightarrow>
     (\<exists>head raw. response = head @ raw \<and> head \<noteq> [] \<and> reads_head parse head h \<and> length head \<le> MAX_HEADER_BYTES \<and>
        (is_chunked h \<and>
           (\<exists>cs z. raw = chunked cs z \<and> chunks_ok cs z \<and> chunked_size cs \<le> MAX_RESPONSE_BYTES \<and>
              body = concat (map snd cs)) \<or>
         \<not> is_chunked h \<and> raw = body \<and>
           (\<exists>v. header_value h ''content-length'' = Some v \<and> content_length v = Inr (length body))))"

lemma response_extent_complete:
  assumes "reads_head parse head h" "length head \<le> MAX_HEADER_BYTES"
  shows "response_extent parse (head @ raw) =
    (if is_chunked h then bindR (chunked_body_length raw) (\<lambda>n. Inr (map_option (\<lambda>n. length head + n) n))
     else case header_value h ''content-length'' of
            Some v \<Rightarrow> bindR (content_length v) (\<lambda>n. Inr (Some (length head + n)))
          | None \<Rightarrow> Inr None)"
  using assms by (simp add: response_extent_def reads_head_def not_less [symmetric])

lemma response_extent_whole:
  assumes "http_response parse response h body"
  shows "response_extent parse (response @ junk) = Inr (Some (length response))"
proof -
  from assms obtain head raw where r: "response = head @ raw" "reads_head parse head h" "length head \<le> MAX_HEADER_BYTES"
    and kind: "is_chunked h \<and> (\<exists>cs z. raw = chunked cs z \<and> chunks_ok cs z \<and> chunked_size cs \<le> MAX_RESPONSE_BYTES \<and>
        body = concat (map snd cs)) \<or> \<not> is_chunked h \<and> raw = body \<and>
        (\<exists>v. header_value h ''content-length'' = Some v \<and> content_length v = Inr (length body))"
    unfolding http_response_def by blast
  from kind show ?thesis
    using length_loop_whole [where pre = "[]"] response_extent_complete [OF r(2,3), of "raw @ junk"]
    by (auto simp: r(1) chunked_body_length_def)
qed

lemma response_extent_part:
  assumes "http_response parse response h body" and "k < length response"
  shows "response_extent parse (take k response) = Inr None \<or>
    response_extent parse (take k response) = Inr (Some (length response))"
proof -
  from assms(1) obtain head raw where r: "response = head @ raw" "reads_head parse head h" "length head \<le> MAX_HEADER_BYTES"
    and kind: "is_chunked h \<and> (\<exists>cs z. raw = chunked cs z \<and> chunks_ok cs z \<and> chunked_size cs \<le> MAX_RESPONSE_BYTES \<and>
        body = concat (map snd cs)) \<or> \<not> is_chunked h \<and> raw = body \<and>
        (\<exists>v. header_value h ''content-length'' = Some v \<and> content_length v = Inr (length body))"
    unfolding http_response_def by blast
  show ?thesis
  proof (cases "k < length head")
    case True
    then have "take k response = take k head" "parse (take k head) = Inr Partial" using r by (simp_all add: reads_head_def)
    with True r(3) show ?thesis by (simp add: response_extent_def)
  next
    case False
    then have part: "take k response = head @ take (k - length head) raw" and "k - length head < length raw"
      using r(1) assms(2) by auto
    with kind show ?thesis
      using length_loop_part [where pre = "[]"] response_extent_complete [OF r(2,3), of "take (k - length head) raw"]
      by (auto simp: r(1) chunked_body_length_def)
  qed
qed

text \<open>The loop delivers the response whatever the reads return.\<close>

lemma read_http_loop_delivers:
  assumes response: "http_response parse response h body"
    and limit: "length (response @ junk) \<le> MAX_HEADER_BYTES + MAX_RESPONSE_BYTES"
  shows "chunks src \<Longrightarrow> acc @ stream src = response @ junk \<Longrightarrow> length acc < length response \<Longrightarrow>
    read_http_loop parse acc src = Some (Inr response)"
proof (induction "length (stream src)" arbitrary: acc src rule: less_induct)
  case less
  from less.prems(2,3) have "stream src \<noteq> []" by auto
  with read_some_chunks [OF less.prems(1), of 8192] obtain bs src' where
    read: "read_some 8192 src = Got bs src'" "bs \<noteq> []" "chunks src'" "stream src = bs @ stream src'"
    by (auto split: read_result.splits)
  have whole: "(acc @ bs) @ stream src' = response @ junk" using less.prems(2) read(4) by simp
  have "length (acc @ bs) \<le> length (response @ junk)" using whole by (metis le_add1 length_append)
  then have fits: "\<not> length acc + length bs > MAX_HEADER_BYTES + MAX_RESPONSE_BYTES" using limit by simp
  note step = read_http_loop.simps [of parse acc src] read(1,2) fits
  show ?case
  proof (cases "length response \<le> length (acc @ bs)")
    case True
    then obtain junk' where "acc @ bs = response @ junk'"
      using whole by (metis append_eq_append_conv2 append_self_conv append_take_drop_id nat_le_linear take_all_iff take_append
          append_eq_conv_conj)
    with response_extent_whole [OF response, of junk'] show ?thesis by (simp add: step Let_def)
  next
    case False
    then have part: "acc @ bs = take (length (acc @ bs)) response"
      using whole by (metis append_eq_append_conv_if append_eq_conv_conj nat_le_linear take_all_iff)
    have "read_http_loop parse (acc @ bs) src' = Some (Inr response)"
      using less.hyps [of src' "acc @ bs"] read False whole by simp
    with response_extent_part [OF response, of "length (acc @ bs)"] part False show ?thesis
      by (auto simp: step Let_def split: option.splits)
  qed
qed

lemma response_body_decodes:
  assumes "http_response parse response h body" and "hh_code h = Some status" and "200 \<le> status" and "status < 300"
  shows "parse_http_response parse parse_json response =
    bindR (parse_setup_info parse_json body) (\<lambda>info. Inr (Available info))"
proof -
  from assms(1) obtain head raw where r: "response = head @ raw" "reads_head parse head h" "length head \<le> MAX_HEADER_BYTES"
    and kind: "is_chunked h \<and> (\<exists>cs z. raw = chunked cs z \<and> chunks_ok cs z \<and> chunked_size cs \<le> MAX_RESPONSE_BYTES \<and>
        body = concat (map snd cs)) \<or> \<not> is_chunked h \<and> raw = body \<and>
        (\<exists>v. header_value h ''content-length'' = Some v \<and> content_length v = Inr (length body))"
    unfolding http_response_def by blast
  have bound: "length (concat (map snd cs)) \<le> chunked_size cs" for cs
    by (induction cs) (auto simp: chunked_size_def)
  have "response_body h raw = Inr body"
    using kind decode_chunks_chunked [where decoded = "[]" and junk = "[]"] order_trans [OF bound]
    by (auto simp: response_body_def decode_chunked_body_def)
  with r assms(2-4) show ?thesis
    by (simp add: parse_http_response_def reads_head_def not_less [symmetric])
qed

subsection \<open>Nothing panics\<close>

text \<open>The header parser never reports a header longer than its input.\<close>

definition head_within :: "head_parser \<Rightarrow> bool" where
  "head_within parse \<longleftrightarrow> (\<forall>bs n h. parse bs = Inr (Complete n h) \<longrightarrow> n \<le> length bs)"

lemma content_length_no_panic [no_panic_rules]: "no_panic (content_length v)"
  by (simp add: content_length_def no_panic_def split: option.splits)

lemma chunked_length_loop_no_panic:
  "offset \<le> length encoded \<Longrightarrow> no_panic (chunked_length_loop encoded offset)"
proof (induction encoded offset rule: chunked_length_loop.induct)
  case (1 encoded offset)
  show ?case
  proof (cases "window_position CRLF (drop offset encoded)")
    case None
    with 1(2) show ?thesis by (simp add: chunked_length_loop.simps [of encoded offset])
  next
    case (Some line_end)
    from window_position_Some [OF Some] have "line_end + 2 \<le> length encoded - offset" by simp
    with 1(2) have inside: "offset + (line_end + 2) \<le> length encoded" by linarith
    show ?thesis
      using 1 Some inside
      by (auto simp: chunked_length_loop.simps [of encoded offset] Let_def split: option.splits)
  qed
qed

lemma decode_chunks_no_panic: "no_panic (decode_chunks encoded decoded)"
proof (induction encoded decoded rule: decode_chunks.induct)
  case (1 encoded decoded)
  show ?case
  proof (cases "window_position CRLF encoded")
    case None
    then show ?thesis by (simp add: decode_chunks.simps [of encoded decoded])
  next
    case (Some line_end)
    from window_position_Some [OF Some] have "line_end + 2 \<le> length encoded" by simp
    with 1 Some show ?thesis
      by (auto simp: decode_chunks.simps [of encoded decoded] Let_def split: option.splits)
  qed
qed

lemma response_extent_no_panic:
  assumes "head_within parse"
  shows "no_panic (response_extent parse response)"
proof (cases "parse response")
  case (Inr st)
  show ?thesis
  proof (cases st)
    case (Complete n h)
    with Inr assms have "n \<le> length response" by (auto simp: head_within_def)
    with Inr Complete show ?thesis
      using chunked_length_loop_no_panic [of 0 "drop n response"]
      by (auto simp: response_extent_def chunked_body_length_def intro!: no_panic_rules split: option.splits)
  qed (simp add: response_extent_def Inr)
qed (simp add: response_extent_def)

lemma read_http_loop_no_panic:
  assumes parser: "head_within parse"
  shows "read_http_loop parse response src = Some r \<Longrightarrow> no_panic r"
proof (induction "length (stream src)" arbitrary: response src rule: less_induct)
  case less
  show ?case
  proof (cases "read_some 8192 src")
    case (Got bs src')
    let ?response = "response @ bs"
    consider "bs = []" | "bs \<noteq> []" "length response + length bs > MAX_HEADER_BYTES + MAX_RESPONSE_BYTES"
      | "bs \<noteq> []" "\<not> length response + length bs > MAX_HEADER_BYTES + MAX_RESPONSE_BYTES" by blast
    then show ?thesis
    proof cases
      case 3
      have again: "read_http_loop parse ?response src' = Some r \<Longrightarrow> no_panic r"
        using less.hyps read_some_shrinks [OF Got 3(1)] by blast
      show ?thesis
        using less.prems again response_extent_no_panic [OF parser, of ?response] 3
        by (auto simp: read_http_loop.simps [of parse response src] Got Let_def no_panic_def
            split: sum.splits option.splits if_splits)
    qed (use less.prems in \<open>auto simp: read_http_loop.simps [of parse response src] Got\<close>)
  qed (use less.prems in \<open>auto simp: read_http_loop.simps [of parse response src]\<close>)
qed

lemma bounded_text_no_panic [no_panic_rules]: "no_panic (bounded_text field text maximum)"
  by (simp add: bounded_text_def Let_def split: option.splits)

lemma parse_http_response_no_panic:
  assumes "head_within parse"
  shows "no_panic (parse_http_response parse parse_json response)"
proof (cases "parse response")
  case (Inr st)
  show ?thesis
  proof (cases st)
    case (Complete n h)
    with Inr assms have n: "n \<le> length response" by (auto simp: head_within_def)
    have body: "no_panic (response_body h rest)" for rest
      by (auto simp: response_body_def decode_chunked_body_def decode_chunks_no_panic intro!: no_panic_rules split: option.splits)
    have "no_panic (parse_setup_info parse_json body)" for body
      by (auto simp: parse_setup_info_def intro!: no_panic_rules split: sum.splits option.splits)
    with Inr Complete n body show ?thesis
      by (auto simp: parse_http_response_def intro!: no_panic_rules split: option.splits)
  qed (simp add: parse_http_response_def Inr)
qed (simp add: parse_http_response_def)

lemma query_device_info_no_panic:
  assumes "head_within parse"
  shows "no_panic (query_device_info parse parse_json env endpoint)"
  using parse_http_response_no_panic [OF assms] read_http_loop_no_panic [OF assms, of "[]" "su_arrivals env" "Inl Panic"]
  by (auto simp: query_device_info_def query_device_info_inner_def bindW_def setup_step_def read_http_response_def Let_def
      no_panic_def split: option.splits sum.splits)

subsection \<open>Clean metadata\<close>

definition clean_setup_text :: "string option \<Rightarrow> bool" where
  "clean_setup_text text \<longleftrightarrow>
     (\<forall>t. text = Some t \<longrightarrow>
        t \<noteq> [] \<and> length t \<le> SETUP_TEXT_BYTES \<and> trimmed t \<and> list_all (\<lambda>ch. \<not> control ch) (utf8_chars t))"

lemma bounded_text_clean: "bounded_text field text SETUP_TEXT_BYTES = Inr t \<Longrightarrow> clean_setup_text t"
  by (auto simp: bounded_text_def clean_setup_text_def Let_def trimmed_trim list_all_iff list_ex_iff
      split: option.splits if_splits)

definition clean_setup_info :: "setup_device_info \<Rightarrow> bool" where
  "clean_setup_info info \<longleftrightarrow> list_all clean_setup_text
     [sd_manufacturer info, sd_model_name info, sd_product_name info, sd_ssdp_udn info]"

lemma bindW_eq_Some_Inr: "bindW m f = Some (Inr b) \<longleftrightarrow> (\<exists>a. m = Some (Inr a) \<and> f a = Some (Inr b))"
  by (auto simp: bindW_def split: option.splits sum.splits)

lemma query_device_info_Inr:
  assumes "query_device_info parse parse_json env endpoint = Inr x"
  shows "\<exists>response. parse_http_response parse parse_json response = Inr x"
proof (cases "query_device_info_inner parse parse_json env (setup_endpoint endpoint)")
  case None
  with assms show ?thesis by (simp add: query_device_info_def)
next
  case (Some r)
  with assms have "r = Inr x" by (simp add: query_device_info_def)
  with Some show ?thesis by (auto simp: query_device_info_inner_def bindW_eq_Some_Inr)
qed

lemma parse_http_response_Available:
  assumes "parse_http_response parse parse_json response = Inr (Available info)"
  shows "\<exists>body. parse_setup_info parse_json body = Inr info"
proof -
  from assms obtain n h where "parse response = Inr (Complete n h)"
    by (auto simp: parse_http_response_def split: sum.splits head_status.splits)
  with assms show ?thesis
    by (cases "hh_code h") (auto simp: parse_http_response_def bindR_eq_Inr_iff split: if_splits)
qed

lemma parse_setup_info_clean: "parse_setup_info parse_json body = Inr info \<Longrightarrow> clean_setup_info info"
  by (auto simp: parse_setup_info_def clean_setup_info_def bindR_eq_Inr_iff clean_setup_text_def
      dest!: bounded_text_clean split: sum.splits option.splits)

text \<open>A parser of one-byte headers and a response of two chunks.\<close>

definition example_head :: http_head where
  "example_head = \<lparr>hh_code = Some 200, hh_headers = [(''Transfer-Encoding'', as_bytes ''Chunked'')]\<rparr>"

definition example_head_parse :: head_parser where
  "example_head_parse bs = (if bs = [] then Inr Partial else Inr (Complete 1 example_head))"

definition example_envelope :: envelope_parser where
  "example_envelope body = Inr (Some \<lparr>sd_manufacturer = Some '' G '', sd_model_name = None, sd_product_name = None,
     sd_ssdp_udn = None\<rparr>)"

definition example_setup_response :: bytes where
  "example_setup_response = 72 # chunked [([51], [1, 2, 3]), ([49], [4])] [48]"

definition example_setup_env :: setup_env where
  "example_setup_env = \<lparr>su_tcp = Some (Inr ()), su_tls = Some (Inr ()), su_write = (\<lambda>_. Some (Inr ())),
     su_arrivals = [Chunk (take 5 example_setup_response), Chunk (drop 5 example_setup_response @ [9])],
     su_show = (\<lambda>_. []), su_show_ip6 = (\<lambda>_. [])\<rparr>"

lemma example_digits: "char_of (51 :: nat) = CHR ''3''" "char_of (49 :: nat) = CHR ''1''" "char_of (48 :: nat) = CHR ''0''"
  by code_simp+

lemma example_size_lines: "size_line [51] 3" "size_line [49] 1" "size_line [48] 0"
  unfolding size_line_def
  by (simp_all add: CRLF_def window_position.simps [of _ "_ # _"] window_position.simps [of _ "[]"] chunk_size_def from_utf8_def
      from_str_radix_16_def hex_digit_of_def trim_def utf8_width_def white_def is_whitespace_def Let_def example_digits)

lemma example_texts:
  "eq_ignore_ascii_case ''Transfer-Encoding'' ''transfer-encoding''" "eq_ignore_ascii_case ''Chunked'' ''chunked''"
  "utf8_string ''Chunked''"
  by code_simp+

lemma example_is_chunked: "is_chunked example_head"
proof -
  have "trim ''Chunked'' = ''Chunked''"
    by (simp add: trim_def utf8_width_def white_def is_whitespace_def Let_def)
  with example_texts show ?thesis
    by (simp add: is_chunked_def example_head_def header_value_def)
qed

lemma example_http_response: "http_response example_head_parse example_setup_response example_head [1, 2, 3, 4]"
  unfolding http_response_def
proof (intro exI conjI)
  show "example_setup_response = [72] @ chunked [([51], [1, 2, 3]), ([49], [4])] [48]" by (simp add: example_setup_response_def)
  show "reads_head example_head_parse [72] example_head" by (simp add: reads_head_def example_head_parse_def)
  have "is_chunked example_head" by (rule example_is_chunked)
  moreover have "chunks_ok [([51], [1, 2, 3]), ([49], [4])] [48]"
    using example_size_lines by (simp add: chunks_ok_def numeral_3_eq_3)
  moreover have "chunked_size [([51], [1, 2, 3]), ([49], [4])] \<le> MAX_RESPONSE_BYTES"
    by (simp add: chunked_size_def MAX_RESPONSE_BYTES_def)
  ultimately show "is_chunked example_head \<and> (\<exists>cs z. chunked [([51], [1, 2, 3]), ([49], [4])] [48] = chunked cs z \<and>
      chunks_ok cs z \<and> chunked_size cs \<le> MAX_RESPONSE_BYTES \<and> [1, 2, 3, 4] = concat (map snd cs)) \<or>
      \<not> is_chunked example_head \<and> chunked [([51], [1, 2, 3]), ([49], [4])] [48] = [1, 2, 3, 4] \<and>
      (\<exists>v. header_value example_head ''content-length'' = Some v \<and> content_length v = Inr (length [1, 2, 3, 4 :: u8]))"
    by (intro disjI1 conjI exI [of _ "[([51], [1, 2, 3]), ([49], [4])]"] exI [of _ "[48]"]) simp_all
qed (simp_all add: MAX_HEADER_BYTES_def)

text \<open>
  C24. The setup client delivers the metadata however the response arrives. For every successful
  response with a body in chunks or of the announced length, within the limits, and however the
  connection cuts it and whatever follows it, the query returns what the checks of the body's
  JSON return: no byte is lost, and no byte after the response is taken for part of it.
\<close>

theorem setup_response_delivered:
  assumes "http_response parse response h body" and "hh_code h = Some status" and "200 \<le> status" and "status < 300"
    and "su_tcp env = Some (Inr ())" and "su_tls env = Some (Inr ())"
    and "\<And>request. su_write env request = Some (Inr ())"
    and "chunks (su_arrivals env)" and "stream (su_arrivals env) = response @ junk"
    and "length (response @ junk) \<le> MAX_HEADER_BYTES + MAX_RESPONSE_BYTES"
  shows "query_device_info parse parse_json env endpoint =
    bindR (parse_setup_info parse_json body) (\<lambda>info. Inr (Available info))"
proof -
  have "response \<noteq> []" using assms(1) by (auto simp: http_response_def)
  then have "read_http_response parse (su_arrivals env) = Some (Inr response)"
    unfolding read_http_response_def
    by (intro read_http_loop_delivers [OF assms(1,10,8)]) (simp_all add: assms(9))
  with assms response_body_decodes [OF assms(1-4)] show ?thesis
    by (simp add: query_device_info_def query_device_info_inner_def bindW_def setup_step_def Let_def)
qed

lemma setup_response_delivered_witness:
  "query_device_info example_head_parse example_envelope example_setup_env (V4 1 2) =
     Inr (Available \<lparr>sd_manufacturer = Some ''G'', sd_model_name = None, sd_product_name = None, sd_ssdp_udn = None\<rparr>)"
proof -
  have "query_device_info example_head_parse example_envelope example_setup_env (V4 1 2) =
      bindR (parse_setup_info example_envelope [1, 2, 3, 4]) (\<lambda>info. Inr (Available info))"
    by (rule setup_response_delivered [OF example_http_response, where junk = "[9]" and status = 200])
      (simp_all add: example_head_def example_setup_env_def example_setup_response_def chunk_bytes_def CRLF_def
        MAX_HEADER_BYTES_def MAX_RESPONSE_BYTES_def)
  then show ?thesis
    by (simp add: parse_setup_info_def example_envelope_def bounded_text_def trim_def utf8_width_def white_def
        is_whitespace_def control_def is_control_def SETUP_TEXT_BYTES_def Let_def)
qed

text \<open>
  C25. The setup client is safe against any peer. Whatever bytes arrive, however the connection
  fails and whatever the deserialiser returns, the query ends with a value or an error and never
  panics, as long as the header parser reports lengths within its input; and every text of the
  metadata it returns is nonempty, at most 256 bytes, trimmed and free of control characters.
\<close>

theorem setup_query_safe:
  assumes "head_within parse"
  shows "no_panic (query_device_info parse parse_json env endpoint) \<and>
    (\<forall>info. query_device_info parse parse_json env endpoint = Inr (Available info) \<longrightarrow> clean_setup_info info)"
proof (intro conjI allI impI)
  show "no_panic (query_device_info parse parse_json env endpoint)" by (rule query_device_info_no_panic [OF assms])
  fix info
  assume "query_device_info parse parse_json env endpoint = Inr (Available info)"
  then show "clean_setup_info info"
    using query_device_info_Inr parse_http_response_Available parse_setup_info_clean by blast
qed

lemma setup_query_safe_witness:
  "no_panic (query_device_info example_head_parse example_envelope example_setup_env (V4 1 2))"
  using setup_query_safe [of example_head_parse example_envelope example_setup_env "V4 1 2"]
  by (simp add: head_within_def example_head_parse_def Suc_le_eq)

end
