(* ===== verification/Discovery.thy ===== *)
theory Discovery
  imports Event_Loop Json Text Unicode "HOL-Library.AList" "HOL-Library.Product_Lexorder" "HOL-Library.Option_ord"
    "HOL-Library.List_Lexorder" "HOL-Library.Char_ord" "HOL-Library.Multiset"
begin

text \<open>
  Discovery of Cast receivers (\<open>src/discovery.rs\<close>): the routes of a resolved service, merging of
  repeated announcements, and the loop that collects devices until its time is up. The mDNS
  daemon is a parameter: the services it resolves, with their TXT properties, and its events.
\<close>

subsection \<open>Services and devices\<close>

definition SERVICE_TYPE :: string where "SERVICE_TYPE = ''_googlecast._tcp.local.''"

type_synonym cast_capabilities = u64

definition capabilities_contain :: "cast_capabilities \<Rightarrow> cast_capabilities \<Rightarrow> bool" where
  "capabilities_contain self capability \<longleftrightarrow> self AND capability = capability"

definition VIDEO_OUTPUT :: cast_capabilities where "VIDEO_OUTPUT = push_bit 0 1"
definition VIDEO_INPUT :: cast_capabilities where "VIDEO_INPUT = push_bit 1 1"
definition AUDIO_OUTPUT :: cast_capabilities where "AUDIO_OUTPUT = push_bit 2 1"
definition AUDIO_INPUT :: cast_capabilities where "AUDIO_INPUT = push_bit 3 1"
definition DEVELOPMENT_MODE :: cast_capabilities where "DEVELOPMENT_MODE = push_bit 4 1"
definition MULTIZONE_GROUP :: cast_capabilities where "MULTIZONE_GROUP = push_bit 5 1"

record net_interface =
  ni_index :: u32
  ni_name :: string

datatype scoped_ip = ScopedV4 u32 "net_interface list" | ScopedV6 "128 word" net_interface | OtherIp

record resolved_service =
  sv_property :: "string \<Rightarrow> string option"
  sv_port :: u16
  sv_addresses :: "scoped_ip list"
  sv_hostname :: string
  sv_fullname :: string

record cast_endpoint =
  ep_address :: socket_addr
  ep_interface_index :: "u32 option"
  ep_interface_name :: "string option"

record cast_device =
  cd_friendly_name :: string
  cd_model :: string
  cd_stable_id :: string
  cd_service_instance :: string
  cd_endpoints :: "cast_endpoint list"
  cd_capabilities :: cast_capabilities
  cd_protocol_version :: "u8 option"

subsection \<open>Routes\<close>

definition is_multicast_v4 :: "u32 \<Rightarrow> bool" where
  "is_multicast_v4 a \<longleftrightarrow> drop_bit 28 a = 0xE"

definition is_multicast_v6 :: "128 word \<Rightarrow> bool" where
  "is_multicast_v6 a \<longleftrightarrow> drop_bit 120 a = 0xFF"

definition is_ipv6_unicast_link_local :: "128 word \<Rightarrow> bool" where
  "is_ipv6_unicast_link_local a \<longleftrightarrow> drop_bit 112 a AND 0xffc0 = 0xfe80"

definition nonzero_index :: "net_interface \<Rightarrow> u32 option" where
  "nonzero_index i = (if ni_index i \<noteq> 0 then Some (ni_index i) else None)"

definition nonempty_name :: "net_interface \<Rightarrow> string option" where
  "nonempty_name i = (if ni_name i \<noteq> [] then Some (ni_name i) else None)"

definition append_endpoints :: "cast_endpoint list \<Rightarrow> scoped_ip \<Rightarrow> u16 \<Rightarrow> cast_endpoint list" where
  "append_endpoints endpoints ip port =
     (case ip of
        ScopedV4 address interfaces \<Rightarrow>
          if address = 0 \<or> is_multicast_v4 address then endpoints
          else if interfaces = [] then
            endpoints @ [\<lparr>ep_address = V4 address port, ep_interface_index = None, ep_interface_name = None\<rparr>]
          else
            endpoints @ map (\<lambda>i. \<lparr>ep_address = V4 address port, ep_interface_index = nonzero_index i,
              ep_interface_name = nonempty_name i\<rparr>) interfaces
      | ScopedV6 address i \<Rightarrow>
          if address = 0 \<or> is_multicast_v6 address then endpoints
          else if is_ipv6_unicast_link_local address \<and> ni_index i = 0 then endpoints
          else
            let scope_id = (if is_ipv6_unicast_link_local address then ni_index i else 0)
            in endpoints @ [\<lparr>ep_address = V6 address port 0 scope_id, ep_interface_index = nonzero_index i,
                 ep_interface_name = nonempty_name i\<rparr>]
      | OtherIp \<Rightarrow> endpoints)"

fun endpoint_priority :: "socket_addr \<Rightarrow> nat" where
  "endpoint_priority (V4 a p) = 0"
| "endpoint_priority (V6 a p f s) = (if \<not> is_ipv6_unicast_link_local a then 1 else 2)"

text \<open>The address part of the order; IPv4 addresses are compared with IPv4 addresses only.\<close>

fun ip_number :: "socket_addr \<Rightarrow> nat" where
  "ip_number (V4 a p) = unat a"
| "ip_number (V6 a p f s) = unat a"

definition endpoint_key :: "cast_endpoint \<Rightarrow> nat \<times> nat \<times> nat option" where
  "endpoint_key e =
     (endpoint_priority (ep_address e), ip_number (ep_address e), map_option unat (ep_interface_index e))"

definition sort_and_deduplicate_endpoints :: "cast_endpoint list \<Rightarrow> cast_endpoint list" where
  "sort_and_deduplicate_endpoints endpoints = remdups_adj (sort_key endpoint_key endpoints)"

subsection \<open>Devices\<close>

definition device_from_service :: "resolved_service \<Rightarrow> cast_device option" where
  "device_from_service service =
     Option.bind (map_option trim (sv_property service ''id'')) (\<lambda>stable_id.
       if stable_id = [] \<or> sv_port service = 0 then None
       else
         let endpoints = sort_and_deduplicate_endpoints
               (foldl (\<lambda>es ip. append_endpoints es ip (sv_port service)) [] (sv_addresses service))
         in if endpoints = [] then None
            else Some
              \<lparr>cd_friendly_name =
                 (case sv_property service ''fn'' of
                    Some name \<Rightarrow> if name \<noteq> [] then name else sv_hostname service
                  | None \<Rightarrow> sv_hostname service),
               cd_model = (case sv_property service ''md'' of Some m \<Rightarrow> m | None \<Rightarrow> []),
               cd_stable_id = stable_id,
               cd_service_instance = sv_fullname service,
               cd_endpoints = endpoints,
               cd_capabilities =
                 (case Option.bind (sv_property service ''ca'') (parse_unsigned (2 ^ 64 - 1)) of
                    Some bits \<Rightarrow> of_nat bits | None \<Rightarrow> 0),
               cd_protocol_version =
                 map_option of_nat (Option.bind (sv_property service ''ve'') (parse_unsigned (2 ^ 8 - 1)))\<rparr>)"

definition merge_device :: "cast_device \<Rightarrow> cast_device \<Rightarrow> cast_device" where
  "merge_device current update =
     current\<lparr>cd_friendly_name := cd_friendly_name update, cd_model := cd_model update,
       cd_service_instance := cd_service_instance update, cd_capabilities := cd_capabilities update,
       cd_protocol_version := cd_protocol_version update,
       cd_endpoints := sort_and_deduplicate_endpoints (cd_endpoints current @ cd_endpoints update)\<rparr>"

definition preferred_endpoint :: "cast_device \<Rightarrow> (cast_endpoint, error) result" where
  "preferred_endpoint d = indexR (cd_endpoints d) 0"

fun socket_port :: "socket_addr \<Rightarrow> u16" where
  "socket_port (V4 a p) = p"
| "socket_port (V6 a p f s) = p"

definition device_port :: "cast_device \<Rightarrow> (u16, error) result" where
  "device_port d = bindR (preferred_endpoint d) (\<lambda>e. Inr (socket_port (ep_address e)))"

subsection \<open>The collecting loop\<close>

datatype service_event = ServiceResolved resolved_service | ServiceRemoved string | OtherEvent

text \<open>What waiting for an event gives: an event, the end of the channel, or the end of the time.\<close>

datatype discovery_input = MdnsEvent service_event | MdnsClosed string | TimeUp

type_synonym device_table = "(string \<times> cast_device) list"

definition record_device :: "cast_device \<Rightarrow> device_table \<Rightarrow> device_table" where
  "record_device device devices =
     (case map_of devices (cd_stable_id device) of
        Some current \<Rightarrow> AList.update (cd_stable_id device) (merge_device current device) devices
      | None \<Rightarrow> AList.update (cd_stable_id device) device devices)"

definition discovery_error :: "string \<Rightarrow> error" where
  "discovery_error detail = ConnectionFailed detail"

fun discover_event :: "service_event \<Rightarrow> device_table \<Rightarrow> device_table" where
  "discover_event (ServiceResolved service) devices =
     (case device_from_service service of None \<Rightarrow> devices | Some device \<Rightarrow> record_device device devices)"
| "discover_event (ServiceRemoved service_instance) devices =
     filter (\<lambda>(key, device). cd_service_instance device \<noteq> service_instance) devices"
| "discover_event OtherEvent devices = devices"

fun discover_loop :: "discovery_input list \<Rightarrow> device_table \<Rightarrow> error + device_table" where
  "discover_loop [] devices = Inr devices"
| "discover_loop (TimeUp # is) devices = Inr devices"
| "discover_loop (MdnsClosed e # is) devices = Inl (discovery_error (''receive mDNS event: '' @ e))"
| "discover_loop (MdnsEvent e # is) devices = discover_loop is (discover_event e devices)"

text \<open>The table is a hash map: its values come out in an order the library chooses.\<close>

definition discover ::
  "(cast_device list \<Rightarrow> cast_device list) \<Rightarrow> string + unit \<Rightarrow> string + unit \<Rightarrow> discovery_input list \<Rightarrow>
     error + cast_device list" where
  "discover hash_order daemon browse is =
     (case daemon of
        Inl e \<Rightarrow> Inl (discovery_error (''create mDNS daemon: '' @ e))
      | Inr _ \<Rightarrow>
          (case browse of
             Inl e \<Rightarrow> Inl (discovery_error (''browse '' @ SERVICE_TYPE @ '': '' @ e))
           | Inr _ \<Rightarrow>
               bindE (discover_loop is []) (\<lambda>devices.
                 Inr (sort_key (\<lambda>d. (cd_friendly_name d, cd_stable_id d)) (hash_order (map snd devices))))))"

subsection \<open>Usable routes, in order\<close>

fun usable_address :: "socket_addr \<Rightarrow> u32 option \<Rightarrow> bool" where
  "usable_address (V4 a p) i \<longleftrightarrow> a \<noteq> 0 \<and> \<not> is_multicast_v4 a \<and> p \<noteq> 0"
| "usable_address (V6 a p f s) i \<longleftrightarrow> a \<noteq> 0 \<and> \<not> is_multicast_v6 a \<and> p \<noteq> 0 \<and>
     (if is_ipv6_unicast_link_local a then s \<noteq> 0 \<and> i = Some s else s = 0)"

definition usable_endpoint :: "cast_endpoint \<Rightarrow> bool" where
  "usable_endpoint e \<longleftrightarrow> usable_address (ep_address e) (ep_interface_index e)"

definition device_ok :: "cast_device \<Rightarrow> bool" where
  "device_ok d \<longleftrightarrow> cd_stable_id d \<noteq> [] \<and> cd_endpoints d \<noteq> [] \<and>
     sorted (map endpoint_key (cd_endpoints d)) \<and> list_all usable_endpoint (cd_endpoints d)"

definition table_ok :: "device_table \<Rightarrow> bool" where
  "table_ok t \<longleftrightarrow> distinct (map fst t) \<and> (\<forall>(k, d) \<in> set t. k = cd_stable_id d \<and> device_ok d)"

lemma sorted_map_remdups_adj: "sorted (map k xs) \<Longrightarrow> sorted (map k (remdups_adj xs))"
  by (induction xs rule: remdups_adj.induct) auto

lemma set_sort_and_deduplicate [simp]: "set (sort_and_deduplicate_endpoints es) = set es"
  by (simp add: sort_and_deduplicate_endpoints_def)

lemma sorted_sort_and_deduplicate: "sorted (map endpoint_key (sort_and_deduplicate_endpoints es))"
  by (simp add: sort_and_deduplicate_endpoints_def sorted_map_remdups_adj)

lemma sort_and_deduplicate_Nil [simp]: "sort_and_deduplicate_endpoints es = [] \<longleftrightarrow> es = []"
  by (metis set_sort_and_deduplicate set_empty)

lemma append_endpoints_usable:
  assumes "port \<noteq> 0" "list_all usable_endpoint es"
  shows "list_all usable_endpoint (append_endpoints es ip port)"
  using assms
  by (cases ip) (auto simp: append_endpoints_def Let_def usable_endpoint_def nonzero_index_def list_all_iff)

lemma foldl_append_endpoints_usable:
  "port \<noteq> 0 \<Longrightarrow> list_all usable_endpoint es \<Longrightarrow>
     list_all usable_endpoint (foldl (\<lambda>es ip. append_endpoints es ip port) es ips)"
  by (induction ips arbitrary: es) (simp_all add: append_endpoints_usable)

lemma device_from_service_ok:
  assumes "device_from_service s = Some d"
  shows "device_ok d"
  using assms foldl_append_endpoints_usable [of "sv_port s" "[]" "sv_addresses s"]
  by (auto simp: device_from_service_def device_ok_def Let_def bind_eq_Some_conv sorted_sort_and_deduplicate
      list_all_iff split: if_splits)

lemma device_from_service_instance:
  "device_from_service s = Some d \<Longrightarrow> cd_service_instance d = sv_fullname s"
  by (auto simp: device_from_service_def Let_def bind_eq_Some_conv split: if_splits)

lemma merge_device_fields [simp]:
  "cd_stable_id (merge_device c u) = cd_stable_id c"
  "cd_service_instance (merge_device c u) = cd_service_instance u"
  "set (cd_endpoints (merge_device c u)) = set (cd_endpoints c) \<union> set (cd_endpoints u)"
  by (simp_all add: merge_device_def)

lemma merge_device_ok: "device_ok c \<Longrightarrow> device_ok u \<Longrightarrow> device_ok (merge_device c u)"
  by (auto simp: device_ok_def merge_device_def list_all_iff sorted_sort_and_deduplicate)

lemma merge_device_update:
  "cd_stable_id c = cd_stable_id u \<Longrightarrow>
     merge_device c u = u\<lparr>cd_endpoints := cd_endpoints (merge_device c u)\<rparr>"
  by (simp add: merge_device_def)

lemma preferred_endpoint_ok:
  assumes "device_ok d"
  shows "\<exists>e. preferred_endpoint d = Inr e \<and> e \<in> set (cd_endpoints d) \<and>
    (\<forall>e' \<in> set (cd_endpoints d). endpoint_key e \<le> endpoint_key e')"
proof -
  obtain e es where "cd_endpoints d = e # es"
    using assms by (cases "cd_endpoints d") (auto simp: device_ok_def)
  then show ?thesis
    using assms by (auto simp: device_ok_def preferred_endpoint_def indexR_def)
qed

subsection \<open>The table of devices\<close>

lemma table_ok_Nil [simp]: "table_ok []"
  by (simp add: table_ok_def)

lemma table_okD: "table_ok t \<Longrightarrow> map_of t k = Some d \<Longrightarrow> cd_stable_id d = k \<and> device_ok d"
  by (auto simp: table_ok_def dest: map_of_SomeD)

lemma table_ok_update:
  assumes "table_ok t" "device_ok d" "cd_stable_id d = k"
  shows "table_ok (AList.update k d t)"
proof -
  have "distinct (map fst (AList.update k d t))"
    using assms(1) by (simp add: table_ok_def distinct_update)
  moreover have "set (AList.update k d t) \<subseteq> insert (k, d) (set t)"
    by (induction t) auto
  ultimately show ?thesis
    using assms by (auto simp: table_ok_def)
qed

lemma record_device_alt:
  "record_device d t = AList.update (cd_stable_id d)
     (case map_of t (cd_stable_id d) of None \<Rightarrow> d | Some c \<Rightarrow> merge_device c d) t"
  by (simp add: record_device_def split: option.split)

lemma record_device_ok: "table_ok t \<Longrightarrow> device_ok d \<Longrightarrow> table_ok (record_device d t)"
  by (auto simp: record_device_alt intro!: table_ok_update merge_device_ok dest: table_okD split: option.split)

lemma table_ok_filter: "table_ok t \<Longrightarrow> table_ok (filter P t)"
  by (auto simp: table_ok_def distinct_map_filter)

lemma discover_event_ok: "table_ok t \<Longrightarrow> table_ok (discover_event e t)"
  by (cases e) (simp_all add: record_device_ok device_from_service_ok table_ok_filter split: option.split)

lemma discover_loop_ok: "discover_loop is t = Inr t' \<Longrightarrow> table_ok t \<Longrightarrow> table_ok t'"
  by (induction "is" t rule: discover_loop.induct) (auto simp: discover_event_ok)

lemma discover_loop_events:
  "discover_loop (map MdnsEvent es @ TimeUp # later) t = Inr (foldl (\<lambda>t e. discover_event e t) t es)"
  by (induction es arbitrary: t) simp_all

lemma map_of_filter_values:
  "distinct (map fst t) \<Longrightarrow>
     map_of (filter (\<lambda>(k, v). P v) t) i = Option.bind (map_of t i) (\<lambda>v. if P v then Some v else None)"
  by (induction t) (auto simp: map_of_eq_None_iff split: option.split intro: rev_image_eqI)

subsection \<open>What is listed\<close>

text \<open>
  An event supersedes an announcement when it withdraws its service instance or announces the same
  device again; \<open>announced_as es i d\<close> says that \<open>d\<close> is the announcement of device \<open>i\<close> in force.
\<close>

fun supersedes :: "service_event \<Rightarrow> cast_device \<Rightarrow> bool" where
  "supersedes (ServiceResolved s) d \<longleftrightarrow> map_option cd_stable_id (device_from_service s) = Some (cd_stable_id d)"
| "supersedes (ServiceRemoved n) d \<longleftrightarrow> cd_service_instance d = n"
| "supersedes OtherEvent d \<longleftrightarrow> False"

definition announced_as :: "service_event list \<Rightarrow> string \<Rightarrow> cast_device \<Rightarrow> bool" where
  "announced_as es i d \<longleftrightarrow> (\<exists>before s after. es = before @ ServiceResolved s # after \<and>
     device_from_service s = Some d \<and> cd_stable_id d = i \<and> (\<forall>e \<in> set after. \<not> supersedes e d))"

lemma announced_as_Nil [simp]: "\<not> announced_as [] i d"
  by (simp add: announced_as_def)

lemma announced_as_snoc:
  "announced_as (es @ [e]) i d \<longleftrightarrow>
     announced_as es i d \<and> \<not> supersedes e d \<or>
     (\<exists>s. e = ServiceResolved s \<and> device_from_service s = Some d \<and> cd_stable_id d = i)"
  (is "?L \<longleftrightarrow> ?A \<or> ?B")
proof
  assume ?L
  then obtain before s after where es: "es @ [e] = before @ ServiceResolved s # after"
    and s: "device_from_service s = Some d" "cd_stable_id d = i" "\<forall>e \<in> set after. \<not> supersedes e d"
    unfolding announced_as_def by blast
  show "?A \<or> ?B"
  proof (cases after rule: rev_cases)
    case Nil
    then show ?thesis using es s by simp
  next
    case (snoc after' e')
    then have "es = before @ ServiceResolved s # after'" "e' = e"
      using es by auto
    then show ?thesis using s snoc unfolding announced_as_def by fastforce
  qed
next
  assume "?A \<or> ?B"
  then show ?L
  proof
    assume ?A
    then obtain before s after where "es = before @ ServiceResolved s # after"
      "device_from_service s = Some d" "cd_stable_id d = i" "\<forall>e \<in> set (after @ [e]). \<not> supersedes e d"
      unfolding announced_as_def by auto
    then show ?L unfolding announced_as_def
      by (intro exI [of _ before] exI [of _ s] exI [of _ "after @ [e]"]) simp
  next
    assume ?B
    then show ?L unfolding announced_as_def by fastforce
  qed
qed

lemma announced_as_id: "announced_as es i d \<Longrightarrow> cd_stable_id d = i"
  by (auto simp: announced_as_def)

lemma announced_as_ignored:
  "announced_as (es @ [OtherEvent]) i = announced_as es i"
  "device_from_service s = None \<Longrightarrow> announced_as (es @ [ServiceResolved s]) i = announced_as es i"
  by (simp_all add: announced_as_snoc fun_eq_iff)

definition reflects :: "cast_device option \<Rightarrow> (cast_device \<Rightarrow> bool) \<Rightarrow> bool" where
  "reflects entry announced \<longleftrightarrow>
     (case entry of
        None \<Rightarrow> \<forall>d. \<not> announced d
      | Some d' \<Rightarrow> \<exists>d. (\<forall>x. announced x \<longleftrightarrow> x = d) \<and> d' = d\<lparr>cd_endpoints := cd_endpoints d'\<rparr> \<and>
          set (cd_endpoints d) \<subseteq> set (cd_endpoints d'))"

lemma reflects_SomeD:
  "reflects (Some d') announced \<Longrightarrow> \<exists>d. announced d \<and> d' = d\<lparr>cd_endpoints := cd_endpoints d'\<rparr> \<and>
     set (cd_endpoints d) \<subseteq> set (cd_endpoints d')"
  unfolding reflects_def option.case by blast

lemma reflects_listed: "reflects entry announced \<Longrightarrow> entry \<noteq> None \<longleftrightarrow> (\<exists>d. announced d)"
  using reflects_SomeD by (cases entry) (simp add: reflects_def, blast)

lemma update_endpoints_instance:
  "d' = d\<lparr>cd_endpoints := es\<rparr> \<Longrightarrow>
     cd_service_instance d' = cd_service_instance d \<and> cd_stable_id d' = cd_stable_id d"
  by (cases d) simp

lemma reflects_filter:
  assumes "reflects entry announced"
  shows "reflects (Option.bind entry (\<lambda>v. if cd_service_instance v \<noteq> n then Some v else None))
    (\<lambda>x. announced x \<and> cd_service_instance x \<noteq> n)"
proof (cases entry)
  case None
  then show ?thesis using assms by (simp add: reflects_def)
next
  case (Some d')
  then obtain d where only: "\<And>x. announced x \<longleftrightarrow> x = d" and d': "d' = d\<lparr>cd_endpoints := cd_endpoints d'\<rparr>"
    and sub: "set (cd_endpoints d) \<subseteq> set (cd_endpoints d')"
    using assms by (auto simp: reflects_def)
  have "cd_service_instance d' = cd_service_instance d"
    using update_endpoints_instance [OF d'] by simp
  then show ?thesis
    using Some only d' sub by (auto simp: reflects_def)
qed

lemma discover_event_resolved:
  assumes ok: "table_ok t" and IH: "\<And>i. reflects (map_of t i) (announced_as es i)"
    and s: "device_from_service s = Some u"
  shows "reflects (map_of (discover_event (ServiceResolved s) t) i) (announced_as (es @ [ServiceResolved s]) i)"
proof (cases "cd_stable_id u = i")
  case True
  have only: "announced_as (es @ [ServiceResolved s]) i x \<longleftrightarrow> x = u" for x
    using True s by (auto simp: announced_as_snoc dest: announced_as_id)
  show ?thesis
  proof (cases "map_of t i")
    case None
    then have "map_of (discover_event (ServiceResolved s) t) i = Some u"
      using True s by (simp add: record_device_alt update_conv')
    then show ?thesis using only by (auto simp: reflects_def intro!: exI [of _ u])
  next
    case (Some c)
    then have "merge_device c u = u\<lparr>cd_endpoints := cd_endpoints (merge_device c u)\<rparr>"
      using table_okD [OF ok Some] True by (intro merge_device_update) simp
    moreover have "map_of (discover_event (ServiceResolved s) t) i = Some (merge_device c u)"
      using True s Some by (simp add: record_device_alt update_conv')
    ultimately show ?thesis using only by (auto simp: reflects_def intro!: exI [of _ u])
  qed
next
  case False
  then have "announced_as (es @ [ServiceResolved s]) i = announced_as es i"
    using s by (auto simp: announced_as_snoc fun_eq_iff dest: announced_as_id)
  then show ?thesis
    using IH [of i] False s by (simp add: reflects_def record_device_alt update_conv')
qed

lemma discover_event_removed:
  assumes ok: "table_ok t" and IH: "\<And>i. reflects (map_of t i) (announced_as es i)"
  shows "reflects (map_of (discover_event (ServiceRemoved n) t) i) (announced_as (es @ [ServiceRemoved n]) i)"
proof -
  have "map_of (discover_event (ServiceRemoved n) t) i =
      Option.bind (map_of t i) (\<lambda>v. if cd_service_instance v \<noteq> n then Some v else None)"
    using ok by (simp add: map_of_filter_values table_ok_def)
  moreover have "announced_as (es @ [ServiceRemoved n]) i =
      (\<lambda>x. announced_as es i x \<and> cd_service_instance x \<noteq> n)"
    by (simp add: announced_as_snoc fun_eq_iff)
  ultimately show ?thesis
    using IH [of i] reflects_filter [of "map_of t i" "announced_as es i" n] by simp
qed

lemma discover_reflects:
  "table_ok (foldl (\<lambda>t e. discover_event e t) [] es) \<and>
     reflects (map_of (foldl (\<lambda>t e. discover_event e t) [] es) i) (announced_as es i)"
proof (induction es arbitrary: i rule: rev_induct)
  case Nil
  show ?case by (simp add: reflects_def)
next
  case (snoc e es)
  let ?t = "foldl (\<lambda>t e. discover_event e t) [] es"
  have ok: "table_ok ?t" and IH: "\<And>i. reflects (map_of ?t i) (announced_as es i)"
    using snoc by auto
  have "reflects (map_of (discover_event e ?t) i) (announced_as (es @ [e]) i)"
  proof (cases e)
    case (ServiceResolved s)
    then show ?thesis
      using IH [of i] discover_event_resolved [OF ok IH]
      by (cases "device_from_service s") (simp_all add: announced_as_ignored)
  next
    case (ServiceRemoved n)
    then show ?thesis using discover_event_removed [OF ok IH] by simp
  next
    case OtherEvent
    then show ?thesis using IH [of i] by (simp add: announced_as_ignored)
  qed
  then show ?case using ok by (simp add: discover_event_ok)
qed

lemma in_table_values:
  "table_ok t \<Longrightarrow> d \<in> set (map snd t) \<longleftrightarrow> map_of t (cd_stable_id d) = Some d"
  by (force simp: table_ok_def)

lemma table_values_distinct: "table_ok t \<Longrightarrow> distinct (map cd_stable_id (map snd t))"
proof -
  assume ok: "table_ok t"
  then have "map cd_stable_id (map snd t) = map fst t"
    by (auto simp: table_ok_def)
  then show ?thesis using ok by (simp only: table_ok_def)
qed

definition device_key :: "cast_device \<Rightarrow> string \<times> string" where
  "device_key d = (cd_friendly_name d, cd_stable_id d)"

lemma discover_Inr:
  assumes "discover hash_order daemon browse is = Inr ds" "\<And>xs. mset (hash_order xs) = mset xs"
  shows "\<exists>t. discover_loop is [] = Inr t \<and> table_ok t \<and> mset ds = mset (map snd t) \<and>
    sorted (map device_key ds) \<and> distinct (map cd_stable_id ds)"
proof -
  obtain t where t: "discover_loop is [] = Inr t" and ds: "ds = sort_key device_key (hash_order (map snd t))"
    using assms(1)
    by (auto simp: discover_def device_key_def [abs_def] bindE_def split: sum.splits)
  have ok: "table_ok t" using discover_loop_ok [OF t] by simp
  have m: "mset ds = mset (map snd t)" using ds assms(2) by simp
  then have "mset (map cd_stable_id ds) = mset (map cd_stable_id (map snd t))"
    by (simp only: mset_map)
  then have "distinct (map cd_stable_id ds)"
    using table_values_distinct [OF ok] mset_eq_imp_distinct_iff by blast
  then show ?thesis using t ok m ds by auto
qed

lemma sorted_by_key_unique:
  assumes "mset xs = mset ys" "sorted (map f xs)" "sorted (map f ys)" "inj_on f (set xs)"
  shows "xs = ys"
proof -
  have "map f xs = map f ys"
    using assms(1-3) by (metis mset_map sorted_list_of_multiset_mset sorted_sort_id)
  then show ?thesis
    using assms(1,4) map_inj_on [of f xs ys] mset_eq_setD [OF assms(1)] by simp
qed

lemma device_key_inj: "distinct (map cd_stable_id ds) \<Longrightarrow> inj_on device_key (set ds)"
  by (auto simp: inj_on_def device_key_def distinct_map)

text \<open>
  Discovery returns each receiver once, in the order of name and identifier whatever order the
  table is read in.
\<close>

lemma discover_order_unique:
  assumes "discover h daemon browse is = Inr ds" "\<And>xs. mset (h xs) = mset xs" "\<And>xs. mset (h' xs) = mset xs"
  shows "discover h' daemon browse is = Inr ds"
proof -
  obtain ds' where ds': "discover h' daemon browse is = Inr ds'"
    using assms(1) by (auto simp: discover_def bindE_def split: sum.splits)
  note a = discover_Inr [OF assms(1,2)] and b = discover_Inr [OF ds' assms(3)]
  then have "mset ds = mset ds'" by auto
  then have "ds = ds'"
    using a b device_key_inj by (intro sorted_by_key_unique [where f = device_key]) auto
  then show ?thesis using ds' by simp
qed

text \<open>
  C27. Whatever the network announces, a completed discovery lists every receiver once, ordered by
  name and identifier independently of the order of the hash map, and each listed receiver has a
  preferred route (taking it never panics) that comes first in the order IPv4, global IPv6, scoped
  link-local IPv6; no route is unspecified, multicast, on port 0, or link-local without a scope.
\<close>

theorem discovered_devices_usable:
  assumes "discover hash_order daemon browse is = Inr ds"
    and "\<And>xs. mset (hash_order xs) = mset xs" "\<And>xs. mset (other_order xs) = mset xs"
  shows "distinct (map cd_stable_id ds) \<and> sorted (map (\<lambda>d. (cd_friendly_name d, cd_stable_id d)) ds) \<and>
    discover other_order daemon browse is = Inr ds \<and>
    (\<forall>d \<in> set ds. list_all usable_endpoint (cd_endpoints d) \<and>
       (\<exists>e. preferred_endpoint d = Inr e \<and> e \<in> set (cd_endpoints d) \<and>
          (\<forall>e' \<in> set (cd_endpoints d). endpoint_priority (ep_address e) \<le> endpoint_priority (ep_address e'))))"
proof -
  obtain t where t: "table_ok t" "mset ds = mset (map snd t)" "sorted (map device_key ds)"
    "distinct (map cd_stable_id ds)"
    using discover_Inr [OF assms(1,2)] by auto
  have ok: "device_ok d" if "d \<in> set ds" for d
    using t(1) that mset_eq_setD [OF t(2)] by (auto simp: table_ok_def)
  have le: "endpoint_priority (ep_address e) \<le> endpoint_priority (ep_address e')"
    if "endpoint_key e \<le> endpoint_key e'" for e e'
    using that by (auto simp: endpoint_key_def less_eq_prod_def)
  have "list_all usable_endpoint (cd_endpoints d) \<and>
      (\<exists>e. preferred_endpoint d = Inr e \<and> e \<in> set (cd_endpoints d) \<and>
        (\<forall>e' \<in> set (cd_endpoints d). endpoint_priority (ep_address e) \<le> endpoint_priority (ep_address e')))"
    if "d \<in> set ds" for d
    using preferred_endpoint_ok [OF ok [OF that]] ok [OF that] le unfolding device_ok_def by blast
  then show ?thesis
    using t(3,4) discover_order_unique [OF assms] unfolding device_key_def [abs_def] by simp
qed

text \<open>
  C26. When the time is up a receiver is listed exactly when one of its announcements is in force,
  that is, was neither withdrawn nor repeated since; what is listed is that latest announcement,
  with all its routes.
\<close>

theorem listed_while_announced:
  assumes "\<And>xs. mset (hash_order xs) = mset xs"
  shows "\<exists>ds. discover hash_order (Inr ()) (Inr ()) (map MdnsEvent es @ TimeUp # later) = Inr ds \<and>
    (\<forall>i. i \<in> cd_stable_id ` set ds \<longleftrightarrow> (\<exists>d. announced_as es i d)) \<and>
    (\<forall>d' \<in> set ds. \<exists>d. announced_as es (cd_stable_id d') d \<and> d' = d\<lparr>cd_endpoints := cd_endpoints d'\<rparr> \<and>
       set (cd_endpoints d) \<subseteq> set (cd_endpoints d'))"
proof -
  define t where "t = foldl (\<lambda>t e. discover_event e t) [] es"
  have ok: "table_ok t" and r: "\<And>i. reflects (map_of t i) (announced_as es i)"
    using discover_reflects by (auto simp: t_def)
  obtain ds where ds: "discover hash_order (Inr ()) (Inr ()) (map MdnsEvent es @ TimeUp # later) = Inr ds"
    by (simp add: discover_def discover_loop_events bindE_def)
  have "mset ds = mset (map snd t)"
    using discover_Inr [OF ds assms] by (auto simp: discover_loop_events t_def)
  then have "set ds = set (map snd t)" by (rule mset_eq_setD)
  then have mem: "d \<in> set ds \<longleftrightarrow> map_of t (cd_stable_id d) = Some d" for d
    using in_table_values [OF ok] by simp
  have "i \<in> cd_stable_id ` set ds \<longleftrightarrow> map_of t i \<noteq> None" for i
  proof
    assume "map_of t i \<noteq> None"
    then obtain d where d: "map_of t i = Some d" by blast
    then have "cd_stable_id d = i" using table_okD [OF ok] by blast
    then show "i \<in> cd_stable_id ` set ds" using d mem [of d] by blast
  next
    assume "i \<in> cd_stable_id ` set ds"
    then obtain d where "i = cd_stable_id d" "d \<in> set ds" by blast
    then show "map_of t i \<noteq> None" using mem [of d] by simp
  qed
  then have "i \<in> cd_stable_id ` set ds \<longleftrightarrow> (\<exists>d. announced_as es i d)" for i
    using reflects_listed [OF r [of i]] by simp
  moreover have "\<exists>d. announced_as es (cd_stable_id d') d \<and> d' = d\<lparr>cd_endpoints := cd_endpoints d'\<rparr> \<and>
      set (cd_endpoints d) \<subseteq> set (cd_endpoints d')" if "d' \<in> set ds" for d'
    using r [of "cd_stable_id d'"] that mem by (intro reflects_SomeD) simp
  ultimately show ?thesis using ds by blast
qed

subsection \<open>A receiver with two kinds of routes\<close>

definition example_service :: resolved_service where
  "example_service =
     \<lparr>sv_property = [''id'' \<mapsto> ''tv'', ''fn'' \<mapsto> ''Den''], sv_port = 8009,
      sv_addresses = [ScopedV6 0xfe800000000000000000000000000001 \<lparr>ni_index = 2, ni_name = ''eth0''\<rparr>,
        ScopedV4 0xC0A80005 []],
      sv_hostname = ''den.local.'', sv_fullname = ''tv._googlecast''\<rparr>"

definition example_route_v4 :: cast_endpoint where
  "example_route_v4 =
     \<lparr>ep_address = V4 0xC0A80005 8009, ep_interface_index = None, ep_interface_name = None\<rparr>"

definition example_route_v6 :: cast_endpoint where
  "example_route_v6 =
     \<lparr>ep_address = V6 0xfe800000000000000000000000000001 8009 0 2, ep_interface_index = Some 2,
      ep_interface_name = Some ''eth0''\<rparr>"

definition example_device :: cast_device where
  "example_device =
     \<lparr>cd_friendly_name = ''Den'', cd_model = [], cd_stable_id = ''tv'', cd_service_instance = ''tv._googlecast'',
      cd_endpoints = [example_route_v4, example_route_v6], cd_capabilities = 0, cd_protocol_version = None\<rparr>"

lemma example_trim: "trim ''tv'' = ''tv''"
  by (simp add: trim_def utf8_width_def white_def is_whitespace_def)

lemma example_link_local:
  "is_ipv6_unicast_link_local 0xfe800000000000000000000000000001" "\<not> is_multicast_v6 0xfe800000000000000000000000000001"
  "0xfe800000000000000000000000000001 \<noteq> (0 :: 128 word)"
  by (simp_all add: is_ipv6_unicast_link_local_def is_multicast_v6_def)

lemma example_routes:
  "foldl (\<lambda>es ip. append_endpoints es ip 8009) [] (sv_addresses example_service) =
     [example_route_v6, example_route_v4]"
  by (simp add: example_service_def append_endpoints_def example_route_v4_def example_route_v6_def example_link_local
      is_multicast_v4_def nonzero_index_def nonempty_name_def)

lemma example_priorities:
  "endpoint_priority (ep_address example_route_v4) = 0" "endpoint_priority (ep_address example_route_v6) = 2"
  using example_link_local by (simp_all add: example_route_v4_def example_route_v6_def)

lemma example_sorted:
  "sort_and_deduplicate_endpoints [example_route_v6, example_route_v4] = [example_route_v4, example_route_v6]"
proof -
  have "example_route_v4 \<noteq> example_route_v6" by (simp add: example_route_v4_def example_route_v6_def)
  moreover have "endpoint_key example_route_v4 < endpoint_key example_route_v6"
    by (simp add: endpoint_key_def example_priorities less_prod_def)
  ultimately show ?thesis by (simp add: sort_and_deduplicate_endpoints_def)
qed

lemma example_resolved: "device_from_service example_service = Some example_device"
proof -
  have "sv_property example_service = [''id'' \<mapsto> ''tv'', ''fn'' \<mapsto> ''Den'']" "sv_port example_service = 8009"
    "sv_fullname example_service = ''tv._googlecast''"
    by (simp_all add: example_service_def)
  then show ?thesis
    by (simp add: device_from_service_def example_routes example_sorted example_trim example_device_def Let_def)
qed

lemma example_discover:
  "discover rev (Inr ()) (Inr ()) [MdnsEvent (ServiceResolved example_service), TimeUp] = Inr [example_device]"
  by (simp add: discover_def example_resolved record_device_def bindE_def)

theorem discovered_devices_usable_witness:
  "discover id (Inr ()) (Inr ()) [MdnsEvent (ServiceResolved example_service), TimeUp] = Inr [example_device] \<and>
    (\<exists>e. preferred_endpoint example_device = Inr e \<and> usable_endpoint e)"
  using discovered_devices_usable [OF example_discover, of id]
  by (fastforce simp: list_all_iff)

theorem listed_while_announced_witness:
  "\<exists>ds. discover rev (Inr ()) (Inr ())
      (map MdnsEvent [ServiceResolved example_service, ServiceRemoved ''other'', OtherEvent] @ TimeUp # []) = Inr ds \<and>
    ''tv'' \<in> cd_stable_id ` set ds"
proof -
  have "announced_as [ServiceResolved example_service, ServiceRemoved ''other'', OtherEvent] ''tv'' example_device"
    unfolding announced_as_def
    by (rule exI [of _ "[]"], rule exI [of _ example_service]) (simp add: example_resolved, simp add: example_device_def)
  then show ?thesis
    using listed_while_announced
      [of rev "[ServiceResolved example_service, ServiceRemoved ''other'', OtherEvent]" "[]"] by fastforce
qed

text \<open>
  The order leaves out the port, and only neighbours are compared: a route announced again after
  the same address was announced with another port is kept twice.
\<close>

lemma routes_kept_twice:
  fixes a b :: cast_endpoint
  defines "a \<equiv> \<lparr>ep_address = V4 0xC0A80005 8009, ep_interface_index = None, ep_interface_name = None\<rparr>"
    and "b \<equiv> \<lparr>ep_address = V4 0xC0A80005 8010, ep_interface_index = None, ep_interface_name = None\<rparr>"
  shows "sort_and_deduplicate_endpoints (sort_and_deduplicate_endpoints ([a] @ [b]) @ [a]) = [a, b, a]"
  by (simp add: sort_and_deduplicate_endpoints_def endpoint_key_def a_def b_def)

end
