(* ===== verification/Spec2Isabelle.thy ===== *)
theory Spec2Isabelle
  imports Delivery Negotiation Cast_Framing Atv_Client Atv_Scanner Control_Client Setup_Correct Discovery
begin

text \<open>
  Verification of \<open>chromiacast\<close>, a sender for Cast streaming with Android TV remote control.

  \<^bold>\<open>The program.\<close> An application finds a receiver (\<open>src/discovery.rs\<close>), opens the control channel
  (\<open>src/control/\<close>), on which the receiver proves its identity, launches an application there and
  exchanges an OFFER (\<open>src/offer.rs\<close>) for an ANSWER (\<open>src/answer.rs\<close>). From both it starts a
  session (\<open>src/sender/mod.rs\<close>): one task (\<open>src/sender/event_loop.rs\<close>) owns an audio and a video
  stream (\<open>src/sender/stream.rs\<close>), encrypts frames (\<open>src/crypto.rs\<close>), cuts them into RTP packets
  (\<open>src/rtp.rs\<close>), paces and repeats them, and reacts to the receiver's RTCP (\<open>src/rtcp.rs\<close>).
  Hardware metadata comes from the control channel (\<open>src/control/device_info.rs\<close>) or from an HTTPS
  endpoint (\<open>src/setup.rs\<close>). Independently, \<open>src/android_tv/\<close> pairs with a television and injects
  keys.

  \<^bold>\<open>How code becomes definitions.\<close> A struct is a record, an enum a datatype, an integer of a fixed
  width a word and a \<open>usize\<close> a natural number. A fallible function returns a sum whose left side is
  the error; where slices, indexing or arithmetic could panic the result type keeps \<open>Panic\<close> apart
  from an error return, so that absence of panics is a statement about the definition. An
  operation on \<open>&mut self\<close> returns the new state. A task with a \<open>select\<close> is a function from one
  input and the state to the state, and a run is a list of inputs in any order. Clock readings,
  random draws, the outcome of every read and write, and calls of other crates are arguments.
  Strings are lists of the bytes of their UTF-8 form.

  \<^bold>\<open>Shared theories.\<close> \<open>Prelude\<close> (words, results, slices, durations), \<open>Text\<close> and \<open>Unicode\<close> (the parts of
  Rust's strings in use), \<open>Json\<close> (values of \<open>serde_json\<close> and the error type of \<open>src/error.rs\<close>),
  \<open>Byte_Source\<close> (byte streams that arrive in pieces and reads that may be cancelled).

  \<^bold>\<open>Sending media.\<close>
  \<^item> \<open>Frame\<close>, \<open>Ntp\<close>, \<open>Codec\<close>: \<open>src/frame.rs\<close>, \<open>src/ntp.rs\<close>, \<open>src/codec.rs\<close>, \<open>src/sync_source.rs\<close>.
    Eight-bit frame numbers are expanded to the identifier they came from.
  \<^item> \<open>Crypto\<close>, \<open>Rtp\<close>: no counter block of the cipher is used twice in a stream, and a frame is put
    together again from its packets in any order.
  \<^item> \<open>Rtcp\<close>: the parser gives back exactly what the receiver wrote and never panics.
  \<^item> \<open>Stream_State\<close> has the operations of a stream; \<open>Ring\<close> is the interface of an array of slots for
    consecutive identifiers, which \<open>Stream_Window\<close> interprets on the 120 slots of the stream;
    \<open>Stream_Correct\<close> shows the window invariant of all reachable states, that acknowledgement
    refines restriction of a map, and the outcome of every frame.
  \<^item> \<open>Pacing\<close>, \<open>Event_Loop\<close>, \<open>Event_Loop_Correct\<close>: the token bucket and the watchdog, every arm of the
    loop, its invariant, absence of panics, who may change a stream, and that the terminal event
    always finds room.
  \<^item> \<open>Delivery\<close> composes them: a frame given to the running loop is on the wire after as many ticks
    of the burst timer as packets wait, and the receiver recovers it from the traffic.
  \<^item> \<open>Offer\<close>, \<open>Answer\<close>, \<open>Negotiation\<close>: what an OFFER says, which pairs of OFFER and ANSWER start a
    session, and with which parameters.

  \<^bold>\<open>Control channel.\<close>
  \<^item> \<open>Wire\<close>, \<open>Cast_Message\<close>, \<open>Cast_Framing\<close>: \<open>src/control/proto.rs\<close> and \<open>framing.rs\<close>. Messages arrive
    whole under any fragmentation and cancellation.
  \<^item> \<open>Control_Messages\<close>, \<open>Pending\<close>, \<open>Control_Loop\<close>: the JSON of \<open>src/control/mod.rs\<close>, the tables of
    waiting requests and the task. \<open>Control_Correct\<close> and \<open>Control_Runs\<close>: every caller is answered
    once and only by the message that answers its request; no input makes the task panic.
  \<^item> \<open>Auth_Wire\<close>, \<open>Auth\<close>, \<open>Auth_Correct\<close>: \<open>src/control/auth.rs\<close>. What an accepted reply proves,
    revocation included. \<open>Control_Client\<close>: connecting succeeds only with such a proof.
  \<^item> \<open>Device_Info\<close>, \<open>Setup\<close>, \<open>Setup_Correct\<close>: product metadata is bounded and free of control
    characters, and an HTTP response is delivered whole or refused.
  \<^item> \<open>Discovery\<close>: \<open>src/discovery.rs\<close>. Receivers are listed exactly while announced, each with a usable
    preferred route.

  \<^bold>\<open>Android TV.\<close> \<open>Atv_Framing\<close>, \<open>Atv_Exchange\<close> (timed reads and writes as a state monad over the
  connection), \<open>Atv_Identity\<close>, \<open>Atv_Pairing\<close>, \<open>Atv_Remote\<close>, \<open>Atv_Remote_Correct\<close>, \<open>Atv_Session\<close>,
  \<open>Atv_Client\<close>, \<open>Atv_Scanner\<close>: framing, identities, the pairing exchange and when the secret leaves
  the client, the handshake, the session task and how it ends.

  \<^bold>\<open>Interfaces.\<close> The locales are \<open>wire_id\<close> (\<open>Frame\<close>), \<open>slot_ring\<close> (\<open>Ring\<close>), \<open>prefix_codec\<close> (\<open>Wire\<close>),
  \<open>frame_reader\<close> (\<open>Byte_Source\<close>) and \<open>settles\<close> (\<open>Pending\<close>); each is interpreted on the definitions that
  model the code, the framed readers of both protocol families sharing one.

  \<^bold>\<open>Bounds.\<close> No definition uses fuel: loops recurse on the data they consume or have a termination
  proof. A search for a free identifier that may not end is a partial function into an option,
  with the exact condition for its end. A loop that waits for input which has not arrived returns
  a value that says so. Statements about the loop assume clock readings below \<open>2 ^ 96\<close> nanoseconds
  and fewer than \<open>2 ^ 63\<close> frames in a stream; frames of more than 65536 packets, which the 16-bit
  packet number cannot tell apart, are excluded where a receiver puts them together.

  \<^bold>\<open>Assumed of other crates.\<close> The cipher is an involution that keeps lengths (\<open>stream_cipher\<close>); HTTP
  header parsing reports lengths within its input (\<open>head_within\<close>); reading the values of a hash map
  gives a permutation of them. X.509, path validation, signatures, hashes, RSA, the derived
  protocol-buffer and JSON codecs, TCP and TLS are arguments without assumptions unless a
  theorem states one.

  \<^bold>\<open>Not modelled.\<close> \<open>src/tls.rs\<close> accepts every certificate and passes signatures to the TLS library;
  the models let the peer present any certificate. \<open>src/transport.rs\<close> forwards to a UDP socket.
  \<open>src/lib.rs\<close> and \<open>src/android_tv/mod.rs\<close> declare modules. The deserialiser of ANSWER is derived by
  the serialisation library; the model starts from its result. Debug and display formatting,
  trace events, accessors that return a field, \<open>Drop\<close> implementations that abort a task, port
  defaults, most named key codes, and the programs under \<open>examples/\<close> are left out: they compute
  nothing that another part relies on.
\<close>

text \<open>
  C40. One encoding of numbers. The three encoders of variable-length integers, of Cast messages,
  of Android TV frame lengths and of authentication messages, write the same bytes; and the
  decoder of Cast messages, which moves a position through a buffer, and that of authentication
  messages, which shortens a slice, accept the same inputs, give the same value and leave the
  same rest.
\<close>

theorem varint_codecs_agree:
  "encode_length v = encode_varint v \<and> auth_encode_varint v = encode_varint v \<and>
   (case take_varint data of
      Inr (w, rest) \<Rightarrow> decode_varint data 0 = Inr (w, length data - length rest) \<and>
        (\<exists>used. data = used @ rest)
    | Inl _ \<Rightarrow> (\<exists>e. decode_varint data 0 = Inl (Err e)))"
  using take_varint_loop_run [of 0 0 data] decode_varint_loop_run [of 0 data 0 0] varint_run_suffix [of 0 0 data]
  by (auto simp: encode_length_eq auth_encode_varint_eq take_varint_def decode_varint_def split: varint_progress.splits)

end
